(* ===== verification/Prelude.thy ===== *)
theory Prelude
  imports Main "HOL-Library.Sublist"
begin

text \<open>
  Shared vocabulary of the development: Rust's \<open>Result\<close> as a sum with its \<open>?\<close> operator, panics
  and lock poisoning as outcomes, the widths of the machine integers the sources use, Rust's
  \<open>HashMap::retain\<close> on maps, and the theorem collections the component theories fill.
\<close>

section \<open>Theorem collections\<close>

named_theorems res_simps \<open>evaluation of the result type and of the question mark operator\<close>
named_theorems str_eval \<open>definitions to unfold when a string operation is evaluated\<close>
named_theorems sec_defs \<open>definitions of the operations of the security manager\<close>

section \<open>Results and panics\<close>

text \<open>
  \<open>Result<T, E>\<close> is \<open>'e + 't\<close>: \<open>Inl\<close> is \<open>Err\<close>, \<open>Inr\<close> is \<open>Ok\<close>. \<open>and_then r f\<close> is the code's
  \<open>let x = r?; f(x)\<close>: an error returns at once.
\<close>

definition and_then :: "'e + 'a \<Rightarrow> ('a \<Rightarrow> 'e + 'b) \<Rightarrow> 'e + 'b" where
  "and_then r f = (case r of Inl e \<Rightarrow> Inl e | Inr x \<Rightarrow> f x)"

definition ok_or :: "'a option \<Rightarrow> 'e \<Rightarrow> 'e + 'a" where
  "ok_or x e = (case x of None \<Rightarrow> Inl e | Some v \<Rightarrow> Inr v)"

definition unwrap_or :: "'a option \<Rightarrow> 'a \<Rightarrow> 'a" where
  "unwrap_or x d = (case x of None \<Rightarrow> d | Some v \<Rightarrow> v)"

definition is_some :: "'a option \<Rightarrow> bool" where
  "is_some x = (case x of None \<Rightarrow> False | Some _ \<Rightarrow> True)"

text \<open>A call either returns or panics (a failed \<open>expect\<close>, an arithmetic panic of the library).\<close>

datatype 'a outcome = Returned 'a | Panicked

lemma and_then_Inl [simp, res_simps]: "and_then (Inl e) f = Inl e"
  by (simp add: and_then_def)

lemma and_then_Inr [simp, res_simps]: "and_then (Inr x) f = f x"
  by (simp add: and_then_def)

lemma and_then_eq_Inr:
  "and_then r f = Inr y \<longleftrightarrow> (\<exists>x. r = Inr x \<and> f x = Inr y)"
  by (cases r) auto

lemma and_then_InrE [elim!]:
  assumes "and_then r f = Inr y"
  obtains x where "r = Inr x" "f x = Inr y"
  using assms by (auto simp: and_then_eq_Inr)

lemma and_then_cong [fundef_cong]:
  "r = r' \<Longrightarrow> (\<And>x. r' = Inr x \<Longrightarrow> f x = g x) \<Longrightarrow> and_then r f = and_then r' g"
  by (cases r') auto

lemma ok_or_simps [simp, res_simps]:
  "ok_or None e = Inl e"
  "ok_or (Some v) e = Inr v"
  by (simp_all add: ok_or_def)

lemma ok_or_eq_Inr [simp]: "ok_or x e = Inr v \<longleftrightarrow> x = Some v"
  by (cases x) auto

lemma unwrap_or_simps [simp, res_simps]:
  "unwrap_or None d = d"
  "unwrap_or (Some v) d = v"
  by (simp_all add: unwrap_or_def)

lemma is_some_simps [simp, res_simps]:
  "is_some None = False"
  "is_some (Some v) = True"
  by (simp_all add: is_some_def)

lemma is_some_iff: "is_some x \<longleftrightarrow> x \<noteq> None"
  by (cases x) auto

section \<open>Machine integers\<close>

text \<open>
  The sources run on a 64-bit target: \<open>usize\<close> is \<open>u64\<close>. Values are naturals below the bound; the
  operations that can leave the range are written out.
\<close>

abbreviation u8_max :: nat where "u8_max \<equiv> 255"
abbreviation u16_max :: nat where "u16_max \<equiv> 65535"
abbreviation u64_max :: nat where "u64_max \<equiv> 18446744073709551615"
abbreviation usize_max :: nat where "usize_max \<equiv> u64_max"

definition usize_checked_mul :: "nat \<Rightarrow> nat \<Rightarrow> nat option" where
  "usize_checked_mul a b = (if a * b \<le> usize_max then Some (a * b) else None)"

text \<open>\<open>a + b\<close> on \<open>usize\<close> in a release build wraps around.\<close>

definition usize_add :: "nat \<Rightarrow> nat \<Rightarrow> nat" where
  "usize_add a b = (a + b) mod (usize_max + 1)"

text \<open>\<open>a.saturating_sub(b)\<close> is subtraction on the naturals.\<close>

abbreviation (input) saturating_sub :: "nat \<Rightarrow> nat \<Rightarrow> nat" where
  "saturating_sub a b \<equiv> a - b"

text \<open>\<open>n as u32\<close> keeps the low 32 bits.\<close>

definition as_u32 :: "nat \<Rightarrow> nat" where
  "as_u32 n = n mod 2 ^ 32"

lemma usize_checked_mul_Some:
  "usize_checked_mul a b = Some c \<longleftrightarrow> c = a * b \<and> a * b \<le> usize_max"
  by (auto simp: usize_checked_mul_def)

lemma usize_add_exact: "a + b \<le> usize_max \<Longrightarrow> usize_add a b = a + b"
  by (simp add: usize_add_def)

lemma usize_add_bound: "usize_add a b \<le> usize_max"
proof -
  have "(a + b) mod (usize_max + 1) < usize_max + 1"
    by (rule mod_less_divisor) simp
  then show ?thesis
    by (simp add: usize_add_def)
qed

section \<open>Hash maps\<close>

text \<open>
  \<open>map_retain f m\<close> is \<open>HashMap::retain\<close> with a closure that may rewrite the value: the entry of
  key \<open>k\<close> with value \<open>v\<close> becomes \<open>f v\<close>, and is dropped where \<open>f v = None\<close>.
\<close>

definition map_retain :: "('v \<Rightarrow> 'v option) \<Rightarrow> ('k \<rightharpoonup> 'v) \<Rightarrow> ('k \<rightharpoonup> 'v)" where
  "map_retain f m = (\<lambda>k. case m k of None \<Rightarrow> None | Some v \<Rightarrow> f v)"

lemma map_retain_apply [simp]:
  "map_retain f m k = (case m k of None \<Rightarrow> None | Some v \<Rightarrow> f v)"
  by (simp add: map_retain_def)

lemma map_retain_empty [simp]: "map_retain f Map.empty = Map.empty"
  by (simp add: map_retain_def)

lemma dom_map_retain: "dom (map_retain f m) \<subseteq> dom m"
  by (auto simp: map_retain_def split: option.splits)

section \<open>Lists\<close>

lemma takeWhile_append_stop:
  "(\<forall>x\<in>set xs. P x) \<Longrightarrow> \<not> P y \<Longrightarrow> takeWhile P (xs @ y # ys) = xs"
  by (induction xs) auto

lemma dropWhile_append_stop:
  "(\<forall>x\<in>set xs. P x) \<Longrightarrow> \<not> P y \<Longrightarrow> dropWhile P (xs @ y # ys) = y # ys"
  by (induction xs) auto

end
