(* ===== verification/Rust_Str.thy ===== *)
theory Rust_Str
  imports Prelude
begin

text \<open>
  The part of Rust's string library the sources use. A \<open>str\<close> is a \<open>string\<close>: one \<open>char\<close> is one
  Unicode scalar value, so the model covers text over U+0000 to U+00FF, and \<open>is_whitespace\<close> and
  \<open>to_lowercase\<close> follow Unicode on that range. Byte offsets of the sources are only ever taken at
  the ends of ASCII literals or of a matched prefix, so dropping characters models them.
\<close>

section \<open>Characters\<close>

abbreviation (input) newline :: char where "newline \<equiv> CHR 0x0A"
abbreviation (input) carriage_return :: char where "carriage_return \<equiv> CHR 0x0D"
abbreviation (input) tab :: char where "tab \<equiv> CHR 0x09"

definition is_whitespace :: "char \<Rightarrow> bool" where
  "is_whitespace c = (let n = (of_char c :: nat) in
     (9 \<le> n \<and> n \<le> 13) \<or> n = 32 \<or> n = 133 \<or> n = 160)"

definition is_ascii_digit :: "char \<Rightarrow> bool" where
  "is_ascii_digit c = (let n = (of_char c :: nat) in 48 \<le> n \<and> n \<le> 57)"

text \<open>
  Lower case on U+0000 to U+00FF: the ASCII letters and the capitals U+00C0 to U+00DE without
  the multiplication sign U+00D7 move up by 32.
\<close>

definition char_lower :: "char \<Rightarrow> char" where
  "char_lower c = (let n = (of_char c :: nat) in
     if (65 \<le> n \<and> n \<le> 90) \<or> (192 \<le> n \<and> n \<le> 222 \<and> n \<noteq> 215) then char_of (n + 32) else c)"

definition to_lowercase :: "string \<Rightarrow> string" where
  "to_lowercase s = map char_lower s"

definition ascii_lower :: "char \<Rightarrow> char" where
  "ascii_lower c = (let n = (of_char c :: nat) in
     if 65 \<le> n \<and> n \<le> 90 then char_of (n + 32) else c)"

definition eq_ignore_ascii_case :: "string \<Rightarrow> string \<Rightarrow> bool" where
  "eq_ignore_ascii_case s t = (map ascii_lower s = map ascii_lower t)"

section \<open>Prefixes, suffixes and substrings\<close>

definition starts_with :: "string \<Rightarrow> string \<Rightarrow> bool" where
  "starts_with s p = (take (length p) s = p)"

definition ends_with :: "string \<Rightarrow> string \<Rightarrow> bool" where
  "ends_with s p = starts_with (rev s) (rev p)"

definition strip_prefix :: "string \<Rightarrow> string \<Rightarrow> string option" where
  "strip_prefix s p = (if starts_with s p then Some (drop (length p) s) else None)"

fun contains :: "string \<Rightarrow> string \<Rightarrow> bool" where
  "contains [] p = (p = [])"
| "contains (c # s) p = (starts_with (c # s) p \<or> contains s p)"

text \<open>\<open>find_char s c\<close> is \<open>s.find(c)\<close>, \<open>rfind_char s c\<close> is \<open>s.rfind(c)\<close>.\<close>

fun find_char :: "string \<Rightarrow> char \<Rightarrow> nat option" where
  "find_char [] c = None"
| "find_char (d # s) c = (if d = c then Some 0 else map_option Suc (find_char s c))"

definition rfind_char :: "string \<Rightarrow> char \<Rightarrow> nat option" where
  "rfind_char s c = map_option (\<lambda>i. length s - 1 - i) (find_char (rev s) c)"

section \<open>Trimming and splitting\<close>

definition trim_start :: "string \<Rightarrow> string" where
  "trim_start s = dropWhile is_whitespace s"

definition trim_end_by :: "(char \<Rightarrow> bool) \<Rightarrow> string \<Rightarrow> string" where
  "trim_end_by P s = rev (dropWhile P (rev s))"

definition trim :: "string \<Rightarrow> string" where
  "trim s = trim_end_by is_whitespace (trim_start s)"

definition trim_end_matches :: "string \<Rightarrow> char \<Rightarrow> string" where
  "trim_end_matches s c = trim_end_by (\<lambda>d. d = c) s"

text \<open>\<open>split_on P s\<close> cuts at every character that satisfies \<open>P\<close> and keeps empty pieces.\<close>

fun split_on :: "(char \<Rightarrow> bool) \<Rightarrow> string \<Rightarrow> string list" where
  "split_on P [] = [[]]"
| "split_on P (c # s) =
     (if P c then [] # split_on P s
      else (case split_on P s of [] \<Rightarrow> [[c]] | w # ws \<Rightarrow> (c # w) # ws))"

definition split_char :: "string \<Rightarrow> char \<Rightarrow> string list" where
  "split_char s c = split_on (\<lambda>d. d = c) s"

definition split_whitespace :: "string \<Rightarrow> string list" where
  "split_whitespace s = filter (\<lambda>w. w \<noteq> []) (split_on is_whitespace s)"

text \<open>
  \<open>str::lines\<close>: cut after every line feed, drop the line feed and a carriage return right before
  it; a last piece without line feed is a line only if it is not empty.
\<close>

definition strip_cr :: "string \<Rightarrow> string" where
  "strip_cr l = (if l \<noteq> [] \<and> last l = carriage_return then butlast l else l)"

definition lines :: "string \<Rightarrow> string list" where
  "lines s = (let ps = split_char s newline in
     map strip_cr (butlast ps) @ (if last ps = [] then [] else [last ps]))"

section \<open>Numbers\<close>

definition digit_val :: "char \<Rightarrow> nat" where
  "digit_val c = of_char c - 48"

definition dec_val :: "string \<Rightarrow> nat" where
  "dec_val s = foldl (\<lambda>n c. 10 * n + digit_val c) 0 s"

text \<open>
  \<open>s.parse::<uN>()\<close> with the type's maximum: an optional plus sign, then at least one ASCII digit
  and nothing else, and the value in range.
\<close>

definition parse_uint :: "nat \<Rightarrow> string \<Rightarrow> nat option" where
  "parse_uint m s =
     (let t = (if starts_with s ''+'' then drop 1 s else s)
      in if t \<noteq> [] \<and> list_all is_ascii_digit t \<and> dec_val t \<le> m then Some (dec_val t) else None)"

abbreviation parse_u16 :: "string \<Rightarrow> nat option" where "parse_u16 \<equiv> parse_uint u16_max"
abbreviation parse_u64 :: "string \<Rightarrow> nat option" where "parse_u64 \<equiv> parse_uint u64_max"
abbreviation parse_usize :: "string \<Rightarrow> nat option" where "parse_usize \<equiv> parse_uint usize_max"

text \<open>\<open>n.to_string()\<close> for an unsigned integer.\<close>

fun show_nat :: "nat \<Rightarrow> string" where
  "show_nat n = (if n < 10 then [char_of (48 + n)] else show_nat (n div 10) @ [char_of (48 + n mod 10)])"

declare show_nat.simps [simp del]

lemmas [str_eval] =
  is_whitespace_def is_ascii_digit_def char_lower_def to_lowercase_def ascii_lower_def
  eq_ignore_ascii_case_def starts_with_def ends_with_def strip_prefix_def rfind_char_def
  trim_start_def trim_end_by_def trim_def trim_end_matches_def split_char_def
  split_whitespace_def strip_cr_def lines_def digit_val_def dec_val_def parse_uint_def
  show_nat.simps char_of_def bit_0

section \<open>Prefixes and suffixes\<close>

lemma starts_with_iff: "starts_with s p \<longleftrightarrow> (\<exists>t. s = p @ t)"
  by (metis append_eq_conv_conj append_take_drop_id starts_with_def)

lemma ends_with_iff: "ends_with s p \<longleftrightarrow> (\<exists>t. s = t @ p)"
proof -
  have "ends_with s p \<longleftrightarrow> (\<exists>t. rev s = rev p @ t)"
    by (simp add: ends_with_def starts_with_iff)
  also have "\<dots> \<longleftrightarrow> (\<exists>t. s = t @ p)"
    by (metis rev_append rev_rev_ident)
  finally show ?thesis .
qed

lemma starts_with_append [simp]: "starts_with (p @ t) p"
  by (simp add: starts_with_def)

lemma ends_with_append [simp]: "ends_with (t @ p) p"
  by (auto simp: ends_with_iff)

lemma starts_with_Nil [simp]: "starts_with s []"
  by (simp add: starts_with_def)

lemma starts_with_Cons [simp]:
  "starts_with (a # s) (b # p) \<longleftrightarrow> a = b \<and> starts_with s p"
  by (auto simp: starts_with_def)

lemma starts_with_empty [simp]: "starts_with [] p \<longleftrightarrow> p = []"
  by (auto simp: starts_with_def)

lemma starts_with_trans: "starts_with s p \<Longrightarrow> starts_with p q \<Longrightarrow> starts_with s q"
  by (auto simp: starts_with_iff)

lemma ends_with_single: "ends_with s [c] \<longleftrightarrow> s \<noteq> [] \<and> last s = c"
  by (cases s rule: rev_cases) (auto simp: ends_with_def)

lemma strip_prefix_Some: "strip_prefix s p = Some t \<longleftrightarrow> s = p @ t"
  by (auto simp: strip_prefix_def starts_with_iff)

lemma strip_prefix_None: "strip_prefix s p = None \<longleftrightarrow> \<not> starts_with s p"
  by (auto simp: strip_prefix_def)

lemma contains_iff: "contains s p \<longleftrightarrow> (\<exists>a b. s = a @ p @ b)"
proof (induction s)
  case Nil
  then show ?case by simp
next
  case (Cons c s)
  show ?case
  proof
    assume "contains (c # s) p"
    then consider "starts_with (c # s) p" | "contains s p" by auto
    then show "\<exists>a b. c # s = a @ p @ b"
    proof cases
      case 1
      then show ?thesis by (metis append_Nil starts_with_iff)
    next
      case 2
      then show ?thesis using Cons.IH by (metis append_Cons)
    qed
  next
    assume "\<exists>a b. c # s = a @ p @ b"
    then obtain a b where ab: "c # s = a @ p @ b" by blast
    show "contains (c # s) p"
    proof (cases a)
      case Nil
      then have "starts_with (c # s) p" using ab by (metis append_Nil starts_with_append)
      then show ?thesis by simp
    next
      case (Cons d a')
      then show ?thesis using ab Cons.IH by auto
    qed
  qed
qed

lemma contains_char: "contains s [c] \<longleftrightarrow> c \<in> set s"
  by (induction s) auto

lemma find_char_None: "find_char s c = None \<longleftrightarrow> c \<notin> set s"
  by (induction s) auto

lemma find_char_Some:
  "find_char s c = Some i \<longleftrightarrow> i < length s \<and> s ! i = c \<and> c \<notin> set (take i s)"
proof (induction s arbitrary: i)
  case Nil
  then show ?case by simp
next
  case (Cons d s)
  then show ?case by (cases i) auto
qed

lemma find_char_append:
  "c \<notin> set a \<Longrightarrow> find_char (a @ c # b) c = Some (length a)"
  by (induction a) auto

lemma rfind_char_snoc: "rfind_char (s @ [c]) c = Some (length s)"
  by (simp add: rfind_char_def)

section \<open>Trimming and splitting\<close>

lemma trim_end_by_Nil [simp]: "trim_end_by P [] = []"
  by (simp add: trim_end_by_def)

lemma trim_end_by_snoc:
  "trim_end_by P (s @ [c]) = (if P c then trim_end_by P s else s @ [c])"
  by (simp add: trim_end_by_def)

lemma trim_end_by_id: "s = [] \<or> \<not> P (last s) \<Longrightarrow> trim_end_by P s = s"
  by (cases s rule: rev_cases) (auto simp: trim_end_by_snoc)

lemma trim_end_by_last: "trim_end_by P s \<noteq> [] \<Longrightarrow> \<not> P (last (trim_end_by P s))"
  by (induction s rule: rev_induct) (auto simp: trim_end_by_snoc split: if_splits)

lemma trim_end_by_hd: "trim_end_by P s \<noteq> [] \<Longrightarrow> hd (trim_end_by P s) = hd s"
  by (induction s rule: rev_induct)
    (auto simp: trim_end_by_snoc hd_append split: if_splits)

lemma trim_Nil [simp]: "trim [] = []"
  by (simp add: trim_def trim_start_def)

lemma trim_id:
  "s \<noteq> [] \<Longrightarrow> \<not> is_whitespace (hd s) \<Longrightarrow> \<not> is_whitespace (last s) \<Longrightarrow> trim s = s"
  by (cases s) (simp_all add: trim_def trim_start_def trim_end_by_id)

lemma trim_ends:
  assumes "trim s \<noteq> []"
  shows "\<not> is_whitespace (hd (trim s))" and "\<not> is_whitespace (last (trim s))"
proof -
  have ne: "trim_end_by is_whitespace (trim_start s) \<noteq> []"
    using assms by (simp add: trim_def)
  then have "trim_start s \<noteq> []" by auto
  then have "\<not> is_whitespace (hd (trim_start s))"
    unfolding trim_start_def by (metis hd_dropWhile)
  then show "\<not> is_whitespace (hd (trim s))"
    using trim_end_by_hd [OF ne] by (simp add: trim_def)
  show "\<not> is_whitespace (last (trim s))"
    using trim_end_by_last [OF ne] by (simp add: trim_def)
qed

lemma trim_idem [simp]: "trim (trim s) = trim s"
  by (cases "trim s = []") (simp_all add: trim_id trim_ends)

lemma split_on_ne [simp]: "split_on P s \<noteq> []"
  by (induction s) (auto split: list.splits)

lemma split_char_ne [simp]: "split_char s c \<noteq> []"
  by (simp add: split_char_def)

lemma split_on_no: "\<forall>c\<in>set s. \<not> P c \<Longrightarrow> split_on P s = [s]"
  by (induction s) auto

lemma split_on_append:
  "\<forall>c\<in>set a. \<not> P c \<Longrightarrow> P d \<Longrightarrow> split_on P (a @ d # b) = a # split_on P b"
  by (induction a) auto

lemma split_on_sep: "P d \<Longrightarrow> split_on P (a @ d # b) = split_on P a @ split_on P b"
  by (induction a) (auto split: list.splits)

lemma split_on_prefix: "\<forall>c\<in>set a. \<not> P c \<Longrightarrow> split_on P (a @ b) = (a @ hd (split_on P b)) # tl (split_on P b)"
proof (induction a)
  case Nil
  then show ?case by (cases "split_on P b") simp_all
qed simp

lemma split_on_pieces: "w \<in> set (split_on P s) \<Longrightarrow> c \<in> set w \<Longrightarrow> \<not> P c \<and> c \<in> set s"
proof (induction s arbitrary: w)
  case Nil
  then show ?case by simp
next
  case (Cons d s)
  note IH = Cons.IH and prems = Cons.prems
  show ?case
  proof (cases "split_on P s")
    case Nil
    then show ?thesis by simp
  next
    case (Cons v vs)
    then show ?thesis
      using prems IH [of v] IH [of w] by (auto split: if_splits)
  qed
qed

lemma split_char_hd: "hd (split_char s c) = takeWhile (\<lambda>d. d \<noteq> c) s"
  unfolding split_char_def
  by (induction s) (auto split: list.splits)

lemma split_whitespace_token:
  "w \<in> set (split_whitespace s) \<Longrightarrow> w \<noteq> [] \<and> (\<forall>c\<in>set w. \<not> is_whitespace c \<and> c \<in> set s)"
  by (auto simp: split_whitespace_def dest: split_on_pieces)

lemma split_whitespace_Nil [simp]: "split_whitespace [] = []"
  by (simp add: split_whitespace_def)

lemma split_whitespace_skip:
  "is_whitespace c \<Longrightarrow> split_whitespace (c # s) = split_whitespace s"
  by (simp add: split_whitespace_def)

lemma split_whitespace_word:
  "w \<noteq> [] \<Longrightarrow> \<forall>c\<in>set w. \<not> is_whitespace c \<Longrightarrow> is_whitespace d \<Longrightarrow>
   split_whitespace (w @ d # s) = w # split_whitespace s"
  by (simp add: split_whitespace_def split_on_append)

lemma split_whitespace_last:
  "w \<noteq> [] \<Longrightarrow> \<forall>c\<in>set w. \<not> is_whitespace c \<Longrightarrow> split_whitespace w = [w]"
  by (simp add: split_whitespace_def split_on_no)

lemma split_whitespace_eq_Nil: "split_whitespace s = [] \<longleftrightarrow> (\<forall>c\<in>set s. is_whitespace c)"
proof (induction s)
  case Nil
  then show ?case by simp
next
  case (Cons c s)
  show ?case
  proof (cases "is_whitespace c")
    case True
    then show ?thesis using Cons by (simp add: split_whitespace_skip)
  next
    case False
    then show ?thesis
      by (auto simp: split_whitespace_def split: list.splits)
  qed
qed

text \<open>A token that begins with a non-blank character is the longest run without blanks.\<close>

lemma split_whitespace_hd:
  "s \<noteq> [] \<Longrightarrow> \<not> is_whitespace (hd s) \<Longrightarrow>
   split_whitespace s \<noteq> [] \<and> hd (split_whitespace s) = takeWhile (\<lambda>c. \<not> is_whitespace c) s"
proof (induction s)
  case Nil
  then show ?case by simp
next
  case (Cons c s)
  have "hd (split_on is_whitespace s) = takeWhile (\<lambda>c. \<not> is_whitespace c) s"
    by (induction s) (auto split: list.splits)
  then show ?case
    using Cons.prems by (auto simp: split_whitespace_def split: list.splits)
qed

section \<open>Numbers\<close>

lemma of_char_digit [simp]: "d < 10 \<Longrightarrow> of_char (char_of (48 + d) :: char) = 48 + (d :: nat)"
  by (simp add: of_char_of)

lemma dec_val_snoc [simp]: "dec_val (s @ [c]) = 10 * dec_val s + digit_val c"
  by (simp add: dec_val_def)

lemma dec_val_Nil [simp]: "dec_val [] = 0"
  by (simp add: dec_val_def)

lemma show_nat_ne [simp]: "show_nat n \<noteq> []"
  by (subst show_nat.simps) simp

lemma show_nat_digits: "list_all is_ascii_digit (show_nat n)"
proof (induction n rule: show_nat.induct)
  case (1 n)
  have d: "is_ascii_digit (char_of (48 + k))" if "k < 10" for k :: nat
    using that by (simp add: is_ascii_digit_def Let_def)
  show ?case
  proof (cases "n < 10")
    case True
    then show ?thesis by (subst show_nat.simps) (simp add: d)
  next
    case False
    then show ?thesis using 1 by (subst show_nat.simps) (simp add: d)
  qed
qed

lemma dec_val_show_nat [simp]: "dec_val (show_nat n) = n"
proof (induction n rule: show_nat.induct)
  case (1 n)
  show ?case
  proof (cases "n < 10")
    case True
    then show ?thesis by (subst show_nat.simps) (simp add: dec_val_def digit_val_def)
  next
    case False
    then show ?thesis using 1 by (subst show_nat.simps) (simp add: digit_val_def)
  qed
qed

lemma not_digit_plus [simp]: "\<not> is_ascii_digit CHR ''+''"
  by (simp add: is_ascii_digit_def)

lemma list_all_hd_notin:
  "list_all P s \<Longrightarrow> \<not> P c \<Longrightarrow> \<not> starts_with s [c]"
  by (cases s) auto

text \<open>Printing and parsing an unsigned integer are inverse to each other within the range.\<close>

lemma parse_uint_show_nat: "parse_uint m (show_nat n) = (if n \<le> m then Some n else None)"
  using list_all_hd_notin [OF show_nat_digits not_digit_plus, of n]
  by (simp add: parse_uint_def show_nat_digits)

lemma parse_uint_le: "parse_uint m s = Some n \<Longrightarrow> n \<le> m"
  by (auto simp: parse_uint_def Let_def split: if_splits)

lemma parse_uint_digits:
  "s \<noteq> [] \<Longrightarrow> list_all is_ascii_digit s \<Longrightarrow>
   parse_uint m s = (if dec_val s \<le> m then Some (dec_val s) else None)"
  using list_all_hd_notin [of is_ascii_digit s "CHR ''+''"] by (simp add: parse_uint_def)

lemma parse_uint_Nil [simp]: "parse_uint m [] = None"
  by (simp add: parse_uint_def)

lemma digit_not_whitespace: "is_ascii_digit c \<Longrightarrow> \<not> is_whitespace c"
  by (auto simp: is_ascii_digit_def is_whitespace_def Let_def)

lemma lines_Cons: "newline \<notin> set l \<Longrightarrow> lines (l @ newline # s) = strip_cr l # lines s"
proof -
  assume "newline \<notin> set l"
  then have "split_char (l @ newline # s) newline = l # split_char s newline"
    unfolding split_char_def by (intro split_on_append) auto
  then show ?thesis by (simp add: lines_def Let_def)
qed

lemma trim_strip_cr: "trim (strip_cr l) = trim l"
proof (cases l rule: rev_cases)
  case (snoc s c)
  have "trim (s @ [carriage_return]) = trim s"
  proof (cases "\<forall>x\<in>set s. is_whitespace x")
    case True
    then have "dropWhile is_whitespace s = []" "dropWhile is_whitespace (s @ [carriage_return]) = []"
      by (auto simp: is_whitespace_def)
    then show ?thesis by (simp only: trim_def trim_start_def)
  next
    case False
    then have "dropWhile is_whitespace (s @ [carriage_return]) = dropWhile is_whitespace s @ [carriage_return]"
      by (auto simp: dropWhile_append)
    then show ?thesis by (simp add: trim_def trim_start_def trim_end_by_snoc is_whitespace_def)
  qed
  then show ?thesis using snoc by (auto simp: strip_cr_def)
qed (simp add: strip_cr_def)

end
