(* ===== verification/Rust_Net.thy ===== *)
theory Rust_Net
  imports Rust_Str "HOL-Library.Word"
begin

text \<open>
  Socket addresses of Rust's standard library: \<open>IpAddr\<close>, \<open>SocketAddr\<close>, their \<open>Display\<close> output and
  \<open>FromStr\<close> parser, the latter as the recursive-descent parser of \<open>std::net\<close> over the text still to
  read. The theory shows that parsing inverts printing, and that an IPv4 address has no other text.
\<close>

section \<open>Addresses\<close>

type_synonym u8 = "8 word"
type_synonym u16 = "16 word"
type_synonym Bytes = "u8 list"
type_synonym StatusCode = nat

datatype IpAddr = V4 u8 u8 u8 u8 | V6 u16 u16 u16 u16 u16 u16 u16 u16

record SocketAddr =
  sa_ip :: IpAddr
  sa_port :: nat

section \<open>Parsing\<close>

definition to_digit :: "nat \<Rightarrow> char \<Rightarrow> nat option" where
  "to_digit radix c = (let n = of_char c;
       d = (if 48 \<le> n \<and> n \<le> 57 then n - 48
            else if 97 \<le> n \<and> n \<le> 122 then n - 87
            else if 65 \<le> n \<and> n \<le> 90 then n - 55
            else radix)
     in if d < radix then Some d else None)"

definition digits_val :: "nat \<Rightarrow> string \<Rightarrow> nat" where
  "digits_val radix s = foldl (\<lambda>n c. radix * n + unwrap_or (to_digit radix c) 0) 0 s"

text \<open>
  \<open>read_number radix max_digits allow_zero_prefix\<close> into an integer type with maximum \<open>lim\<close>: the value
  and the text after it.
\<close>

definition read_number :: "nat \<Rightarrow> nat \<Rightarrow> bool \<Rightarrow> nat \<Rightarrow> string \<Rightarrow> (nat \<times> string) option" where
  "read_number radix max_digits allow_zero_prefix lim s =
     (let ds = takeWhile (\<lambda>c. is_some (to_digit radix c)) s
      in if length ds > max_digits then None
         else if ds = [] then None
         else if \<not> allow_zero_prefix \<and> starts_with s ''0'' \<and> length ds > 1 then None
         else if digits_val radix ds > lim then None
         else Some (digits_val radix ds, drop (length ds) s))"

definition read_given_char :: "char \<Rightarrow> string \<Rightarrow> string option" where
  "read_given_char c s = strip_prefix s [c]"

text \<open>\<open>read_separator\<close>: the separator is read before every element but the first.\<close>

definition read_separator ::
  "char \<Rightarrow> bool \<Rightarrow> (string \<Rightarrow> ('a \<times> string) option) \<Rightarrow> string \<Rightarrow> ('a \<times> string) option" where
  "read_separator sep first inner s =
     (if first then inner s
      else (case read_given_char sep s of None \<Rightarrow> None | Some t \<Rightarrow> inner t))"

definition read_octet :: "bool \<Rightarrow> string \<Rightarrow> (nat \<times> string) option" where
  "read_octet first s = read_separator CHR ''.'' first (read_number 10 3 False u8_max) s"

definition read_ipv4_addr :: "string \<Rightarrow> ((nat \<times> nat \<times> nat \<times> nat) \<times> string) option" where
  "read_ipv4_addr s =
     Option.bind (read_octet True s) (\<lambda>(a, s1).
     Option.bind (read_octet False s1) (\<lambda>(b, s2).
     Option.bind (read_octet False s2) (\<lambda>(c, s3).
     Option.bind (read_octet False s3) (\<lambda>(d, s4). Some ((a, b, c, d), s4)))))"

text \<open>
  \<open>read_groups first k s\<close> reads at most \<open>k\<close> groups; the flag of the result says that an embedded
  IPv4 address ended them.
\<close>

fun read_groups :: "bool \<Rightarrow> nat \<Rightarrow> string \<Rightarrow> nat list \<times> bool \<times> string" where
  "read_groups first 0 s = ([], False, s)"
| "read_groups first (Suc k) s =
     (case (if k \<ge> 1 then read_separator CHR '':'' first read_ipv4_addr s else None) of
        Some ((a, b, c, d), t) \<Rightarrow> ([256 * a + b, 256 * c + d], True, t)
      | None \<Rightarrow>
          (case read_separator CHR '':'' first (read_number 16 4 True u16_max) s of
             None \<Rightarrow> ([], False, s)
           | Some (g, t) \<Rightarrow>
               (let (gs, v4, u) = read_groups False k t in (g # gs, v4, u))))"

definition read_ipv6_addr :: "string \<Rightarrow> (nat list \<times> string) option" where
  "read_ipv6_addr s =
     (let (head, head_ipv4, p) = read_groups True 8 s
      in if length head = 8 then Some (head, p)
         else if head_ipv4 then None
         else Option.bind (read_given_char CHR '':'' p) (\<lambda>p1.
              Option.bind (read_given_char CHR '':'' p1) (\<lambda>p2.
                (let limit = 8 - (length head + 1);
                     (tail, _, p3) = read_groups True limit p2
                 in Some (head @ replicate (8 - length head - length tail) 0 @ tail, p3)))))"

definition v4_of :: "nat \<times> nat \<times> nat \<times> nat \<Rightarrow> IpAddr" where
  "v4_of = (\<lambda>(a, b, c, d). V4 (of_nat a) (of_nat b) (of_nat c) (of_nat d))"

fun v6_of :: "nat list \<Rightarrow> IpAddr option" where
  "v6_of [a, b, c, d, e, f, g, h] =
     Some (V6 (of_nat a) (of_nat b) (of_nat c) (of_nat d) (of_nat e) (of_nat f) (of_nat g) (of_nat h))"
| "v6_of _ = None"

text \<open>\<open>s.parse::<IpAddr>()\<close>; the whole text must be consumed.\<close>

definition parse_ip_addr :: "string \<Rightarrow> IpAddr option" where
  "parse_ip_addr s =
     (case read_ipv4_addr s of
        Some (q, rest) \<Rightarrow> (if rest = [] then Some (v4_of q) else None)
      | None \<Rightarrow>
          (case read_ipv6_addr s of
             Some (gs, rest) \<Rightarrow> (if rest = [] then v6_of gs else None)
           | None \<Rightarrow> None))"

text \<open>\<open>s.parse::<Ipv4Addr>()\<close> refuses a text of more than fifteen bytes before it looks at it.\<close>

definition parse_ipv4_addr :: "string \<Rightarrow> IpAddr option" where
  "parse_ipv4_addr s =
     (if length s > 15 then None
      else (case read_ipv4_addr s of
              Some (q, rest) \<Rightarrow> (if rest = [] then Some (v4_of q) else None)
            | None \<Rightarrow> None))"

section \<open>Printing\<close>

definition show_v4 :: "nat \<times> nat \<times> nat \<times> nat \<Rightarrow> string" where
  "show_v4 = (\<lambda>(a, b, c, d). show_nat a @ ''.'' @ show_nat b @ ''.'' @ show_nat c @ ''.'' @ show_nat d)"

definition hex_digit :: "nat \<Rightarrow> char" where
  "hex_digit n = (if n < 10 then char_of (48 + n) else char_of (87 + n))"

fun show_hex :: "nat \<Rightarrow> string" where
  "show_hex n = (if n < 16 then [hex_digit n] else show_hex (n div 16) @ [hex_digit (n mod 16)])"

declare show_hex.simps [simp del]

text \<open>The first longest run of zero groups, as start and length.\<close>

fun zero_span :: "nat \<Rightarrow> nat \<times> nat \<Rightarrow> nat \<times> nat \<Rightarrow> nat list \<Rightarrow> nat \<times> nat" where
  "zero_span i cur best [] = best"
| "zero_span i cur best (x # xs) =
     (if x = 0 then
        (let cur' = (if snd cur = 0 then i else fst cur, Suc (snd cur))
         in zero_span (Suc i) cur' (if snd cur' > snd best then cur' else best) xs)
      else zero_span (Suc i) (0, 0) best xs)"

fun fmt_subslice :: "nat list \<Rightarrow> string" where
  "fmt_subslice [] = []"
| "fmt_subslice [x] = show_hex x"
| "fmt_subslice (x # xs) = show_hex x @ '':'' @ fmt_subslice xs"

definition show_v6 :: "nat list \<Rightarrow> string" where
  "show_v6 xs =
     (if take 6 xs = [0, 0, 0, 0, 0, 65535]
      then ''::ffff:'' @ show_v4 (xs ! 6 div 256, xs ! 6 mod 256, xs ! 7 div 256, xs ! 7 mod 256)
      else (let (start, len) = zero_span 0 (0, 0) (0, 0) xs
            in if len > 1 then fmt_subslice (take start xs) @ ''::'' @ fmt_subslice (drop (start + len) xs)
               else fmt_subslice xs))"

fun ip_to_string :: "IpAddr \<Rightarrow> string" where
  "ip_to_string (V4 a b c d) = show_v4 (unat a, unat b, unat c, unat d)"
| "ip_to_string (V6 a b c d e f g h) =
     show_v6 [unat a, unat b, unat c, unat d, unat e, unat f, unat g, unat h]"

definition socket_addr_to_string :: "SocketAddr \<Rightarrow> string" where
  "socket_addr_to_string a =
     (case sa_ip a of
        V4 _ _ _ _ \<Rightarrow> ip_to_string (sa_ip a) @ '':'' @ show_nat (sa_port a)
      | V6 _ _ _ _ _ _ _ _ \<Rightarrow> ''['' @ ip_to_string (sa_ip a) @ '']:'' @ show_nat (sa_port a))"

lemmas [str_eval] =
  to_digit_def digits_val_def read_number_def read_given_char_def read_separator_def read_octet_def
  read_ipv4_addr_def read_ipv6_addr_def v4_of_def parse_ip_addr_def parse_ipv4_addr_def
  show_v4_def hex_digit_def show_hex.simps show_v6_def socket_addr_to_string_def

section \<open>IPv4 addresses: parsing inverts printing\<close>

lemma is_some_to_digit_10 [simp]: "is_some (to_digit 10 c) = is_ascii_digit c"
  by (auto simp: to_digit_def is_ascii_digit_def Let_def)

lemma digits_val_10: "list_all is_ascii_digit s \<Longrightarrow> digits_val 10 s = dec_val s"
proof (induction s rule: rev_induct)
  case Nil
  then show ?case by (simp add: digits_val_def dec_val_def)
next
  case (snoc c s)
  then have "unwrap_or (to_digit 10 c) 0 = digit_val c"
    by (auto simp: to_digit_def digit_val_def is_ascii_digit_def Let_def)
  with snoc show ?case by (simp add: digits_val_def dec_val_def)
qed

lemma show_nat_zero: "starts_with (show_nat n) ''0'' \<longleftrightarrow> n = 0"
proof (induction n rule: show_nat.induct)
  case (1 n)
  show ?case
  proof (cases "n < 10")
    case True
    have "char_of (48 + n) = CHR ''0'' \<longleftrightarrow> n = 0"
    proof
      assume "char_of (48 + n) = CHR ''0''"
      then have "of_char (char_of (48 + n) :: char) = (of_char CHR ''0'' :: nat)" by simp
      with True show "n = 0" by simp
    qed (auto simp: char_of_def bit_0)
    then show ?thesis using True by (subst show_nat.simps) simp
  next
    case False
    obtain c s where cs: "show_nat (n div 10) = c # s"
      by (cases "show_nat (n div 10)") auto
    then show ?thesis using 1 False by (subst show_nat.simps) (auto simp: cs)
  qed
qed

lemma show_nat_length: "n < 1000 \<Longrightarrow> length (show_nat n) \<le> 3"
  by (subst show_nat.simps, subst show_nat.simps, subst show_nat.simps) auto

lemma show_nat_dec_val:
  assumes "s \<noteq> []" and "list_all is_ascii_digit s" and "starts_with s ''0'' \<longrightarrow> length s = 1"
  shows "show_nat (dec_val s) = s"
  using assms
proof (induction s rule: rev_induct)
  case Nil
  then show ?case by simp
next
  case (snoc c s)
  from snoc.prems have c: "48 \<le> (of_char c :: nat)" "of_char c \<le> (57 :: nat)"
    by (auto simp: is_ascii_digit_def Let_def)
  then have d: "digit_val c < 10" and dc: "char_of (48 + digit_val c) = c"
    by (simp_all add: digit_val_def)
  show ?case
  proof (cases "s = []")
    case True
    then have "dec_val (s @ [c]) = digit_val c" by (simp add: dec_val_def)
    then show ?thesis using d dc True by (subst show_nat.simps) simp
  next
    case False
    then have nz: "\<not> starts_with s ''0''"
      using snoc.prems by (cases s) auto
    then have IH: "show_nat (dec_val s) = s" using snoc False by simp
    with nz have "dec_val s \<noteq> 0" by (metis show_nat_zero)
    then have "\<not> 10 * dec_val s + digit_val c < 10" by linarith
    then show ?thesis using IH d dc by (subst show_nat.simps) simp
  qed
qed

text \<open>A number is read exactly when the text begins with its decimal form.\<close>

lemma takeWhile_digits:
  "list_all P s \<Longrightarrow> r = [] \<or> \<not> P (hd r) \<Longrightarrow> takeWhile P (s @ r) = s"
  by (induction s) (cases r; auto)+

lemma starts_with_append_hd:
  "s \<noteq> [] \<Longrightarrow> starts_with (s @ r) [c] \<longleftrightarrow> starts_with s [c]"
  by (cases s) auto

lemma read_number_show:
  assumes "n \<le> lim" "lim < 1000" and "r = [] \<or> \<not> is_ascii_digit (hd r)"
  shows "read_number 10 3 False lim (show_nat n @ r) = Some (n, r)"
proof -
  have tw: "takeWhile is_ascii_digit (show_nat n @ r) = show_nat n"
    using takeWhile_digits [OF show_nat_digits assms(3)] .
  have len: "length (show_nat n) \<le> 3" using show_nat_length assms by simp
  have "\<not> (starts_with (show_nat n) ''0'' \<and> length (show_nat n) > 1)"
    by (auto simp: show_nat_zero) (simp add: show_nat.simps)
  then show ?thesis
    using assms len
    by (simp add: read_number_def Let_def tw digits_val_10 show_nat_digits starts_with_append_hd)
qed

lemma read_number_canonical:
  assumes "read_number 10 k False lim s = Some (n, r)"
  shows "s = show_nat n @ r" and "n \<le> lim"
proof -
  let ?ds = "takeWhile is_ascii_digit s"
  have ds: "list_all is_ascii_digit ?ds" by (auto simp: list_all_iff dest: set_takeWhileD)
  have ne: "?ds \<noteq> []" and n: "n = dec_val ?ds" and r: "r = drop (length ?ds) s"
    and le: "n \<le> lim" and z: "starts_with s ''0'' \<longrightarrow> length ?ds \<le> 1"
    using assms by (auto simp: read_number_def Let_def digits_val_10 ds split: if_splits)
  have "?ds @ r = s"
    using r by (metis append_eq_conv_conj takeWhile_dropWhile_id)
  moreover have "show_nat n = ?ds"
  proof -
    have "starts_with s ''0''" if "starts_with ?ds ''0''"
      using that ne \<open>?ds @ r = s\<close> by (metis starts_with_append_hd)
    moreover have "length ?ds \<ge> 1"
      using ne by (cases "?ds") auto
    ultimately show ?thesis
      unfolding n using z by (intro show_nat_dec_val ne ds) (auto intro: le_antisym)
  qed
  ultimately show "s = show_nat n @ r" by simp
  show "n \<le> lim" by (rule le)
qed

lemma read_octet_first:
  "n \<le> 255 \<Longrightarrow> r = [] \<or> \<not> is_ascii_digit (hd r) \<Longrightarrow>
   read_octet True (show_nat n @ r) = Some (n, r)"
  by (simp add: read_octet_def read_separator_def read_number_show)

lemma read_octet_next:
  "n \<le> 255 \<Longrightarrow> r = [] \<or> \<not> is_ascii_digit (hd r) \<Longrightarrow>
   read_octet False (CHR ''.'' # show_nat n @ r) = Some (n, r)"
  by (simp add: read_octet_def read_separator_def read_given_char_def strip_prefix_def
      read_number_show)

lemma not_digit_dot [simp]: "\<not> is_ascii_digit CHR ''.''"
  by (simp add: is_ascii_digit_def)

lemma read_ipv4_show:
  assumes "a \<le> 255" "b \<le> 255" "c \<le> 255" "d \<le> 255"
    and r: "r = [] \<or> \<not> is_ascii_digit (hd r)"
  shows "read_ipv4_addr (show_v4 (a, b, c, d) @ r) = Some ((a, b, c, d), r)"
  using assms
  by (simp add: read_ipv4_addr_def show_v4_def read_octet_first read_octet_next)

lemma read_octet_canonical:
  assumes "read_octet first s = Some (n, r)"
  shows "n \<le> 255" and "s = (if first then [] else ''.'') @ show_nat n @ r"
  using assms
  by (auto simp: read_octet_def read_separator_def read_given_char_def strip_prefix_Some
      dest: read_number_canonical split: if_splits option.splits)

lemma read_ipv4_canonical:
  assumes "read_ipv4_addr s = Some ((a, b, c, d), r)"
  shows "s = show_v4 (a, b, c, d) @ r" and "a \<le> 255 \<and> b \<le> 255 \<and> c \<le> 255 \<and> d \<le> 255"
proof -
  from assms obtain s1 s2 s3 where
    "read_octet True s = Some (a, s1)" "read_octet False s1 = Some (b, s2)"
    "read_octet False s2 = Some (c, s3)" "read_octet False s3 = Some (d, r)"
    by (auto simp: read_ipv4_addr_def bind_eq_Some_conv)
  note o = this [THEN read_octet_canonical(2)] and le = this [THEN read_octet_canonical(1)]
  from o show "s = show_v4 (a, b, c, d) @ r" by (simp add: show_v4_def)
  from le show "a \<le> 255 \<and> b \<le> 255 \<and> c \<le> 255 \<and> d \<le> 255" by simp
qed

lemma unat_u8_le: "unat (a :: u8) \<le> 255"
  using unsigned_less [of a, where ?'a = nat] by simp

lemma unat_of_nat_u8: "n \<le> 255 \<Longrightarrow> unat (of_nat n :: u8) = n"
  by (simp add: unat_of_nat take_bit_eq_mod)

text \<open>\<open>ip.to_string().parse()\<close> gives the IPv4 address back, with and without the length test.\<close>

lemma parse_ip_addr_show_V4: "parse_ip_addr (ip_to_string (V4 a b c d)) = Some (V4 a b c d)"
  using read_ipv4_show [of "unat a" "unat b" "unat c" "unat d" "[]"]
  by (simp add: parse_ip_addr_def v4_of_def unat_u8_le)

lemma show_v4_length:
  assumes "a \<le> 255" "b \<le> 255" "c \<le> 255" "d \<le> 255"
  shows "length (show_v4 (a, b, c, d)) \<le> 15"
  using show_nat_length [of a] show_nat_length [of b] show_nat_length [of c]
    show_nat_length [of d] assms
  by (simp add: show_v4_def)

lemma parse_ipv4_addr_show: "parse_ipv4_addr (ip_to_string (V4 a b c d)) = Some (V4 a b c d)"
  using read_ipv4_show [of "unat a" "unat b" "unat c" "unat d" "[]"]
    show_v4_length [of "unat a" "unat b" "unat c" "unat d"]
  by (simp add: parse_ipv4_addr_def v4_of_def unat_u8_le)

text \<open>Conversely the only text that parses to an IPv4 address is the one \<open>Display\<close> prints.\<close>

lemma parse_ip_addr_V4_canonical:
  assumes "parse_ip_addr s = Some (V4 a b c d)"
  shows "s = ip_to_string (V4 a b c d)"
proof (cases "read_ipv4_addr s")
  case None
  then show ?thesis
    using assms by (auto simp: parse_ip_addr_def split: option.splits if_splits elim!: v6_of.elims)
next
  case (Some q)
  obtain a' b' c' d' r where q: "q = ((a', b', c', d'), r)" by (metis prod_cases4 surj_pair)
  have "s = show_v4 (a', b', c', d') @ r" and "a' \<le> 255 \<and> b' \<le> 255 \<and> c' \<le> 255 \<and> d' \<le> 255"
    using Some q read_ipv4_canonical by auto
  then show ?thesis
    using assms Some q
    by (auto simp: parse_ip_addr_def v4_of_def unat_of_nat_u8 split: if_splits)
qed

lemma parse_ipv4_addr_V4:
  assumes "parse_ipv4_addr s = Some ip"
  shows "\<exists>a b c d. ip = V4 a b c d" and "parse_ip_addr s = Some ip"
  using assms by (auto simp: parse_ipv4_addr_def parse_ip_addr_def v4_of_def
      split: if_splits option.splits)

section \<open>IPv6 addresses: parsing inverts printing\<close>

definition is_hex :: "char \<Rightarrow> bool" where
  "is_hex c = is_some (to_digit 16 c)"

lemma to_digit_hex_digit: "n < 16 \<Longrightarrow> to_digit 16 (hex_digit n) = Some n"
  by (simp add: to_digit_def hex_digit_def Let_def)

lemma is_hex_hex_digit [simp]: "n < 16 \<Longrightarrow> is_hex (hex_digit n)"
  by (simp add: is_hex_def to_digit_hex_digit)

lemma not_hex_colon [simp]: "\<not> is_hex CHR '':''"
  by (simp add: is_hex_def to_digit_def)

lemma not_digit_colon [simp]: "\<not> is_ascii_digit CHR '':''"
  by (simp add: is_ascii_digit_def)

lemma show_hex_hex: "list_all is_hex (show_hex n)"
proof (induction n rule: show_hex.induct)
  case (1 n)
  then show ?case by (subst show_hex.simps) simp
qed

lemma show_hex_not_Nil [simp]: "show_hex n \<noteq> []"
  by (subst show_hex.simps) simp

lemma digits_val_show_hex: "digits_val 16 (show_hex n) = n"
proof (induction n rule: show_hex.induct)
  case (1 n)
  then show ?case by (subst show_hex.simps) (simp add: digits_val_def to_digit_hex_digit)
qed

lemma show_hex_length: "n \<le> u16_max \<Longrightarrow> length (show_hex n) \<le> 4"
  by (subst show_hex.simps, subst show_hex.simps, subst show_hex.simps, subst show_hex.simps) auto

lemma read_number_show_hex:
  assumes "n \<le> u16_max" and "r = [] \<or> \<not> is_hex (hd r)"
  shows "read_number 16 4 True u16_max (show_hex n @ r) = Some (n, r)"
proof -
  have "takeWhile (\<lambda>c. is_some (to_digit 16 c)) (show_hex n @ r) = show_hex n"
    using takeWhile_digits [OF show_hex_hex assms(2)] by (simp add: is_hex_def)
  then show ?thesis
    using assms(1) show_hex_length [OF assms(1)] by (simp add: read_number_def digits_val_show_hex)
qed

text \<open>A group is not the beginning of an IPv4 address: what ends its decimal digits is not a dot.\<close>

lemma read_ipv4_needs_dot:
  assumes "read_ipv4_addr s = Some (q, r)"
  shows "\<exists>t. dropWhile is_ascii_digit s = CHR ''.'' # t"
proof -
  obtain a b c d where q: "q = (a, b, c, d)" by (metis prod_cases4)
  have "s = show_nat a @ CHR ''.'' # show_nat b @ ''.'' @ show_nat c @ ''.'' @ show_nat d @ r"
    using read_ipv4_canonical(1) [OF assms [unfolded q]] by (simp add: show_v4_def)
  then show ?thesis using show_nat_digits [of a] by (simp add: dropWhile_append3 list_all_iff dropWhile_append2)
qed

lemma read_ipv4_group:
  assumes "list_all is_hex s" and "r = [] \<or> hd r = CHR '':''"
  shows "read_ipv4_addr (s @ r) = None"
proof -
  have "\<not> is_hex CHR ''.''" by (simp add: is_hex_def to_digit_def)
  then have "dropWhile is_ascii_digit (s @ r) \<noteq> CHR ''.'' # t" for t
    using assms by (induction s) (cases r; auto)+
  then show ?thesis using read_ipv4_needs_dot by (cases "read_ipv4_addr (s @ r)") force+
qed

text \<open>Groups, each after a colon, up to the end or the two colons of a run of zeros.\<close>

definition groups_text :: "nat list \<Rightarrow> string" where
  "groups_text gs = concat (map (\<lambda>g. CHR '':'' # show_hex g) gs)"

lemma groups_text_simps [simp]:
  "groups_text [] = []" "groups_text (g # gs) = CHR '':'' # show_hex g @ groups_text gs"
  by (simp_all add: groups_text_def)

lemma fmt_subslice_groups: "fmt_subslice (g # gs) = show_hex g @ groups_text gs"
  by (induction gs arbitrary: g) simp_all

definition groups_end :: "string \<Rightarrow> bool" where
  "groups_end r \<longleftrightarrow> r = [] \<or> (\<exists>t. r = CHR '':'' # CHR '':'' # t)"

lemma read_nothing:
  "read_number 16 4 True u16_max [] = None" "read_number 16 4 True u16_max (CHR '':'' # t) = None"
  "read_ipv4_addr [] = None" "read_ipv4_addr (CHR '':'' # t) = None"
  using read_ipv4_group [of "[]" "[]"] read_ipv4_group [of "[]" "CHR '':'' # t"]
  by (simp_all add: read_number_def is_hex_def [symmetric])

lemma read_groups_end: "groups_end r \<Longrightarrow> read_groups first k r = ([], False, r)"
  by (cases k) (auto simp: groups_end_def read_nothing read_separator_def read_given_char_def strip_prefix_def)

lemma groups_text_hd: "groups_end r \<Longrightarrow> groups_text gs @ r = [] \<or> hd (groups_text gs @ r) = CHR '':''"
  by (cases gs) (auto simp: groups_end_def)

lemma read_group:
  assumes "g \<le> u16_max" and "t = [] \<or> hd t = CHR '':''"
  shows "read_groups True (Suc k) (show_hex g @ t) = (let (gs, v4, u) = read_groups False k t in (g # gs, v4, u))"
    and "read_groups False (Suc k) (CHR '':'' # show_hex g @ t) = (let (gs, v4, u) = read_groups False k t in (g # gs, v4, u))"
proof -
  have "read_number 16 4 True u16_max (show_hex g @ t) = Some (g, t)"
    using assms by (intro read_number_show_hex) auto
  then show "read_groups True (Suc k) (show_hex g @ t) = (let (gs, v4, u) = read_groups False k t in (g # gs, v4, u))"
    and "read_groups False (Suc k) (CHR '':'' # show_hex g @ t) = (let (gs, v4, u) = read_groups False k t in (g # gs, v4, u))"
    using read_ipv4_group [OF show_hex_hex assms(2)]
    by (simp_all add: read_separator_def read_given_char_def strip_prefix_def)
qed

lemma read_groups_text:
  assumes "list_all (\<lambda>g. g \<le> u16_max) gs" and "length gs \<le> k" and "groups_end r"
  shows "read_groups False k (groups_text gs @ r) = (gs, False, r)"
  using assms(1,2)
proof (induction gs arbitrary: k)
  case Nil
  then show ?case by (simp add: read_groups_end assms(3))
next
  case (Cons g gs)
  then obtain k' where "k = Suc k'" by (cases k) auto
  then show ?case using Cons read_group(2) [OF _ groups_text_hd [OF assms(3)]] by simp
qed

lemma read_groups_fmt:
  assumes "list_all (\<lambda>g. g \<le> u16_max) gs" and "length gs \<le> k" and "groups_end r"
  shows "read_groups True k (fmt_subslice gs @ r) = (gs, False, r)"
proof (cases gs)
  case Nil
  then show ?thesis by (simp add: read_groups_end assms(3))
next
  case (Cons g gs')
  then obtain k' where "k = Suc k'" using assms(2) by (cases k) auto
  then show ?thesis
    using assms(1,2) read_group(1) [OF _ groups_text_hd [OF assms(3)]] read_groups_text [OF _ _ assms(3)]
    by (simp add: Cons fmt_subslice_groups)
qed

text \<open>The run that is printed as two colons holds zeros only.\<close>

definition zeros_at :: "nat list \<Rightarrow> nat \<times> nat \<Rightarrow> bool" where
  "zeros_at xs span \<longleftrightarrow> fst span + snd span \<le> length xs \<and> take (snd span) (drop (fst span) xs) = replicate (snd span) 0"

lemma zeros_at_append: "zeros_at xs span \<Longrightarrow> zeros_at (xs @ ys) span"
  by (auto simp: zeros_at_def)

lemma zero_span_zeros:
  assumes "zeros_at ys best" and "zeros_at ys cur" and "snd cur = 0 \<or> fst cur + snd cur = length ys"
  shows "zeros_at (ys @ xs) (zero_span (length ys) cur best xs)"
  using assms
proof (induction xs arbitrary: ys cur best)
  case (Cons x xs)
  let ?cur = "if x = 0 then (if snd cur = 0 then length ys else fst cur, Suc (snd cur)) else (0, 0)"
  let ?best = "if x = 0 \<and> snd best < Suc (snd cur) then ?cur else best"
  have cur: "zeros_at (ys @ [x]) ?cur" "snd ?cur = 0 \<or> fst ?cur + snd ?cur = length (ys @ [x])"
    using Cons.prems(2,3) by (auto simp: zeros_at_def replicate_append_same [symmetric])
  then have "zeros_at (ys @ [x]) ?best" using zeros_at_append [OF Cons.prems(1)] by auto
  from Cons.IH [OF this cur] show ?case by (auto simp: Let_def split: if_splits)
qed simp

lemma zeros_at_split: "zeros_at xs (i, n) \<Longrightarrow> take i xs @ replicate n 0 @ drop (i + n) xs = xs"
  by (metis append_take_drop_id add.commute drop_drop fst_conv snd_conv zeros_at_def)

text \<open>The last two groups of an address that maps an IPv4 address.\<close>

lemma read_mapped:
  assumes "g \<le> u16_max" and "h \<le> u16_max"
  shows "read_ipv6_addr (''::ffff:'' @ show_v4 (g div 256, g mod 256, h div 256, h mod 256)) =
    Some ([0, 0, 0, 0, 0, 65535, g, h], [])"
proof -
  let ?v4 = "show_v4 (g div 256, g mod 256, h div 256, h mod 256)"
  have "read_ipv4_addr ?v4 = Some ((g div 256, g mod 256, h div 256, h mod 256), [])"
    using read_ipv4_show [of "g div 256" "g mod 256" "h div 256" "h mod 256" "[]"] assms by simp
  then have "read_groups False 6 (CHR '':'' # ?v4) = ([g, h], True, [])"
    using read_groups.simps(2) [of False 5] by (simp add: read_separator_def read_given_char_def strip_prefix_def)
  moreover have "show_hex 65535 = ''ffff''" by (simp add: show_hex.simps hex_digit_def str_eval)
  ultimately have "read_groups True 7 (''ffff:'' @ ?v4) = ([65535, g, h], True, [])"
    using read_group(1) [of 65535 "CHR '':'' # ?v4" 6] by simp
  moreover have "replicate 5 (0 :: nat) = [0, 0, 0, 0, 0]" by (simp add: numeral_eq_Suc)
  ultimately show ?thesis
    using read_groups_end [of "''::ffff:'' @ ?v4" True 8]
    by (simp add: read_ipv6_addr_def groups_end_def read_given_char_def strip_prefix_def)
qed

lemma read_ipv6_show:
  assumes "length xs = 8" and "list_all (\<lambda>g. g \<le> u16_max) xs"
  shows "read_ipv6_addr (show_v6 xs) = Some (xs, [])"
proof -
  obtain i n where z: "zero_span 0 (0, 0) (0, 0) xs = (i, n)" by fastforce
  have "zeros_at xs (i, n)"
    using zero_span_zeros [of "[]" "(0, 0)" "(0, 0)" xs] by (simp add: z zeros_at_def)
  note s = zeros_at_split [OF this] and le = this [unfolded zeros_at_def fst_conv snd_conv, THEN conjunct1]
  consider (mapped) "take 6 xs = [0, 0, 0, 0, 0, 65535]"
    | (run) "take 6 xs \<noteq> [0, 0, 0, 0, 0, 65535]" "n > 1" | (plain) "take 6 xs \<noteq> [0, 0, 0, 0, 0, 65535]" "\<not> n > 1"
    by blast
  then show ?thesis
  proof cases
    case plain
    then show ?thesis
      using assms read_groups_fmt [OF assms(2), of 8 "[]"] by (simp add: show_v6_def z read_ipv6_addr_def groups_end_def)
  next
    case run
    have "list_all (\<lambda>g. g \<le> u16_max) (take i xs)" "list_all (\<lambda>g. g \<le> u16_max) (drop (i + n) xs)"
      using assms(2) by (auto simp: list_all_iff dest: in_set_takeD in_set_dropD)
    then show ?thesis
      using run le assms(1) s read_groups_fmt [of "take i xs" 8 "''::'' @ fmt_subslice (drop (i + n) xs)"]
        read_groups_fmt [of "drop (i + n) xs" "7 - i" "[]"]
      by (simp add: show_v6_def z read_ipv6_addr_def groups_end_def read_given_char_def strip_prefix_def min_def)
  next
    case mapped
    have "length (drop 6 xs) = 2" using assms(1) by simp
    then obtain g h where "drop 6 xs = [g, h]" 
      by (cases "drop 6 xs"; cases "tl (drop 6 xs)") (auto simp del: length_drop drop_eq_Nil)
    then have xs: "xs = [0, 0, 0, 0, 0, 65535, g, h]" using append_take_drop_id [of 6 xs] by (simp only: mapped) simp
    then show ?thesis using read_mapped [of g h] assms(2) by (simp add: show_v6_def)
  qed
qed

text \<open>A printed IPv6 address is no IPv4 address: it has a colon before any dot.\<close>

lemma show_v6_not_v4: "read_ipv4_addr (show_v6 xs) = None"
proof -
  have fmt: "read_ipv4_addr (fmt_subslice gs @ r) = None" if "groups_end r" for gs r
    using that read_ipv4_group [OF _ groups_text_hd [OF that]] read_ipv4_group [of "[]" r] show_hex_hex
    by (cases gs) (auto simp: fmt_subslice_groups groups_end_def)
  show ?thesis
    using fmt [of "[]" xs] by (auto simp: show_v6_def groups_end_def read_nothing intro!: fmt split: prod.splits)
qed

lemma unat_u16_le: "unat (a :: u16) \<le> u16_max"
  using unsigned_less [of a, where ?'a = nat] by simp

text \<open>\<open>ip.to_string().parse()\<close> gives every address back.\<close>

lemma parse_ip_addr_show: "parse_ip_addr (ip_to_string ip) = Some ip"
proof (cases ip)
  case (V4 a b c d)
  then show ?thesis using parse_ip_addr_show_V4 by simp
next
  case (V6 a b c d e f g h)
  then show ?thesis by (simp add: parse_ip_addr_def show_v6_not_v4 read_ipv6_show unat_u16_le)
qed

text \<open>The characters of a printed address.\<close>

definition ip_char :: "char \<Rightarrow> bool" where
  "ip_char c \<longleftrightarrow> is_hex c \<or> c = CHR '':'' \<or> c = CHR ''.''"

lemma ip_char_colon [simp]: "ip_char CHR '':''" "ip_char CHR ''.''"
  by (simp_all add: ip_char_def)

lemma ip_char_digits [simp]: "list_all ip_char (show_nat n)" "list_all ip_char (show_hex n)"
  using show_nat_digits [of n] show_hex_hex [of n]
  by (auto simp: list_all_iff ip_char_def is_hex_def is_some_def to_digit_def is_ascii_digit_def Let_def split: option.splits if_splits)

lemma ip_char_fmt: "list_all ip_char (fmt_subslice gs)"
  by (induction gs rule: fmt_subslice.induct) simp_all

lemma ip_char_show_v4: "list_all ip_char (show_v4 q)"
  by (cases q) (simp add: show_v4_def)

lemma ip_char_show_v6: "list_all ip_char (show_v6 gs)"
proof -
  have "list_all ip_char ''::ffff:''" by (simp add: ip_char_def is_hex_def to_digit_def)
  then show ?thesis by (simp add: show_v6_def ip_char_fmt ip_char_show_v4 split: prod.splits)
qed

lemma ip_to_string_chars: "list_all ip_char (ip_to_string ip)" "ip_to_string ip \<noteq> []"
proof -
  show "list_all ip_char (ip_to_string ip)" by (cases ip) (simp_all only: ip_to_string.simps ip_char_show_v4 ip_char_show_v6)
  show "ip_to_string ip \<noteq> []"
    using parse_ip_addr_show [of ip] by (auto simp: parse_ip_addr_def read_nothing read_ipv6_addr_def
      read_groups_end groups_end_def read_given_char_def strip_prefix_def)
qed

end
