(* ===== verification/Config.thy ===== *)
theory Config
  imports Rust_Net
begin

text \<open>
  The configuration data of \<open>src/src/config.rs\<close> and the error types of \<open>src/src/error.rs\<close>. Integers
  are naturals; \<open>Config_Parser\<close> shows that every parsed value is in the range of its Rust type.
\<close>

section \<open>Parsed configuration\<close>

record SecurityConfig =
  sec_proxy_protocol :: bool
  sec_trusted_upstream :: IpAddr
  sec_timeout_ms :: nat
  sec_max_tls_failures :: nat
  sec_ban_duration_sec :: nat
  sec_rate_limit_rpm :: nat
  sec_forward_auth :: "string option"
  sec_max_body_size :: nat
  sec_max_header_size :: nat

record CacheConfig =
  cc_enabled :: bool
  cc_max_capacity_bytes :: nat
  cc_max_file_size_bytes :: nat
  cc_default_ttl_sec :: nat

record Route =
  rt_request_endpoint :: string
  rt_forward_endpoint :: string
  rt_auth_required :: bool
  rt_cert_path :: "string option"
  rt_key_path :: "string option"
  rt_cache :: "bool option"
  rt_intercept_errors :: "bool option"

record Config =
  cfg_listen_port :: nat
  cfg_routes :: "Route list"
  cfg_workers :: nat
  cfg_logfile :: "string option"
  cfg_security :: "SecurityConfig option"
  cfg_cache :: "CacheConfig option"
  cfg_intercept_errors :: "bool option"

definition route_should_intercept_errors :: "Route \<Rightarrow> bool \<Rightarrow> bool" where
  "route_should_intercept_errors r global_intercept =
     unwrap_or (rt_intercept_errors r) global_intercept"

section \<open>Errors\<close>

datatype ParseError =
    NoListenDirective
  | InvalidListenDirective
  | TooManyListenDirectives
  | InvalidPort string
  | NoRouteDirective
  | InvalidRouteDirective string
  | DuplicateRequestEndpoint string
  | MissingSemicolon string
  | InvalidUrlFormat string
  | InvalidDirectiveCase string
  | UnknownDirective string
  | InvalidWorkersValue string
  | TooManyWorkersDirectives
  | TooManyLogfileDirectives
  | IncompleteRouteCertBlock string
  | CertNotAllowedForHttpRoute string
  | UnexpectedBlockTerminator
  | InvalidSecurityBlock string
  | TooManySecurityDirectives
  | DuplicateSecurityDirective string
  | InvalidSecurityValue string string
  | MissingSecurityDirective string
  | UnterminatedSecurityBlock

text \<open>The payload of \<open>IoError\<close> is the text the error prints.\<close>

datatype ProxyError =
    IoError string
  | TlsError string
  | NoMatchingRoute
  | UpstreamConnectionFailed string

fun proxy_error_to_string :: "ProxyError \<Rightarrow> string" where
  "proxy_error_to_string (IoError e) = ''IO error: '' @ e"
| "proxy_error_to_string (TlsError e) = ''TLS error: '' @ e"
| "proxy_error_to_string NoMatchingRoute = ''No matching route''"
| "proxy_error_to_string (UpstreamConnectionFailed addr) = ''Failed to connect to upstream: '' @ addr"

text \<open>\<open>From<std::io::Error>\<close>\<close>

definition proxy_error_of_io :: "string \<Rightarrow> ProxyError" where
  "proxy_error_of_io e = IoError e"

end
