(* ===== verification/Config_Lexer.thy ===== *)
theory Config_Lexer
  imports Rust_Str
begin

text \<open>
  Comment removal of the configuration parser, \<open>strip_comments\<close> of \<open>src/src/parser.rs\<close>. The loop
  index is a zipper: \<open>passed\<close> holds the characters already passed, last one first, and the second
  argument the characters from the index on.
\<close>

section \<open>Definitions\<close>

text \<open>The backward scan that looks for a line made of blanks only.\<close>

fun only_whitespace_before :: "string \<Rightarrow> bool" where
  "only_whitespace_before [] = True"
| "only_whitespace_before (c # passed) =
     (if c = newline then True
      else if c \<noteq> CHR '' '' \<and> c \<noteq> tab then False
      else only_whitespace_before passed)"

fun is_boundary :: "string \<Rightarrow> bool" where
  "is_boundary [] = True"
| "is_boundary (prev_char # passed) =
     (if prev_char = CHR '' '' \<or> prev_char = tab \<or> prev_char = CHR '';'' \<or> prev_char = newline
      then True
      else only_whitespace_before (prev_char # passed))"

text \<open>
  The body of a block comment: what is written for it, the characters it covers and the text
  after it.
\<close>

fun block_comment :: "string \<Rightarrow> string \<times> string \<times> string" where
  "block_comment [] = ([], [], [])"
| "block_comment (c # s) =
     (if c = CHR ''*'' \<and> starts_with s ''/'' then (''  '', ''*/'', drop 1 s)
      else (let (out, body, after) = block_comment s
            in ((if c = newline then newline else CHR '' '') # out, c # body, after)))"

lemma block_comment_split:
  "block_comment s = (out, body, after) \<Longrightarrow> s = body @ after"
proof (induction s arbitrary: out body after)
  case Nil
  then show ?case by simp
next
  case (Cons c s)
  then show ?case
    by (cases s) (auto split: if_splits prod.splits)
qed

function strip_from :: "string \<Rightarrow> string \<Rightarrow> string" where
  "strip_from passed [] = []"
| "strip_from passed [c] = [c]"
| "strip_from passed (c # next_char # rest) =
     (if c = CHR ''/'' \<and> (next_char = CHR ''/'' \<or> next_char = CHR ''*'') \<and> is_boundary passed
      then (if next_char = CHR ''/''
            then (let body = takeWhile (\<lambda>d. d \<noteq> newline) rest;
                      after = dropWhile (\<lambda>d. d \<noteq> newline) rest
                  in ''  '' @ map (\<lambda>_. CHR '' '') body
                     @ strip_from (rev body @ next_char # c # passed) after)
            else (let (out, body, after) = block_comment rest
                  in ''  '' @ out @ strip_from (rev body @ next_char # c # passed) after))
      else c # strip_from (c # passed) (next_char # rest))"
  by pat_completeness auto
termination
proof (relation "measure (\<lambda>(passed, s). length s)", goal_cases)
  case 1
  then show ?case by simp
next
  case (2 passed c next_char rest body after)
  then show ?case by (simp add: length_dropWhile_le less_Suc_eq_le le_SucI)
next
  case (3 passed c next_char rest x out y body after)
  then have "length after \<le> length rest"
    using block_comment_split [of rest out body after] by auto
  then show ?case by simp
next
  case (4 passed c next_char rest)
  then show ?case by simp
qed

definition strip_comments :: "string \<Rightarrow> string" where
  "strip_comments input = strip_from [] input"

section \<open>The boundary test\<close>

text \<open>
  The backward scan never accepts more than the test of the previous character: it starts at
  that very character, which is no blank and no line feed in that branch.
\<close>

lemma is_boundary_iff:
  "is_boundary passed \<longleftrightarrow> passed = [] \<or> hd passed \<in> {CHR '' '', tab, CHR '';'', newline}"
  by (cases passed) auto

section \<open>What stripping keeps\<close>

text \<open>Every character stays or becomes a blank; line feeds stay.\<close>

definition blanked :: "char \<Rightarrow> char \<Rightarrow> bool" where
  "blanked c d \<longleftrightarrow> d = c \<or> (d = CHR '' '' \<and> c \<noteq> newline)"

lemma blanked_refl [simp]: "blanked c c"
  by (simp add: blanked_def)

lemma blanked_space [simp]: "blanked c CHR '' '' \<longleftrightarrow> c = CHR '' '' \<or> c \<noteq> newline"
  by (auto simp: blanked_def)

lemma block_comment_blanked:
  "block_comment s = (out, body, after) \<Longrightarrow> list_all2 blanked body out"
proof (induction s arbitrary: out body after)
  case Nil
  then show ?case by simp
next
  case (Cons c s)
  then show ?case
    by (auto split: if_splits prod.splits)
qed

lemma list_all2_takeWhile_blank:
  "list_all2 blanked (takeWhile (\<lambda>d. d \<noteq> newline) s) (map (\<lambda>_. CHR '' '') (takeWhile (\<lambda>d. d \<noteq> newline) s))"
  by (induction s) auto

lemma strip_from_blanked: "list_all2 blanked s (strip_from passed s)"
proof (induction passed s rule: strip_from.induct)
  case (1 passed)
  then show ?case by simp
next
  case (2 passed c)
  then show ?case by simp
next
  case (3 passed c d rest)
  let ?comment = "c = CHR ''/'' \<and> (d = CHR ''/'' \<or> d = CHR ''*'') \<and> is_boundary passed"
  let ?tw = "takeWhile (\<lambda>d. d \<noteq> newline) rest"
  let ?dw = "dropWhile (\<lambda>d. d \<noteq> newline) rest"
  consider (line) "?comment" "d = CHR ''/''" | (block) "?comment" "d \<noteq> CHR ''/''" | (none) "\<not> ?comment"
    by blast
  then show ?case
  proof cases
    case line
    have "list_all2 blanked (?tw @ ?dw)
            (map (\<lambda>_. CHR '' '') ?tw @ strip_from (rev ?tw @ d # c # passed) ?dw)"
      using 3(1) [OF line refl refl]
      by (intro list_all2_appendI list_all2_takeWhile_blank)
    then show ?thesis using line by (simp add: Let_def)
  next
    case block
    obtain out body after where b: "block_comment rest = (out, body, after)" by (metis prod_cases3)
    have "list_all2 blanked (body @ after) (out @ strip_from (rev body @ d # c # passed) after)"
      using 3(2) [OF block b [symmetric] refl]
      by (intro list_all2_appendI block_comment_blanked [OF b]) auto
    then show ?thesis using block b block_comment_split [OF b] by simp
  next
    case none
    then show ?thesis using 3(3) by auto
  qed
qed

section \<open>What comments become\<close>

text \<open>Stripping depends on the text already passed only through the boundary test.\<close>

lemma strip_from_cong:
  assumes "is_boundary p = is_boundary q"
  shows "strip_from p s = strip_from q s"
  using assms
proof (induction p s arbitrary: q rule: strip_from.induct)
  case (3 p c d rest)
  let ?comment = "c = CHR ''/'' \<and> (d = CHR ''/'' \<or> d = CHR ''*'') \<and> is_boundary p"
  have eq: "is_boundary (xs @ c # p) = is_boundary (xs @ c # q)" for xs
    by (cases xs) (simp_all add: is_boundary_iff)
  consider (line) "?comment" "d = CHR ''/''" | (block) "?comment" "d \<noteq> CHR ''/''" | (none) "\<not> ?comment"
    by blast
  then show ?case
  proof cases
    case line
    then show ?thesis
      using 3(1) [OF line refl refl, of "rev (takeWhile (\<lambda>d. d \<noteq> newline) rest) @ d # c # q"]
        eq [of "rev (takeWhile (\<lambda>d. d \<noteq> newline) rest) @ [d]"] 3(4)
      by (simp add: Let_def)
  next
    case block
    obtain out body after where b: "block_comment rest = (out, body, after)" by (metis prod_cases3)
    have "strip_from (rev body @ d # c # p) after = strip_from (rev body @ d # c # q) after"
      by (rule 3(2) [OF block b [symmetric] refl refl]) (use eq [of "rev body @ [d]"] in simp)
    then show ?thesis using block 3(4) b by simp
  next
    case none
    then show ?thesis using 3(3) [OF none, of "c # q"] eq [of "[]"] 3(4) by auto
  qed
qed simp_all

lemma strip_char: "c \<noteq> CHR ''/'' \<Longrightarrow> strip_from passed (c # s) = c # strip_from (c # passed) s"
  by (cases s) simp_all

text \<open>
  One bit is enough for the text already passed. The equations below evaluate the removal of comments on a
  given text in one pass.
\<close>

definition strip_flag :: "bool \<Rightarrow> string \<Rightarrow> string" where
  "strip_flag boundary s = strip_from (if boundary then [] else ''/'') s"

lemma strip_from_flag: "strip_from passed s = strip_flag (is_boundary passed) s"
  unfolding strip_flag_def by (rule strip_from_cong) (simp add: is_boundary_iff)

lemma strip_comments_flag: "strip_comments s = strip_flag True s"
  by (simp add: strip_comments_def strip_from_flag)

lemma strip_flag_line: "strip_flag b (dropWhile (\<lambda>d. d \<noteq> newline) s) = strip_flag False (dropWhile (\<lambda>d. d \<noteq> newline) s)"
proof (cases "dropWhile (\<lambda>d. d \<noteq> newline) s")
  case (Cons c t)
  then have "c = newline" using hd_dropWhile [of "\<lambda>d. d \<noteq> newline" s] by simp
  then show ?thesis using Cons strip_from_cong [of "[newline]" "newline # ''/''" t]
    by (simp add: strip_flag_def strip_char)
qed (simp only: strip_flag_def strip_from.simps)

lemma block_comment_end: "block_comment s = (out, body, after) \<Longrightarrow> after = [] \<or> (\<exists>b. body = b @ ''*/'')"
proof (induction s arbitrary: out body after)
  case (Cons c s)
  then show ?case by (auto split: if_splits prod.splits) 
qed simp

lemma strip_flag_simps:
  "strip_flag b [] = []"
  "strip_flag b [c] = [c]"
  "strip_flag b (c # d # s) =
     (if c = CHR ''/'' \<and> b \<and> d = CHR ''/''
      then ''  '' @ map (\<lambda>_. CHR '' '') (takeWhile (\<lambda>d. d \<noteq> newline) s) @ strip_flag False (dropWhile (\<lambda>d. d \<noteq> newline) s)
      else if c = CHR ''/'' \<and> b \<and> d = CHR ''*''
      then (case block_comment s of (out, body, after) \<Rightarrow> ''  '' @ out @ strip_flag False after)
      else c # strip_flag (c \<in> {CHR '' '', tab, CHR '';'', newline}) (d # s))"
proof -
  let ?p = "if b then [] else ''/''"
  obtain out body after where s: "block_comment s = (out, body, after)" by (metis prod_cases3)
  have "strip_from (rev (takeWhile (\<lambda>d. d \<noteq> newline) s) @ d # c # ?p) (dropWhile (\<lambda>d. d \<noteq> newline) s) =
      strip_flag False (dropWhile (\<lambda>d. d \<noteq> newline) s)"
    unfolding strip_from_flag by (rule strip_flag_line)
  moreover have "strip_from (rev body @ d # c # ?p) after = strip_flag False after"
    unfolding strip_from_flag using block_comment_end [OF s] by (auto simp: is_boundary_iff strip_flag_def)
  moreover have "strip_from (c # ?p) (d # s) = strip_flag (c \<in> {CHR '' '', tab, CHR '';'', newline}) (d # s)"
    unfolding strip_from_flag by (simp add: is_boundary_iff)
  moreover have "is_boundary ?p = b" by (simp add: is_boundary_iff)
  ultimately show "strip_flag b (c # d # s) =
     (if c = CHR ''/'' \<and> b \<and> d = CHR ''/''
      then ''  '' @ map (\<lambda>_. CHR '' '') (takeWhile (\<lambda>d. d \<noteq> newline) s) @ strip_flag False (dropWhile (\<lambda>d. d \<noteq> newline) s)
      else if c = CHR ''/'' \<and> b \<and> d = CHR ''*''
      then (case block_comment s of (out, body, after) \<Rightarrow> ''  '' @ out @ strip_flag False after)
      else c # strip_flag (c \<in> {CHR '' '', tab, CHR '';'', newline}) (d # s))"
    unfolding strip_flag_def [of b] strip_from.simps(3) s by (simp only: Let_def prod.case) auto
qed (simp_all add: strip_flag_def)

lemma strip_flag_line_feed: "strip_flag b (newline # s) = newline # strip_flag True s"
  by (cases s) (simp_all add: strip_flag_simps)

text \<open>A line in which no block comment starts is stripped on its own.\<close>

definition single_line :: "string \<Rightarrow> bool" where
  "single_line l \<longleftrightarrow> newline \<notin> set l \<and> \<not> contains l ''/*''"

lemma single_line_simps: "single_line []" "single_line [c] \<longleftrightarrow> c \<noteq> newline" 
  "single_line (c # d # s) \<longleftrightarrow> c \<noteq> newline \<and> (d = CHR ''*'' \<longrightarrow> c \<noteq> CHR ''/'') \<and> single_line (d # s)"
  by (auto simp: single_line_def starts_with_def)

lemma strip_flag_append_line: "single_line l \<Longrightarrow> strip_flag b (l @ newline # s) = strip_flag b l @ newline # strip_flag True s"
proof (induction l arbitrary: b rule: induct_list012)
  case (3 c d l)
  have n: "newline \<notin> set l" using 3(3) by (simp add: single_line_def)
  have app: "takeWhile (\<lambda>d. d \<noteq> newline) (l @ newline # s) = l" "dropWhile (\<lambda>d. d \<noteq> newline) (l @ newline # s) = newline # s"
    by (rule takeWhile_append_stop dropWhile_append_stop; use n in auto)+
  have alone: "takeWhile (\<lambda>d. d \<noteq> newline) l = l" "dropWhile (\<lambda>d. d \<noteq> newline) l = []" using n by auto
  have dl: "single_line (d # l)" using 3(3) by (simp add: single_line_def)
  have "\<not> (c = CHR ''/'' \<and> d = CHR ''*'')" using 3(3) by (auto simp: single_line_def starts_with_def)
  then show ?case
    unfolding append_Cons strip_flag_simps(3) [of b c d] app alone 3(2) [OF dl, unfolded append_Cons]
    by (auto simp only: strip_flag_simps(1) strip_flag_line_feed append_assoc append_Cons append_Nil append_Nil2 split: if_split)
qed (simp_all add: strip_flag_simps(1,2) strip_flag_simps(3) [of _ _ newline] strip_flag_line_feed)

lemma newline_stripped: "newline \<notin> set l \<Longrightarrow> newline \<notin> set (strip_flag b l)"
proof -
  assume a: "newline \<notin> set l"
  have "newline \<notin> set y" if "list_all2 blanked x y" "newline \<notin> set x" for x y
    using that by (induction rule: list_all2_induct) (auto simp: blanked_def)
  then show ?thesis unfolding strip_flag_def using strip_from_blanked a by blast
qed

lemma strip_plain: "CHR ''/'' \<notin> set a \<Longrightarrow> strip_from passed (a @ s) = a @ strip_from (rev a @ passed) s"
  by (induction a arbitrary: passed) (auto simp: strip_char)

definition blank_out :: "string \<Rightarrow> string" where
  "blank_out b = map (\<lambda>c. if c = newline then newline else CHR '' '') b"

lemma block_comment_body:
  "\<not> contains b ''*/'' \<Longrightarrow> block_comment (b @ CHR ''*'' # CHR ''/'' # s) = (blank_out b @ ''  '', b @ ''*/'', s)"
proof (induction b)
  case Nil
  then show ?case by (simp add: blank_out_def)
next
  case (Cons c b)
  then show ?case by (cases b) (auto simp: blank_out_def)
qed

lemma strip_line_comment:
  assumes "CHR ''/'' \<notin> set a" and "is_boundary (rev a)" and "newline \<notin> set b"
  shows "strip_comments (a @ ''//'' @ b @ newline # s) =
    a @ ''  '' @ replicate (length b) (CHR '' '') @ newline # strip_comments s"
proof -
  have "takeWhile (\<lambda>d. d \<noteq> newline) (b @ newline # s) = b"
    "dropWhile (\<lambda>d. d \<noteq> newline) (b @ newline # s) = newline # s"
    using assms(3) by (auto intro: takeWhile_append_stop dropWhile_append_stop)
  moreover have "strip_from (newline # p) s = strip_from [] s" for p
    by (rule strip_from_cong) simp
  ultimately show ?thesis
    using assms(1,2) by (simp add: strip_comments_def strip_plain strip_char map_replicate_const Let_def)
qed

lemma strip_block_comment:
  assumes "CHR ''/'' \<notin> set a" and "is_boundary (rev a)" and "\<not> contains b ''*/''"
  shows "strip_comments (a @ ''/*'' @ b @ ''*/'' @ s) = a @ ''  '' @ blank_out b @ ''  '' @ strip_from ''/'' s"
proof -
  have "strip_from (CHR ''/'' # p) s = strip_from ''/'' s" for p
    by (rule strip_from_cong) (simp add: is_boundary_iff)
  then show ?thesis
    using assms by (simp add: strip_comments_def strip_plain block_comment_body)
qed

section \<open>Properties\<close>

lemma split_char_blanked:
  "list_all2 blanked s t \<Longrightarrow> length (split_char t newline) = length (split_char s newline)"
  unfolding split_char_def
  by (induction rule: list_all2_induct) (auto simp: blanked_def split: list.splits)

text \<open>
  Removing comments keeps the layout of the file: the result has the same length, every
  character stays or becomes a blank, no line feed is lost or added, and the number of lines is
  the same, so that what follows a comment stays on its line.
\<close>

lemma strip_comments_layout:
  "list_all2 (\<lambda>c d. d = c \<or> (d = CHR '' '' \<and> c \<noteq> newline)) s (strip_comments s) \<and>
   length (split_char (strip_comments s) newline) = length (split_char s newline)"
  using strip_from_blanked [of s "[]"] split_char_blanked [OF strip_from_blanked [of s "[]"]]
  by (simp add: strip_comments_def blanked_def [abs_def])

text \<open>
  Comments are removed: where the text before has no slash and ends at a boundary (the start of
  the file, a blank, a tab, a semicolon or a line feed), a line comment becomes blanks up to its
  line feed and stripping starts afresh after it, and a block comment becomes blanks and line
  feeds up to its first terminator.
\<close>

lemma strip_comments_comment:
  assumes "CHR ''/'' \<notin> set a" and "is_boundary (rev a)"
  shows "(newline \<notin> set b \<longrightarrow>
      strip_comments (a @ ''//'' @ b @ newline # s) =
        a @ ''  '' @ replicate (length b) (CHR '' '') @ newline # strip_comments s) \<and>
    (\<not> contains b ''*/'' \<longrightarrow>
      strip_comments (a @ ''/*'' @ b @ ''*/'' @ s) =
        a @ ''  '' @ blank_out b @ ''  '' @ strip_from ''/'' s)"
  using strip_line_comment [OF assms] strip_block_comment [OF assms] by blast

end
