(* ===== verification/Config_Parser.thy ===== *)
theory Config_Parser
  imports Config Config_Lexer
begin

text \<open>
  The configuration parser of \<open>src/src/parser.rs\<close>. A position in the list of lines is the list of
  the lines still to read: \<open>lines[index..]\<close> for the sources' \<open>lines\<close> and \<open>index\<close>. A block parser
  takes the lines after the block's header and returns the lines after its closing brace. The
  mutable locals of a parsing loop are the fields of a record.
\<close>

section \<open>Checks on one line\<close>

definition is_valid_url :: "string \<Rightarrow> bool" where
  "is_valid_url url = (contains url ''://'' \<or> starts_with url ''/'' \<or> contains url '':'')"

definition parse_listen_line :: "string \<Rightarrow> ParseError + nat" where
  "parse_listen_line line =
     (case split_whitespace (trim (trim_end_matches line CHR '';'')) of
        [_, p] \<Rightarrow> ok_or (parse_u16 p) (InvalidPort p)
      | _ \<Rightarrow> Inl InvalidListenDirective)"

definition validate_semicolon :: "string \<Rightarrow> ParseError + unit" where
  "validate_semicolon line =
     (if \<not> ends_with (trim line) '';'' then Inl (MissingSemicolon line) else Inr ())"

definition validate_directive_case :: "string \<Rightarrow> ParseError + unit" where
  "validate_directive_case directive =
     (if directive \<noteq> to_lowercase directive then Inl (InvalidDirectiveCase directive) else Inr ())"

definition get_directive :: "string \<Rightarrow> ParseError + string" where
  "get_directive line =
     (case split_whitespace line of
        [] \<Rightarrow> Inl (UnknownDirective [])
      | d # _ \<Rightarrow> Inr d)"

definition validate_known_top_level_directive :: "string \<Rightarrow> ParseError + unit" where
  "validate_known_top_level_directive directive =
     (if directive \<in> {''listen'', ''route'', ''workers'', ''logfile'', ''security'', ''cache'',
                       ''intercept_errors''}
      then Inr () else Inl (UnknownDirective directive))"

definition parse_single_value_directive :: "string \<Rightarrow> string \<Rightarrow> ParseError + string" where
  "parse_single_value_directive line directive =
     (case split_whitespace (trim (trim_end_matches line CHR '';'')) of
        [_, v] \<Rightarrow> Inr v
      | _ \<Rightarrow> Inl (UnknownDirective directive))"

definition check_trailing_garbage :: "string \<Rightarrow> ParseError + unit" where
  "check_trailing_garbage line =
     (let trimmed = trim line
      in if \<not> ends_with trimmed '';'' then Inr ()
         else (case rfind_char trimmed CHR '';'' of
                 None \<Rightarrow> Inr ()
               | Some semicolon_pos \<Rightarrow>
                   (if trim (drop (semicolon_pos + 1) trimmed) \<noteq> [] then Inl InvalidListenDirective
                    else Inr ())))"

definition is_block_end :: "string \<Rightarrow> bool" where
  "is_block_end line = (line = ''}'' \<or> line = ''};'')"

text \<open>The four checks every line inside a block goes through; the result is its directive.\<close>

definition block_directive :: "string \<Rightarrow> ParseError + string" where
  "block_directive line =
     and_then (validate_semicolon line) (\<lambda>_.
     and_then (get_directive line) (\<lambda>directive.
     and_then (validate_directive_case directive) (\<lambda>_.
     and_then (check_trailing_garbage line) (\<lambda>_. Inr directive))))"

text \<open>The values of a switch: \<open>on\<close>, \<open>yes\<close>, \<open>true\<close> and \<open>off\<close>, \<open>no\<close>, \<open>false\<close>.\<close>

definition switch_value :: "string \<Rightarrow> bool option" where
  "switch_value value =
     (if value \<in> {''on'', ''yes'', ''true''} then Some True
      else if value \<in> {''off'', ''no'', ''false''} then Some False
      else None)"

section \<open>Size strings\<close>

definition parse_size_string :: "string \<Rightarrow> string \<Rightarrow> ParseError + nat" where
  "parse_size_string s0 directive_name =
     (let s = trim s0
      in if s = [] then Inl (InvalidSecurityValue directive_name s)
         else
           (let (num_str, multiplier) =
              (if last s \<in> {CHR ''k'', CHR ''K''} then (butlast s, 1024)
               else if last s \<in> {CHR ''m'', CHR ''M''} then (butlast s, 1024 * 1024)
               else if last s \<in> {CHR ''g'', CHR ''G''} then (butlast s, 1024 * 1024 * 1024)
               else (s, 1))
            in and_then (ok_or (parse_usize num_str) (InvalidSecurityValue directive_name s)) (\<lambda>num.
               ok_or (usize_checked_mul num multiplier) (InvalidSecurityValue directive_name s))))"

section \<open>Route blocks\<close>

definition parse_route_block_header :: "string \<Rightarrow> ParseError + string" where
  "parse_route_block_header line =
     (case split_whitespace line of
        [kw, endpoint, brace] \<Rightarrow>
          (if kw \<noteq> ''route'' \<or> brace \<noteq> ''{'' then Inl (InvalidRouteDirective line)
           else if \<not> is_valid_url endpoint then Inl (InvalidUrlFormat endpoint)
           else Inr endpoint)
      | _ \<Rightarrow> Inl (InvalidRouteDirective line))"

record route_locals =
  rl_forward_endpoint :: "string option"
  rl_auth_required :: bool
  rl_cert_path :: "string option"
  rl_key_path :: "string option"
  rl_cache :: "bool option"
  rl_intercept_errors :: "bool option"

definition route_locals_init :: route_locals where
  "route_locals_init =
     \<lparr>rl_forward_endpoint = None, rl_auth_required = False, rl_cert_path = None,
      rl_key_path = None, rl_cache = None, rl_intercept_errors = None\<rparr>"

text \<open>One directive line of a route block.\<close>

definition route_directive :: "string \<Rightarrow> string \<Rightarrow> route_locals \<Rightarrow> ParseError + route_locals" where
  "route_directive line directive l =
     (if directive = ''upstream'' \<or> directive = ''forward'' then
        and_then (parse_single_value_directive line directive) (\<lambda>value.
          if \<not> is_valid_url value then Inl (InvalidUrlFormat value)
          else Inr (l\<lparr>rl_forward_endpoint := Some value\<rparr>))
      else if directive = ''auth'' then
        and_then (parse_single_value_directive line ''auth'') (\<lambda>value.
        and_then (ok_or (switch_value value) (InvalidRouteDirective line)) (\<lambda>b.
          Inr (l\<lparr>rl_auth_required := b\<rparr>)))
      else if directive = ''cert'' then
        and_then (parse_single_value_directive line ''cert'') (\<lambda>value.
          if is_some (rl_cert_path l) then Inl (InvalidRouteDirective line)
          else Inr (l\<lparr>rl_cert_path := Some value\<rparr>))
      else if directive = ''key'' then
        and_then (parse_single_value_directive line ''key'') (\<lambda>value.
          if is_some (rl_key_path l) then Inl (InvalidRouteDirective line)
          else Inr (l\<lparr>rl_key_path := Some value\<rparr>))
      else if directive = ''cache'' then
        and_then (parse_single_value_directive line ''cache'') (\<lambda>value.
        and_then (ok_or (switch_value value) (InvalidRouteDirective line)) (\<lambda>b.
          Inr (l\<lparr>rl_cache := Some b\<rparr>)))
      else if directive = ''intercept_errors'' then
        and_then (parse_single_value_directive line ''intercept_errors'') (\<lambda>value.
        and_then (ok_or (switch_value value) (InvalidRouteDirective line)) (\<lambda>b.
          Inr (l\<lparr>rl_intercept_errors := Some b\<rparr>)))
      else Inl (InvalidRouteDirective line))"

text \<open>What the closing brace of a route block does.\<close>

definition route_finish :: "string \<Rightarrow> route_locals \<Rightarrow> ParseError + Route" where
  "route_finish request_endpoint l =
     and_then (ok_or (rl_forward_endpoint l) (InvalidRouteDirective request_endpoint)) (\<lambda>fwd.
       if starts_with request_endpoint ''https://'' \<and>
          (\<not> is_some (rl_cert_path l) \<or> \<not> is_some (rl_key_path l))
       then Inl (IncompleteRouteCertBlock request_endpoint)
       else if \<not> starts_with request_endpoint ''https://'' \<and>
          (is_some (rl_cert_path l) \<or> is_some (rl_key_path l))
       then Inl (CertNotAllowedForHttpRoute request_endpoint)
       else Inr \<lparr>rt_request_endpoint = request_endpoint, rt_forward_endpoint = fwd,
                 rt_auth_required = rl_auth_required l, rt_cert_path = rl_cert_path l,
                 rt_key_path = rl_key_path l, rt_cache = rl_cache l,
                 rt_intercept_errors = rl_intercept_errors l\<rparr>)"

fun route_block_loop ::
  "string \<Rightarrow> route_locals \<Rightarrow> string list \<Rightarrow> ParseError + Route \<times> string list" where
  "route_block_loop request_endpoint l [] = Inl (InvalidRouteDirective request_endpoint)"
| "route_block_loop request_endpoint l (line # rest) =
     (if is_block_end line then and_then (route_finish request_endpoint l) (\<lambda>r. Inr (r, rest))
      else if ends_with line ''{'' then Inl (InvalidRouteDirective line)
      else and_then (block_directive line) (\<lambda>directive.
           and_then (route_directive line directive l) (\<lambda>l'.
             route_block_loop request_endpoint l' rest)))"

definition parse_route_block :: "string \<Rightarrow> string list \<Rightarrow> ParseError + Route \<times> string list" where
  "parse_route_block request_endpoint rest = route_block_loop request_endpoint route_locals_init rest"

section \<open>The security block\<close>

record security_locals =
  sl_proxy_protocol :: "bool option"
  sl_trusted_upstream :: "IpAddr option"
  sl_timeout_ms :: "nat option"
  sl_max_tls_failures :: "nat option"
  sl_ban_duration_sec :: "nat option"
  sl_rate_limit_rpm :: "nat option"
  sl_forward_auth :: "string option"
  sl_max_body_size :: "nat option"
  sl_max_header_size :: "nat option"

definition security_locals_init :: security_locals where
  "security_locals_init =
     \<lparr>sl_proxy_protocol = None, sl_trusted_upstream = None, sl_timeout_ms = None,
      sl_max_tls_failures = None, sl_ban_duration_sec = None, sl_rate_limit_rpm = None,
      sl_forward_auth = None, sl_max_body_size = None, sl_max_header_size = None\<rparr>"

text \<open>A directive that may be given once: its value, the duplicate test, then its own parser.\<close>

definition once_value ::
  "string \<Rightarrow> string \<Rightarrow> 'a option \<Rightarrow> (string \<Rightarrow> ParseError + 'a) \<Rightarrow> ParseError + 'a" where
  "once_value line directive old p =
     and_then (parse_single_value_directive line directive) (\<lambda>value.
       if is_some old then Inl (DuplicateSecurityDirective directive) else p value)"

definition security_number :: "nat \<Rightarrow> string \<Rightarrow> string \<Rightarrow> ParseError + nat" where
  "security_number m directive value = ok_or (parse_uint m value) (InvalidSecurityValue directive value)"

definition proxy_protocol_value :: "string \<Rightarrow> ParseError + bool" where
  "proxy_protocol_value value =
     (if value = ''on'' \<or> value = ''true'' then Inr True
      else if value = ''off'' \<or> value = ''false'' then Inr False
      else Inl (InvalidSecurityValue ''proxy_protocol'' value))"

definition security_directive ::
  "string \<Rightarrow> string \<Rightarrow> security_locals \<Rightarrow> ParseError + security_locals" where
  "security_directive line directive l =
     (if directive = ''proxy_protocol'' then
        and_then (once_value line ''proxy_protocol'' (sl_proxy_protocol l) proxy_protocol_value) (\<lambda>v.
          Inr (l\<lparr>sl_proxy_protocol := Some v\<rparr>))
      else if directive = ''trusted_upstream'' then
        and_then (once_value line ''trusted_upstream'' (sl_trusted_upstream l) (\<lambda>value.
            ok_or (parse_ip_addr value) (InvalidSecurityValue ''trusted_upstream'' value))) (\<lambda>v.
          Inr (l\<lparr>sl_trusted_upstream := Some v\<rparr>))
      else if directive = ''timeout'' then
        and_then (once_value line ''timeout'' (sl_timeout_ms l) (security_number u64_max ''timeout'')) (\<lambda>v.
          Inr (l\<lparr>sl_timeout_ms := Some v\<rparr>))
      else if directive = ''max_tls_failures'' then
        and_then (once_value line ''max_tls_failures'' (sl_max_tls_failures l)
            (security_number usize_max ''max_tls_failures'')) (\<lambda>v.
          Inr (l\<lparr>sl_max_tls_failures := Some v\<rparr>))
      else if directive = ''ban_duration'' then
        and_then (once_value line ''ban_duration'' (sl_ban_duration_sec l)
            (security_number u64_max ''ban_duration'')) (\<lambda>v.
          Inr (l\<lparr>sl_ban_duration_sec := Some v\<rparr>))
      else if directive = ''rate_limit_rpm'' \<or> directive = ''rate_limit'' then
        and_then (once_value line directive (sl_rate_limit_rpm l)
            (security_number usize_max directive)) (\<lambda>v.
          Inr (l\<lparr>sl_rate_limit_rpm := Some v\<rparr>))
      else if directive = ''forward_auth'' then
        and_then (once_value line ''forward_auth'' (sl_forward_auth l) Inr) (\<lambda>v.
          Inr (l\<lparr>sl_forward_auth := Some v\<rparr>))
      else if directive = ''max_body_size'' then
        and_then (once_value line ''max_body_size'' (sl_max_body_size l)
            (\<lambda>value. parse_size_string value ''max_body_size'')) (\<lambda>v.
          Inr (l\<lparr>sl_max_body_size := Some v\<rparr>))
      else if directive = ''max_header_size'' then
        and_then (once_value line ''max_header_size'' (sl_max_header_size l)
            (\<lambda>value. parse_size_string value ''max_header_size'')) (\<lambda>v.
          Inr (l\<lparr>sl_max_header_size := Some v\<rparr>))
      else Inl (InvalidSecurityBlock line))"

definition security_finish :: "security_locals \<Rightarrow> ParseError + SecurityConfig" where
  "security_finish l =
     (let pp = unwrap_or (sl_proxy_protocol l) False
      in and_then (if pp then ok_or (sl_trusted_upstream l) (MissingSecurityDirective ''trusted_upstream'')
                   else Inr (unwrap_or (sl_trusted_upstream l) (V4 0 0 0 0))) (\<lambda>tu.
           Inr \<lparr>sec_proxy_protocol = pp, sec_trusted_upstream = tu,
                sec_timeout_ms = unwrap_or (sl_timeout_ms l) 200,
                sec_max_tls_failures = unwrap_or (sl_max_tls_failures l) 5,
                sec_ban_duration_sec = unwrap_or (sl_ban_duration_sec l) 3600,
                sec_rate_limit_rpm = unwrap_or (sl_rate_limit_rpm l) 300,
                sec_forward_auth = sl_forward_auth l,
                sec_max_body_size = unwrap_or (sl_max_body_size l) (10 * 1024 * 1024),
                sec_max_header_size = unwrap_or (sl_max_header_size l) (64 * 1024)\<rparr>))"

fun security_block_loop ::
  "security_locals \<Rightarrow> string list \<Rightarrow> ParseError + SecurityConfig \<times> string list" where
  "security_block_loop l [] = Inl UnterminatedSecurityBlock"
| "security_block_loop l (line # rest) =
     (if is_block_end line then and_then (security_finish l) (\<lambda>s. Inr (s, rest))
      else if ends_with line ''{'' then Inl (InvalidSecurityBlock line)
      else and_then (block_directive line) (\<lambda>directive.
           and_then (security_directive line directive l) (\<lambda>l'. security_block_loop l' rest)))"

definition parse_security_block :: "string list \<Rightarrow> ParseError + SecurityConfig \<times> string list" where
  "parse_security_block rest = security_block_loop security_locals_init rest"

section \<open>The cache block\<close>

definition cache_locals_init :: CacheConfig where
  "cache_locals_init =
     \<lparr>cc_enabled = True, cc_max_capacity_bytes = 64 * 1024 * 1024,
      cc_max_file_size_bytes = 2 * 1024 * 1024, cc_default_ttl_sec = 300\<rparr>"

text \<open>A plain number given to a directive in megabytes gets the unit \<open>M\<close>.\<close>

definition megabyte_value :: "string \<Rightarrow> string \<Rightarrow> string" where
  "megabyte_value directive value =
     (if ends_with directive ''_mb'' \<and> list_all is_ascii_digit value then value @ ''M'' else value)"

definition cache_directive :: "string \<Rightarrow> string \<Rightarrow> CacheConfig \<Rightarrow> ParseError + CacheConfig" where
  "cache_directive line directive l =
     (if directive = ''enabled'' \<or> directive = ''cache'' then
        and_then (parse_single_value_directive line directive) (\<lambda>value.
        and_then (ok_or (switch_value value) (InvalidSecurityValue directive value)) (\<lambda>b.
          Inr (l\<lparr>cc_enabled := b\<rparr>)))
      else if directive = ''max_capacity'' \<or> directive = ''max_capacity_mb'' then
        and_then (parse_single_value_directive line directive) (\<lambda>value.
        and_then (parse_size_string (megabyte_value directive value) directive) (\<lambda>n.
          Inr (l\<lparr>cc_max_capacity_bytes := n\<rparr>)))
      else if directive = ''max_file_size'' \<or> directive = ''max_file_size_mb'' then
        and_then (parse_single_value_directive line directive) (\<lambda>value.
        and_then (parse_size_string (megabyte_value directive value) directive) (\<lambda>n.
          Inr (l\<lparr>cc_max_file_size_bytes := n\<rparr>)))
      else if directive = ''default_ttl'' \<or> directive = ''default_ttl_sec'' \<or> directive = ''ttl'' then
        and_then (parse_single_value_directive line directive) (\<lambda>value.
        and_then (ok_or (parse_u64 value) (InvalidSecurityValue directive value)) (\<lambda>n.
          Inr (l\<lparr>cc_default_ttl_sec := n\<rparr>)))
      else Inl (InvalidSecurityBlock line))"

fun cache_block_loop ::
  "CacheConfig \<Rightarrow> string list \<Rightarrow> ParseError + CacheConfig \<times> string list" where
  "cache_block_loop l [] = Inl UnterminatedSecurityBlock"
| "cache_block_loop l (line # rest) =
     (if is_block_end line then Inr (l, rest)
      else if ends_with line ''{'' then Inl (InvalidSecurityBlock line)
      else and_then (block_directive line) (\<lambda>directive.
           and_then (cache_directive line directive l) (\<lambda>l'. cache_block_loop l' rest)))"

definition parse_cache_block :: "string list \<Rightarrow> ParseError + CacheConfig \<times> string list" where
  "parse_cache_block rest = cache_block_loop cache_locals_init rest"

section \<open>What the top level relies on: block parsers make progress\<close>

text \<open>
  The interface between the top-level loop and the block parsers: a block parser that succeeds
  has consumed the lines up to and including the first closing brace, and nothing else.
\<close>

locale block_parser =
  fixes parse_block :: "string list \<Rightarrow> ParseError + 'a \<times> string list"
  assumes block_consumed:
    "parse_block ls = Inr (x, rest) \<Longrightarrow>
     \<exists>body brace. ls = body @ brace # rest \<and> is_block_end brace \<and> (\<forall>l\<in>set body. \<not> is_block_end l)"
begin

lemma block_progress: "parse_block ls = Inr (x, rest) \<Longrightarrow> length rest < length ls"
  using block_consumed by fastforce

lemma block_rest_suffix: "parse_block ls = Inr (x, rest) \<Longrightarrow> suffix rest ls"
  by (metis append.assoc append_Cons append_Nil block_consumed suffix_def)

text \<open>Where the block ends does not depend on anything but the lines.\<close>

lemma block_rest_unique:
  "parse_block ls = Inr (x, rest) \<Longrightarrow> rest = tl (dropWhile (\<lambda>l. \<not> is_block_end l) ls)"
  using block_consumed [of ls x rest] by (force simp: dropWhile_append_stop)

end

text \<open>
  The three block loops have one shape: a closing brace finishes the block, a line that opens
  another block is refused, any other line is one directive. Each of them is a block parser, and
  an invariant of its directives holds of the locals the block is finished with.
\<close>

locale block_loop =
  fixes loop :: "'l \<Rightarrow> string list \<Rightarrow> ParseError + 'a \<times> string list"
    and directive_step :: "string \<Rightarrow> string \<Rightarrow> 'l \<Rightarrow> ParseError + 'l"
    and finish :: "'l \<Rightarrow> ParseError + 'a"
    and nested :: "string \<Rightarrow> ParseError"
    and unterminated :: ParseError
  assumes loop_Nil: "loop l [] = Inl unterminated"
    and loop_Cons: "loop l (line # rest) =
      (if is_block_end line then and_then (finish l) (\<lambda>x. Inr (x, rest))
       else if ends_with line ''{'' then Inl (nested line)
       else and_then (block_directive line) (\<lambda>directive.
            and_then (directive_step line directive l) (\<lambda>l'. loop l' rest)))"
begin

lemma loop_consumed:
  "loop l ls = Inr (x, rest) \<Longrightarrow>
   \<exists>body brace. ls = body @ brace # rest \<and> is_block_end brace \<and> (\<forall>l\<in>set body. \<not> is_block_end l)"
proof (induction ls arbitrary: l)
  case Nil
  then show ?case by (simp add: loop_Nil)
next
  case (Cons line ls)
  show ?case
  proof (cases "is_block_end line")
    case True
    then show ?thesis
      using Cons.prems by (intro exI [of _ "[]"] exI [of _ line]) (auto simp: loop_Cons)
  next
    case False
    then obtain l' where "loop l' ls = Inr (x, rest)"
      using Cons.prems by (auto simp: loop_Cons split: if_splits)
    from Cons.IH [OF this] obtain body brace where
      "ls = body @ brace # rest" "is_block_end brace" "\<forall>l\<in>set body. \<not> is_block_end l"
      by blast
    then show ?thesis using False by (intro exI [of _ "line # body"] exI [of _ brace]) auto
  qed
qed

lemma loop_invariant:
  assumes "loop l ls = Inr (x, rest)" and "I l"
    and "\<And>line directive l l'. line \<in> set ls \<Longrightarrow> block_directive line = Inr directive \<Longrightarrow> I l \<Longrightarrow>
      directive_step line directive l = Inr l' \<Longrightarrow> I l'"
  shows "\<exists>l'. I l' \<and> finish l' = Inr x"
  using assms
proof (induction ls arbitrary: l)
  case Nil
  then show ?case by (simp add: loop_Nil)
next
  case (Cons line ls)
  show ?case
  proof (cases "is_block_end line")
    case True
    then show ?thesis using Cons.prems(1,2) by (auto simp: loop_Cons)
  next
    case False
    then obtain directive l' where
      d: "block_directive line = Inr directive" "directive_step line directive l = Inr l'"
      and r: "loop l' ls = Inr (x, rest)"
      using Cons.prems(1) by (auto simp: loop_Cons split: if_splits)
    have "I l'" using Cons.prems(3) [OF _ d(1) Cons.prems(2) d(2)] by simp
    from Cons.IH [OF r this] show ?thesis using Cons.prems(3) by (meson list.set_intros(2))
  qed
qed

text \<open>A block with no closing brace is refused.\<close>

lemma loop_unterminated: "\<forall>line\<in>set ls. \<not> is_block_end line \<Longrightarrow> \<exists>e. loop l ls = Inl e"
proof (cases "loop l ls")
  case (Inr b)
  then obtain x rest where "loop l ls = Inr (x, rest)" by (cases b) auto
  from loop_consumed [OF this] obtain body brace where "ls = body @ brace # rest" "is_block_end brace"
    by blast
  moreover assume "\<forall>line\<in>set ls. \<not> is_block_end line"
  ultimately show ?thesis by simp
qed simp

end

sublocale block_loop \<subseteq> block: block_parser "loop l" for l
  by unfold_locales (rule loop_consumed)

interpretation route_block: block_loop
  "route_block_loop ep" route_directive "route_finish ep" InvalidRouteDirective "InvalidRouteDirective ep"
  for ep
  by unfold_locales simp_all

interpretation security_block: block_loop
  security_block_loop security_directive security_finish InvalidSecurityBlock UnterminatedSecurityBlock
  by unfold_locales simp_all

interpretation cache_block: block_loop
  cache_block_loop cache_directive Inr InvalidSecurityBlock UnterminatedSecurityBlock
  by unfold_locales simp_all

lemma parse_route_block_progress:
  "parse_route_block ep ls = Inr (x, rest) \<Longrightarrow> length rest < length ls"
  unfolding parse_route_block_def by (rule route_block.block.block_progress)

lemma parse_security_block_progress:
  "parse_security_block ls = Inr (x, rest) \<Longrightarrow> length rest < length ls"
  unfolding parse_security_block_def by (rule security_block.block.block_progress)

lemma parse_cache_block_progress:
  "parse_cache_block ls = Inr (x, rest) \<Longrightarrow> length rest < length ls"
  unfolding parse_cache_block_def by (rule cache_block.block.block_progress)

section \<open>The top level\<close>

record top_locals =
  tl_listen_port :: nat
  tl_listen_found :: bool
  tl_routes :: "Route list"
  tl_routes_found :: bool
  tl_request_endpoints :: "string set"
  tl_workers :: "nat option"
  tl_logfile :: "string option"
  tl_security :: "SecurityConfig option"
  tl_cache_config :: "CacheConfig option"
  tl_intercept_errors :: "bool option"

definition top_locals_init :: top_locals where
  "top_locals_init =
     \<lparr>tl_listen_port = 0, tl_listen_found = False, tl_routes = [], tl_routes_found = False,
      tl_request_endpoints = {}, tl_workers = None, tl_logfile = None, tl_security = None,
      tl_cache_config = None, tl_intercept_errors = None\<rparr>"

text \<open>
  The arms of the \<open>match directive\<close> of the top-level loop: the new locals and the lines after the
  directive or after its block.
\<close>

definition top_listen ::
  "string \<Rightarrow> string list \<Rightarrow> top_locals \<Rightarrow> ParseError + top_locals \<times> string list" where
  "top_listen line rest l =
     and_then (validate_semicolon line) (\<lambda>_.
     and_then (check_trailing_garbage line) (\<lambda>_.
       if tl_listen_found l then Inl TooManyListenDirectives
       else and_then (parse_listen_line line) (\<lambda>port.
         Inr (l\<lparr>tl_listen_port := port, tl_listen_found := True\<rparr>, rest))))"

definition top_logfile ::
  "string \<Rightarrow> string list \<Rightarrow> top_locals \<Rightarrow> ParseError + top_locals \<times> string list" where
  "top_logfile line rest l =
     and_then (validate_semicolon line) (\<lambda>_.
     and_then (check_trailing_garbage line) (\<lambda>_.
       if is_some (tl_logfile l) then Inl TooManyLogfileDirectives
       else and_then (parse_single_value_directive line ''logfile'') (\<lambda>value.
         Inr (l\<lparr>tl_logfile := Some value\<rparr>, rest))))"

definition top_intercept_errors ::
  "string \<Rightarrow> string list \<Rightarrow> top_locals \<Rightarrow> ParseError + top_locals \<times> string list" where
  "top_intercept_errors line rest l =
     and_then (validate_semicolon line) (\<lambda>_.
     and_then (check_trailing_garbage line) (\<lambda>_.
       if is_some (tl_intercept_errors l) then Inl TooManySecurityDirectives
       else and_then (parse_single_value_directive line ''intercept_errors'') (\<lambda>value.
            and_then (ok_or (switch_value value) (UnknownDirective line)) (\<lambda>enabled.
         Inr (l\<lparr>tl_intercept_errors := Some enabled\<rparr>, rest)))))"

definition top_route ::
  "string \<Rightarrow> string list \<Rightarrow> top_locals \<Rightarrow> ParseError + top_locals \<times> string list" where
  "top_route line rest l =
     (if ends_with line ''{'' then
        and_then (parse_route_block_header line) (\<lambda>endpoint.
          if endpoint \<in> tl_request_endpoints l then Inl (DuplicateRequestEndpoint endpoint)
          else and_then (parse_route_block endpoint rest) (\<lambda>(route, rest').
            Inr (l\<lparr>tl_request_endpoints := insert (rt_request_endpoint route) (tl_request_endpoints l),
                   tl_routes := tl_routes l @ [route], tl_routes_found := True\<rparr>, rest')))
      else Inl (InvalidRouteDirective line))"

definition top_security ::
  "string \<Rightarrow> string list \<Rightarrow> top_locals \<Rightarrow> ParseError + top_locals \<times> string list" where
  "top_security line rest l =
     (if ends_with line ''{'' then
        (if is_some (tl_security l) then Inl TooManySecurityDirectives
         else and_then (parse_security_block rest) (\<lambda>(sec, rest').
           Inr (l\<lparr>tl_security := Some sec\<rparr>, rest')))
      else Inl (InvalidSecurityBlock line))"

definition top_workers ::
  "string \<Rightarrow> string list \<Rightarrow> top_locals \<Rightarrow> ParseError + top_locals \<times> string list" where
  "top_workers line rest l =
     and_then (validate_semicolon line) (\<lambda>_.
     and_then (check_trailing_garbage line) (\<lambda>_.
       if is_some (tl_workers l) then Inl TooManyWorkersDirectives
       else and_then (parse_single_value_directive line ''workers'') (\<lambda>value.
            and_then (ok_or (parse_usize value) (InvalidWorkersValue value)) (\<lambda>n.
         if n = 0 then Inl (InvalidWorkersValue value)
         else Inr (l\<lparr>tl_workers := Some n\<rparr>, rest)))))"

definition top_cache ::
  "string \<Rightarrow> string list \<Rightarrow> top_locals \<Rightarrow> ParseError + top_locals \<times> string list" where
  "top_cache line rest l =
     (if ends_with line ''{'' then
        (if is_some (tl_cache_config l) then Inl TooManySecurityDirectives
         else and_then (parse_cache_block rest) (\<lambda>(c, rest').
           Inr (l\<lparr>tl_cache_config := Some c\<rparr>, rest')))
      else Inl (InvalidSecurityBlock line))"

lemmas top_arm_defs = top_listen_def top_logfile_def top_intercept_errors_def top_route_def
  top_security_def top_workers_def top_cache_def

text \<open>
  The \<open>match directive\<close>. Its last arm is the sources' \<open>unreachable!()\<close>, which the test for known
  directives excludes.
\<close>

definition top_directive ::
  "string \<Rightarrow> string \<Rightarrow> string list \<Rightarrow> top_locals \<Rightarrow> ParseError + top_locals \<times> string list" where
  "top_directive line directive =
     (if directive = ''listen'' then top_listen line
      else if directive = ''logfile'' then top_logfile line
      else if directive = ''intercept_errors'' then top_intercept_errors line
      else if directive = ''route'' then top_route line
      else if directive = ''security'' then top_security line
      else if directive = ''workers'' then top_workers line
      else if directive = ''cache'' then top_cache line
      else (\<lambda>rest l. Inl (UnknownDirective directive)))"

text \<open>What holds of the result of every arm holds of the result of the \<open>match\<close>.\<close>

lemma top_directive_arms:
  assumes "top_directive line directive rest l = Inr (l', rest')"
    and "\<And>arm. arm \<in> {top_listen, top_logfile, top_intercept_errors, top_route, top_security,
                     top_workers, top_cache} \<Longrightarrow> arm line rest l = Inr (l', rest') \<Longrightarrow> P"
  shows P
  using assms(1) unfolding top_directive_def by (auto split: if_splits intro: assms(2))

lemma top_directive_progress:
  "top_directive line directive rest l = Inr (l', rest') \<Longrightarrow> length rest' \<le> length rest"
  by (erule top_directive_arms)
     (auto simp: top_arm_defs split: if_splits
       dest!: parse_route_block_progress parse_security_block_progress parse_cache_block_progress)

text \<open>One iteration of the top-level loop.\<close>

definition top_line ::
  "string \<Rightarrow> string list \<Rightarrow> top_locals \<Rightarrow> ParseError + top_locals \<times> string list" where
  "top_line line rest l =
     (if is_block_end line then Inl UnexpectedBlockTerminator
      else and_then (get_directive line) (\<lambda>directive.
           and_then (validate_directive_case directive) (\<lambda>_.
           and_then (validate_known_top_level_directive directive) (\<lambda>_.
             top_directive line directive rest l))))"

lemma top_line_progress:
  "top_line line rest l = Inr (l', rest') \<Longrightarrow> length rest' \<le> length rest"
  by (auto simp: top_line_def split: if_splits dest: top_directive_progress)

function top_loop :: "top_locals \<Rightarrow> string list \<Rightarrow> ParseError + top_locals" where
  "top_loop l [] = Inr l"
| "top_loop l (line # rest) = and_then (top_line line rest l) (\<lambda>(l', rest'). top_loop l' rest')"
  by pat_completeness auto
termination
  by (relation "measure (\<lambda>(l, ls). length ls)") (auto dest: top_line_progress)

text \<open>The checks after the loop; \<open>available_parallelism\<close> is \<open>None\<close> where the query fails.\<close>

definition finish_config :: "nat option \<Rightarrow> top_locals \<Rightarrow> ParseError + Config" where
  "finish_config available_parallelism l =
     (if \<not> tl_listen_found l then Inl NoListenDirective
      else if \<not> tl_routes_found l then Inl NoRouteDirective
      else if list_ex rt_auth_required (tl_routes l) \<and>
              \<not> is_some (Option.bind (tl_security l) sec_forward_auth)
      then Inl (MissingSecurityDirective ''forward_auth'')
      else Inr \<lparr>cfg_listen_port = tl_listen_port l, cfg_routes = tl_routes l,
                cfg_workers = unwrap_or (tl_workers l) (unwrap_or available_parallelism 1),
                cfg_logfile = tl_logfile l, cfg_security = tl_security l,
                cfg_cache = tl_cache_config l, cfg_intercept_errors = tl_intercept_errors l\<rparr>)"

definition config_lines :: "string \<Rightarrow> string list" where
  "config_lines input =
     filter (\<lambda>line. line \<noteq> [] \<and> \<not> starts_with line ''#'') (map trim (lines (strip_comments input)))"

definition parse_proxy_config :: "nat option \<Rightarrow> string \<Rightarrow> ParseError + Config" where
  "parse_proxy_config available_parallelism input =
     and_then (top_loop top_locals_init (config_lines input)) (finish_config available_parallelism)"

text \<open>What the parser keeps of a line of the file.\<close>

definition kept_text :: "string \<Rightarrow> string list" where
  "kept_text l = (let t = trim (strip_flag True l) in if t = [] \<or> starts_with t ''#'' then [] else [t])"

lemma config_lines_Cons:
  assumes "single_line l"
  shows "config_lines (l @ newline # s) = kept_text l @ config_lines s"
  using assms newline_stripped [of l True]
  by (simp add: config_lines_def strip_comments_flag strip_flag_append_line lines_Cons trim_strip_cr kept_text_def single_line_def Let_def)

lemma config_lines_last:
  assumes "single_line l"
  shows "config_lines l = kept_text l"
proof -
  have "split_char (strip_flag True l) newline = [strip_flag True l]"
    using newline_stripped [of l True] assms split_on_no [of "strip_flag True l" "\<lambda>d. d = newline"]
    by (auto simp: split_char_def single_line_def)
  then show ?thesis by (simp add: config_lines_def strip_comments_flag lines_def kept_text_def Let_def)
qed

text \<open>The text of a raw string literal or of a file, from its lines.\<close>

definition join_lines :: "string list \<Rightarrow> string" where
  "join_lines ls = (case ls of [] \<Rightarrow> [] | l # ls \<Rightarrow> l @ concat (map (\<lambda>k. newline # k) ls))"

lemma config_lines_join:
  assumes "list_all single_line ls"
  shows "config_lines (join_lines ls) = concat (map kept_text ls)"
proof (cases ls)
  case (Cons l ks)
  have "list_all single_line (l # ks) \<Longrightarrow> config_lines (l @ concat (map (\<lambda>k. newline # k) ks)) = concat (map kept_text (l # ks))"
    by (induction ks arbitrary: l) (simp_all add: config_lines_last config_lines_Cons)
  then show ?thesis using assms Cons by (simp add: join_lines_def)
qed (simp add: join_lines_def config_lines_def strip_comments_def lines_def split_char_def)

text \<open>The definitions to unfold when a concrete configuration is parsed, after its lines.\<close>

lemmas parser_line_defs =
  is_valid_url_def parse_listen_line_def validate_semicolon_def validate_directive_case_def
  get_directive_def validate_known_top_level_directive_def parse_single_value_directive_def
  check_trailing_garbage_def is_block_end_def block_directive_def switch_value_def
  parse_size_string_def usize_checked_mul_def parse_route_block_header_def

lemmas parser_block_defs =
  route_directive_def route_finish_def route_locals_init_def parse_route_block_def
  once_value_def security_number_def proxy_protocol_value_def security_directive_def
  security_finish_def security_locals_init_def parse_security_block_def
  cache_locals_init_def megabyte_value_def cache_directive_def parse_cache_block_def

lemmas parser_top_defs =
  top_arm_defs top_directive_def top_line_def top_locals_init_def finish_config_def

lemmas parser_eval = str_eval parser_line_defs parser_block_defs parser_top_defs

lemmas config_lines_eval = config_lines_def strip_comments_flag strip_flag_simps str_eval

end
