(* ===== verification/Config_Wf.thy ===== *)
theory Config_Wf
  imports Config_Parser
begin

text \<open>
  The invariant of parsed configurations: what \<open>parse_proxy_config\<close> promises to the rest of the
  program of every configuration it accepts, and that each of its steps keeps it.
\<close>

section \<open>Well-formed configurations\<close>

definition route_wf :: "Route \<Rightarrow> bool" where
  "route_wf r \<longleftrightarrow>
     is_valid_url (rt_request_endpoint r) \<and> is_valid_url (rt_forward_endpoint r) \<and>
     (if starts_with (rt_request_endpoint r) ''https://''
      then rt_cert_path r \<noteq> None \<and> rt_key_path r \<noteq> None
      else rt_cert_path r = None \<and> rt_key_path r = None)"

definition security_wf :: "SecurityConfig \<Rightarrow> bool" where
  "security_wf s \<longleftrightarrow>
     sec_timeout_ms s \<le> u64_max \<and> sec_max_tls_failures s \<le> usize_max \<and>
     sec_ban_duration_sec s \<le> u64_max \<and> sec_rate_limit_rpm s \<le> usize_max \<and>
     sec_max_body_size s \<le> usize_max \<and> sec_max_header_size s \<le> usize_max"

definition cache_wf :: "CacheConfig \<Rightarrow> bool" where
  "cache_wf c \<longleftrightarrow>
     cc_max_capacity_bytes c \<le> usize_max \<and> cc_max_file_size_bytes c \<le> usize_max \<and>
     cc_default_ttl_sec c \<le> u64_max"

definition config_wf :: "Config \<Rightarrow> bool" where
  "config_wf c \<longleftrightarrow>
     cfg_listen_port c \<le> u16_max \<and>
     1 \<le> cfg_workers c \<and> cfg_workers c \<le> usize_max \<and>
     cfg_routes c \<noteq> [] \<and> list_all route_wf (cfg_routes c) \<and>
     distinct (map rt_request_endpoint (cfg_routes c)) \<and>
     pred_option security_wf (cfg_security c) \<and> pred_option cache_wf (cfg_cache c) \<and>
     (list_ex rt_auth_required (cfg_routes c) \<longrightarrow>
        (\<exists>s url. cfg_security c = Some s \<and> sec_forward_auth s = Some url))"

section \<open>Numbers and sizes\<close>

lemma parse_size_string_le: "parse_size_string s d = Inr n \<Longrightarrow> n \<le> usize_max"
  by (auto simp: parse_size_string_def Let_def usize_checked_mul_Some split: if_splits)

lemma security_number_le: "security_number m d v = Inr n \<Longrightarrow> n \<le> m"
  by (auto simp: security_number_def dest: parse_uint_le)

lemma once_value_Inr: "once_value line d old p = Inr v \<Longrightarrow> \<exists>x. p x = Inr v"
  by (auto simp: once_value_def split: if_splits)

lemma once_value_number: "once_value line d old (security_number m e) = Inr n \<Longrightarrow> n \<le> m"
  by (auto dest!: once_value_Inr security_number_le)

lemma once_value_size: "once_value line d old (\<lambda>v. parse_size_string v e) = Inr n \<Longrightarrow> n \<le> usize_max"
  by (auto dest!: once_value_Inr parse_size_string_le)

section \<open>Every parsed configuration is well-formed\<close>

lemma route_directive_url:
  "pred_option is_valid_url (rl_forward_endpoint l) \<Longrightarrow> route_directive line d l = Inr l' \<Longrightarrow>
   pred_option is_valid_url (rl_forward_endpoint l')"
  by (auto simp: route_directive_def split: if_splits)

lemma route_finish_wf:
  "pred_option is_valid_url (rl_forward_endpoint l) \<Longrightarrow> is_valid_url ep \<Longrightarrow>
   route_finish ep l = Inr r \<Longrightarrow> route_wf r \<and> rt_request_endpoint r = ep"
  by (auto simp: route_finish_def route_wf_def is_some_iff split: if_splits)

lemma parse_route_block_wf:
  assumes "parse_route_block ep ls = Inr (r, rest)" and "is_valid_url ep"
  shows "route_wf r \<and> rt_request_endpoint r = ep"
proof -
  have "\<exists>l'. pred_option is_valid_url (rl_forward_endpoint l') \<and> route_finish ep l' = Inr r"
    by (rule route_block.loop_invariant [OF assms(1) [unfolded parse_route_block_def]])
       (simp_all add: route_locals_init_def route_directive_url)
  then show ?thesis using assms(2) by (auto dest: route_finish_wf)
qed

definition security_locals_ok :: "security_locals \<Rightarrow> bool" where
  "security_locals_ok l \<longleftrightarrow>
     pred_option (\<lambda>n. n \<le> u64_max) (sl_timeout_ms l) \<and>
     pred_option (\<lambda>n. n \<le> usize_max) (sl_max_tls_failures l) \<and>
     pred_option (\<lambda>n. n \<le> u64_max) (sl_ban_duration_sec l) \<and>
     pred_option (\<lambda>n. n \<le> usize_max) (sl_rate_limit_rpm l) \<and>
     pred_option (\<lambda>n. n \<le> usize_max) (sl_max_body_size l) \<and>
     pred_option (\<lambda>n. n \<le> usize_max) (sl_max_header_size l)"

lemma security_directive_known:
  "security_directive line d l = Inr l' \<Longrightarrow>
   d = ''proxy_protocol'' \<or> d = ''trusted_upstream'' \<or> d = ''timeout'' \<or> d = ''max_tls_failures'' \<or>
   d = ''ban_duration'' \<or> d = ''rate_limit_rpm'' \<or> d = ''rate_limit'' \<or> d = ''forward_auth'' \<or>
   d = ''max_body_size'' \<or> d = ''max_header_size''"
  by (rule contrapos_pp, assumption) (simp add: security_directive_def)

lemma security_directive_ok:
  assumes "security_locals_ok l" and "security_directive line d l = Inr l'"
  shows "security_locals_ok l'"
  using security_directive_known [OF assms(2)] assms
  by (elim disjE)
     (auto simp: security_directive_def security_locals_ok_def
       dest!: once_value_number once_value_size)

lemma unwrap_or_pred: "pred_option P x \<Longrightarrow> P d \<Longrightarrow> P (unwrap_or x d)"
  by (cases x) simp_all

lemma security_finish_wf:
  assumes "security_locals_ok l" and "security_finish l = Inr s"
  shows "security_wf s"
proof -
  note le = unwrap_or_pred [where P = "\<lambda>n. n \<le> u64_max"]
  show ?thesis
    using assms unfolding security_finish_def security_wf_def security_locals_ok_def Let_def
    by (elim and_then_InrE conjE) (clarsimp simp: le)
qed

lemma parse_security_block_wf:
  assumes "parse_security_block ls = Inr (s, rest)"
  shows "security_wf s"
proof -
  have "\<exists>l'. security_locals_ok l' \<and> security_finish l' = Inr s"
    by (rule security_block.loop_invariant [OF assms [unfolded parse_security_block_def]])
       (simp add: security_locals_init_def security_locals_ok_def, rule security_directive_ok)
  then show ?thesis by (auto dest: security_finish_wf)
qed

lemma cache_directive_wf:
  assumes "cache_wf l" and d: "cache_directive line d l = Inr l'"
  shows "cache_wf l'"
proof -
  have "d \<in> {''enabled'', ''cache'', ''max_capacity'', ''max_capacity_mb'', ''max_file_size'',
      ''max_file_size_mb'', ''default_ttl'', ''default_ttl_sec'', ''ttl''}"
    using d by (rule contrapos_pp) (simp add: cache_directive_def)
  then show ?thesis
    using assms unfolding insert_iff empty_iff
    by (elim disjE FalseE)
       (auto simp: cache_directive_def cache_wf_def dest!: parse_size_string_le parse_uint_le)
qed

lemma parse_cache_block_wf:
  assumes "parse_cache_block ls = Inr (c, rest)"
  shows "cache_wf c"
proof -
  have "\<exists>l'. cache_wf l' \<and> Inr l' = (Inr c :: ParseError + CacheConfig)"
    by (rule cache_block.loop_invariant [OF assms [unfolded parse_cache_block_def]])
       (simp add: cache_locals_init_def cache_wf_def, rule cache_directive_wf)
  then show ?thesis by auto
qed

definition top_locals_ok :: "top_locals \<Rightarrow> bool" where
  "top_locals_ok l \<longleftrightarrow>
     tl_listen_port l \<le> u16_max \<and>
     pred_option (\<lambda>n. 1 \<le> n \<and> n \<le> usize_max) (tl_workers l) \<and>
     (tl_routes_found l \<longrightarrow> tl_routes l \<noteq> []) \<and>
     list_all route_wf (tl_routes l) \<and>
     distinct (map rt_request_endpoint (tl_routes l)) \<and>
     tl_request_endpoints l = rt_request_endpoint ` set (tl_routes l) \<and>
     pred_option security_wf (tl_security l) \<and> pred_option cache_wf (tl_cache_config l)"

lemma parse_listen_line_le: "parse_listen_line line = Inr p \<Longrightarrow> p \<le> u16_max"
  by (auto simp: parse_listen_line_def dest: parse_uint_le split: list.splits)

lemma parse_route_block_header_url: "parse_route_block_header line = Inr ep \<Longrightarrow> is_valid_url ep"
  by (auto simp: parse_route_block_header_def split: list.splits if_splits)

lemma top_listen_ok: "top_listen line rest l = Inr (l', rest') \<Longrightarrow> top_locals_ok l \<Longrightarrow> top_locals_ok l'"
  by (auto simp: top_listen_def top_locals_ok_def dest: parse_listen_line_le split: if_splits)

lemma top_logfile_ok: "top_logfile line rest l = Inr (l', rest') \<Longrightarrow> top_locals_ok l \<Longrightarrow> top_locals_ok l'"
  by (auto simp: top_logfile_def top_locals_ok_def split: if_splits)

lemma top_intercept_errors_ok:
  "top_intercept_errors line rest l = Inr (l', rest') \<Longrightarrow> top_locals_ok l \<Longrightarrow> top_locals_ok l'"
  by (auto simp: top_intercept_errors_def top_locals_ok_def split: if_splits)

lemma top_route_ok: "top_route line rest l = Inr (l', rest') \<Longrightarrow> top_locals_ok l \<Longrightarrow> top_locals_ok l'"
  by (auto simp: top_route_def top_locals_ok_def split: if_splits
      dest!: parse_route_block_wf [OF _ parse_route_block_header_url])

lemma top_security_ok: "top_security line rest l = Inr (l', rest') \<Longrightarrow> top_locals_ok l \<Longrightarrow> top_locals_ok l'"
  by (auto simp: top_security_def top_locals_ok_def split: if_splits dest: parse_security_block_wf)

lemma top_workers_ok: "top_workers line rest l = Inr (l', rest') \<Longrightarrow> top_locals_ok l \<Longrightarrow> top_locals_ok l'"
  by (auto simp: top_workers_def top_locals_ok_def split: if_splits dest!: parse_uint_le)

lemma top_cache_ok: "top_cache line rest l = Inr (l', rest') \<Longrightarrow> top_locals_ok l \<Longrightarrow> top_locals_ok l'"
  by (auto simp: top_cache_def top_locals_ok_def split: if_splits dest: parse_cache_block_wf)

lemma top_directive_ok:
  "top_locals_ok l \<Longrightarrow> top_directive line d rest l = Inr (l', rest') \<Longrightarrow> top_locals_ok l'"
  by (erule top_directive_arms)
     (auto intro: top_listen_ok top_logfile_ok top_intercept_errors_ok top_route_ok top_security_ok
       top_workers_ok top_cache_ok)

lemma top_line_ok: "top_locals_ok l \<Longrightarrow> top_line line rest l = Inr (l', rest') \<Longrightarrow> top_locals_ok l'"
  unfolding top_line_def
  by (split if_split_asm, simp, elim conjE and_then_InrE) (rule top_directive_ok)

lemma top_loop_ok: "top_locals_ok l \<Longrightarrow> top_loop l ls = Inr l' \<Longrightarrow> top_locals_ok l'"
proof (induction l ls rule: top_loop.induct)
  case (1 l)
  then show ?case by simp
next
  case (2 l line rest)
  from 2(3) obtain l1 rest1 where s: "top_line line rest l = Inr (l1, rest1)"
    and r: "top_loop l1 rest1 = Inr l'"
    by auto
  from r show ?case using 2(1) [OF s] top_line_ok [OF 2(2) s] by simp
qed

lemma finish_config_wf:
  "top_locals_ok l \<Longrightarrow> pred_option (\<lambda>n. 1 \<le> n \<and> n \<le> usize_max) avail \<Longrightarrow>
   finish_config avail l = Inr c \<Longrightarrow> config_wf c"
  by (auto simp: finish_config_def top_locals_ok_def config_wf_def unwrap_or_def is_some_iff
      bind_eq_Some_conv split: if_splits option.splits)

lemma parsed_config_wf:
  assumes "parse_proxy_config avail input = Inr c"
    and "pred_option (\<lambda>n. 1 \<le> n \<and> n \<le> usize_max) avail"
  shows "config_wf c"
proof -
  from assms(1) obtain l where l: "top_loop top_locals_init (config_lines input) = Inr l"
    and c: "finish_config avail l = Inr c"
    unfolding parse_proxy_config_def by (rule and_then_InrE)
  have "top_locals_ok top_locals_init" by (simp add: top_locals_ok_def top_locals_init_def)
  from finish_config_wf [OF top_loop_ok [OF this l] assms(2) c] show ?thesis .
qed

text \<open>
  C6: every configuration the parser accepts is well-formed: the port fits \<open>u16\<close>, there is at least
  one worker and one route, the request endpoints are pairwise different, both endpoints of a
  route look like URLs, an \<open>https://\<close> route has a certificate and a key and any other route has
  neither, all sizes and times are in the range of their Rust types, and a route that demands
  authentication comes with a \<open>forward_auth\<close> service. The available parallelism, if known, is a
  positive \<open>usize\<close>.
\<close>

theorem parse_proxy_config_wf:
  assumes "parse_proxy_config avail input = Inr c"
    and "pred_option (\<lambda>n. 1 \<le> n \<and> n \<le> usize_max) avail"
  shows "config_wf c"
  by (rule parsed_config_wf [OF assms])

text \<open>A small configuration with one encrypted route, and what it parses to.\<close>

definition example_text :: string where
  "example_text =
     ''listen 8443;'' @ [newline] @ ''// one route'' @ [newline] @
     ''route https://a.b {'' @ [newline] @ ''upstream h:80;'' @ [newline] @
     ''cert /c;'' @ [newline] @ ''key /k;'' @ [newline] @ ''}'' @ [newline]"

definition example_route :: Route where
  "example_route =
     \<lparr>rt_request_endpoint = ''https://a.b'', rt_forward_endpoint = ''h:80'', rt_auth_required = False,
      rt_cert_path = Some ''/c'', rt_key_path = Some ''/k'', rt_cache = None,
      rt_intercept_errors = None\<rparr>"

definition example_cfg :: Config where
  "example_cfg =
     \<lparr>cfg_listen_port = 8443, cfg_routes = [example_route], cfg_workers = 4, cfg_logfile = None,
      cfg_security = None, cfg_cache = None, cfg_intercept_errors = None\<rparr>"

lemma example_lines:
  "config_lines example_text =
     [''listen 8443;'', ''route https://a.b {'', ''upstream h:80;'', ''cert /c;'', ''key /k;'', ''}'']"
  by (simp add: example_text_def config_lines_eval)

lemma example_parses: "parse_proxy_config (Some 4) example_text = Inr example_cfg"
  unfolding parse_proxy_config_def example_lines example_cfg_def example_route_def
  by (simp add: parser_eval)

theorem parse_proxy_config_wf_witness: "config_wf example_cfg"
  using parse_proxy_config_wf [OF example_parses] by simp

section \<open>The security block\<close>

definition pp_locals_ok :: "string list \<Rightarrow> security_locals \<Rightarrow> bool" where
  "pp_locals_ok ls l \<longleftrightarrow>
     (\<forall>ip. sl_trusted_upstream l = Some ip \<longrightarrow>
        (\<exists>line\<in>set ls. get_directive line = Inr ''trusted_upstream'' \<and>
           (\<exists>v. parse_single_value_directive line ''trusted_upstream'' = Inr v \<and>
                parse_ip_addr v = Some ip)))"

lemma security_directive_trusted:
  assumes "security_directive line d l = Inr l'"
  shows "sl_trusted_upstream l' = sl_trusted_upstream l \<or>
    d = ''trusted_upstream'' \<and>
    (\<exists>v ip. parse_single_value_directive line ''trusted_upstream'' = Inr v \<and>
      parse_ip_addr v = Some ip \<and> sl_trusted_upstream l' = Some ip)"
  using security_directive_known [OF assms] assms
  by (elim disjE) (auto simp: security_directive_def once_value_def split: if_splits)

lemma security_directive_pp:
  assumes "line \<in> set ls" and "block_directive line = Inr d" and "pp_locals_ok ls l"
    and "security_directive line d l = Inr l'"
  shows "pp_locals_ok ls l'"
proof -
  have "get_directive line = Inr d" using assms(2) by (auto simp: block_directive_def)
  with security_directive_trusted [OF assms(4)] assms(1,3) show ?thesis
    by (auto simp: pp_locals_ok_def)
qed

text \<open>
  A security block that turns the PROXY protocol on is accepted only if one of its lines is a
  \<open>trusted_upstream\<close> directive, and the trusted address of the configuration is the one written
  there: the default address never takes part in the decision which peers may send a header.
\<close>

lemma parse_security_block_trusted:
  assumes "parse_security_block ls = Inr (s, rest)" and "sec_proxy_protocol s"
  shows "\<exists>line\<in>set ls. get_directive line = Inr ''trusted_upstream'' \<and>
    (\<exists>v. parse_single_value_directive line ''trusted_upstream'' = Inr v \<and>
         parse_ip_addr v = Some (sec_trusted_upstream s))"
proof -
  have "\<exists>l'. pp_locals_ok ls l' \<and> security_finish l' = Inr s"
    by (rule security_block.loop_invariant [OF assms(1) [unfolded parse_security_block_def]])
       (simp add: security_locals_init_def pp_locals_ok_def, rule security_directive_pp)
  then obtain l' where "pp_locals_ok ls l'" "security_finish l' = Inr s" by blast
  moreover from this assms(2) have "sl_trusted_upstream l' = Some (sec_trusted_upstream s)"
    by (auto simp: security_finish_def Let_def split: if_splits)
  ultimately show ?thesis by (simp add: pp_locals_ok_def)
qed

definition example_security :: SecurityConfig where
  "example_security =
     \<lparr>sec_proxy_protocol = True, sec_trusted_upstream = V4 10 0 0 1, sec_timeout_ms = 200,
      sec_max_tls_failures = 5, sec_ban_duration_sec = 3600, sec_rate_limit_rpm = 300,
      sec_forward_auth = None, sec_max_body_size = 10485760, sec_max_header_size = 65536\<rparr>"

end
