(* ===== verification/Config_Print.thy ===== *)
theory Config_Print
  imports Config_Wf
begin

text \<open>
  A printer for configurations, written in the language of \<open>docs/configuration.md\<close>, and the proof
  that the parser reads back what it prints: \<open>parse_proxy_config\<close> accepts every well-formed
  configuration whose values the language can express.
\<close>

section \<open>Printing a configuration\<close>

definition directive_line :: "string \<Rightarrow> string \<Rightarrow> string" where
  "directive_line d v = d @ '' '' @ v @ '';''"

definition show_switch :: "bool \<Rightarrow> string" where
  "show_switch b = (if b then ''on'' else ''off'')"

fun optional_line :: "string \<Rightarrow> string option \<Rightarrow> string list" where
  "optional_line d None = []"
| "optional_line d (Some v) = [directive_line d v]"

definition route_body :: "Route \<Rightarrow> string list" where
  "route_body r =
     [directive_line ''upstream'' (rt_forward_endpoint r),
      directive_line ''auth'' (show_switch (rt_auth_required r))] @
     optional_line ''cert'' (rt_cert_path r) @ optional_line ''key'' (rt_key_path r) @
     optional_line ''cache'' (map_option show_switch (rt_cache r)) @
     optional_line ''intercept_errors'' (map_option show_switch (rt_intercept_errors r)) @ [''}'']"

definition route_lines :: "Route \<Rightarrow> string list" where
  "route_lines r = (''route '' @ rt_request_endpoint r @ '' {'') # route_body r"

definition security_body :: "SecurityConfig \<Rightarrow> string list" where
  "security_body s =
     [directive_line ''proxy_protocol'' (show_switch (sec_proxy_protocol s)),
      directive_line ''trusted_upstream'' (ip_to_string (sec_trusted_upstream s)),
      directive_line ''timeout'' (show_nat (sec_timeout_ms s)),
      directive_line ''max_tls_failures'' (show_nat (sec_max_tls_failures s)),
      directive_line ''ban_duration'' (show_nat (sec_ban_duration_sec s)),
      directive_line ''rate_limit'' (show_nat (sec_rate_limit_rpm s))] @
     optional_line ''forward_auth'' (sec_forward_auth s) @
     [directive_line ''max_body_size'' (show_nat (sec_max_body_size s)),
      directive_line ''max_header_size'' (show_nat (sec_max_header_size s)), ''}'']"

definition cache_body :: "CacheConfig \<Rightarrow> string list" where
  "cache_body c =
     [directive_line ''enabled'' (show_switch (cc_enabled c)),
      directive_line ''max_capacity'' (show_nat (cc_max_capacity_bytes c)),
      directive_line ''max_file_size'' (show_nat (cc_max_file_size_bytes c)),
      directive_line ''ttl'' (show_nat (cc_default_ttl_sec c)), ''}'']"

definition printed_lines :: "Config \<Rightarrow> string list" where
  "printed_lines c =
     [directive_line ''listen'' (show_nat (cfg_listen_port c)),
      directive_line ''workers'' (show_nat (cfg_workers c))] @
     optional_line ''logfile'' (cfg_logfile c) @
     optional_line ''intercept_errors'' (map_option show_switch (cfg_intercept_errors c)) @
     (case cfg_security c of None \<Rightarrow> [] | Some s \<Rightarrow> ''security {'' # security_body s) @
     (case cfg_cache c of None \<Rightarrow> [] | Some k \<Rightarrow> ''cache {'' # cache_body k) @
     concat (map route_lines (cfg_routes c))"

definition print_config :: "Config \<Rightarrow> string" where
  "print_config c = concat (map (\<lambda>l. l @ [newline]) (printed_lines c))"

section \<open>Values that can be written\<close>

text \<open>
  The configuration language has no quoting: a value is one word, without a semicolon, and does
  not start like a comment.
\<close>

definition plain :: "string \<Rightarrow> bool" where
  "plain v \<longleftrightarrow>
     v \<noteq> [] \<and> list_all (\<lambda>c. \<not> is_whitespace c \<and> c \<noteq> CHR '';'') v \<and>
     \<not> starts_with v ''//'' \<and> \<not> starts_with v ''/*''"

definition keyword :: "string \<Rightarrow> bool" where
  "keyword d \<longleftrightarrow>
     d \<noteq> [] \<and> list_all (\<lambda>c. \<not> is_whitespace c \<and> c \<notin> {CHR ''}'', CHR ''#'', CHR ''/''}) d \<and> to_lowercase d = d"

lemma plain_switch [simp]: "plain (show_switch b)"
  by (simp add: plain_def show_switch_def is_whitespace_def)

lemma digits_plain:
  assumes "list_all is_ascii_digit v" and "v \<noteq> []"
  shows "plain v"
proof -
  have "\<not> is_ascii_digit CHR ''/''" "\<not> is_ascii_digit CHR '';''" by (simp_all add: is_ascii_digit_def)
  with assms show ?thesis
    by (cases v) (auto simp: plain_def list_all_iff digit_not_whitespace)
qed

lemma plain_show_nat [simp]: "plain (show_nat n)"
  by (rule digits_plain) (simp_all add: show_nat_digits)

lemma plain_words: "plain v \<Longrightarrow> v \<noteq> [] \<and> (\<forall>c\<in>set v. \<not> is_whitespace c)"
  by (auto simp: plain_def list_all_iff)

lemma whitespace_space [simp]: "is_whitespace CHR '' ''" "\<not> is_whitespace CHR '';''" "\<not> is_whitespace CHR ''{''"
  by (simp_all add: is_whitespace_def)

lemma keyword_words: "keyword d \<Longrightarrow> d \<noteq> [] \<and> (\<forall>c\<in>set d. \<not> is_whitespace c)"
  by (auto simp: keyword_def list_all_iff)

lemma keyword_hd: "keyword d \<Longrightarrow> \<exists>c d'. d = c # d' \<and> \<not> is_whitespace c \<and> c \<noteq> CHR ''}'' \<and> c \<noteq> CHR ''#''"
  by (cases d) (auto simp: keyword_def)

section \<open>One directive line\<close>

lemma trim_directive_line: "keyword d \<Longrightarrow> trim (directive_line d v) = directive_line d v"
  by (rule trim_id) (auto simp: directive_line_def dest!: keyword_hd)

lemma split_directive_line:
  "keyword d \<Longrightarrow> plain v \<Longrightarrow> split_whitespace (directive_line d v) = [d, v @ '';'']"
  using keyword_words [of d] plain_words [of v]
  by (auto simp: directive_line_def split_whitespace_word split_whitespace_last)

lemma directive_line_value:
  assumes "keyword d" and "plain v"
  shows "split_whitespace (trim (trim_end_matches (directive_line d v) CHR '';'')) = [d, v]"
proof -
  note w = keyword_words [OF assms(1)] plain_words [OF assms(2)]
  have v: "v \<noteq> []" "last v \<noteq> CHR '';''" "\<not> is_whitespace (last v)"
    using assms(2) last_in_set [of v] by (auto simp: plain_def list_all_iff)
  have "trim_end_matches (directive_line d v) CHR '';'' = d @ '' '' @ v"
    using v trim_end_by_id [of "d @ '' '' @ v" "\<lambda>c. c = CHR '';''"]
      trim_end_by_snoc [of "\<lambda>c. c = CHR '';''" "d @ '' '' @ v" "CHR '';''"]
    by (simp add: trim_end_matches_def directive_line_def)
  moreover have "trim (d @ '' '' @ v) = d @ '' '' @ v"
    using w v by (intro trim_id) auto
  ultimately show ?thesis
    using w by (simp add: split_whitespace_word split_whitespace_last)
qed

lemma directive_line_ends [simp]:
  "ends_with (directive_line d v) '';''"
  "\<not> ends_with (directive_line d v) ''{''"
  by (simp_all add: directive_line_def ends_with_single)

lemma directive_line_no_garbage:
  "keyword d \<Longrightarrow> check_trailing_garbage (directive_line d v) = Inr ()"
  using rfind_char_snoc [of "d @ '' '' @ v" "CHR '';''"]
  by (simp add: check_trailing_garbage_def trim_directive_line Let_def)
     (simp add: directive_line_def)

lemma directive_line_semicolon: "keyword d \<Longrightarrow> validate_semicolon (directive_line d v) = Inr ()"
  by (simp add: validate_semicolon_def trim_directive_line)

lemma directive_line_directive:
  "keyword d \<Longrightarrow> plain v \<Longrightarrow> get_directive (directive_line d v) = Inr d"
  by (simp add: get_directive_def split_directive_line)

lemma keyword_case: "keyword d \<Longrightarrow> validate_directive_case d = Inr ()"
  by (simp add: validate_directive_case_def keyword_def)

lemma directive_line_not_end: "keyword d \<Longrightarrow> \<not> is_block_end (directive_line d v)"
  by (auto simp: is_block_end_def directive_line_def dest!: keyword_hd)

lemma block_directive_line:
  "keyword d \<Longrightarrow> plain v \<Longrightarrow> block_directive (directive_line d v) = Inr d"
  by (simp add: block_directive_def directive_line_semicolon directive_line_directive keyword_case
      directive_line_no_garbage)

lemma single_value_directive_line:
  "keyword d \<Longrightarrow> plain v \<Longrightarrow> parse_single_value_directive (directive_line d v) e = Inr v"
  by (simp add: parse_single_value_directive_def directive_line_value)

lemma switch_value_show [simp]: "switch_value (show_switch b) = Some b"
  by (simp add: switch_value_def show_switch_def)

text \<open>A block loop consumes one printed directive with one step of its directive parser.\<close>

context block_loop
begin

lemma loop_directive_line:
  "keyword d \<Longrightarrow> plain v \<Longrightarrow>
   loop l (directive_line d v # rest) =
     and_then (directive_step (directive_line d v) d l) (\<lambda>l'. loop l' rest)"
  by (simp add: loop_Cons directive_line_not_end block_directive_line)

lemma loop_optional_line:
  "keyword d \<Longrightarrow> pred_option plain v \<Longrightarrow>
   loop l (optional_line d v @ rest) =
     (case v of None \<Rightarrow> loop l rest
      | Some w \<Rightarrow> and_then (directive_step (directive_line d w) d l) (\<lambda>l'. loop l' rest))"
  by (cases v) (simp_all add: loop_directive_line)

lemma loop_brace: "loop l (''}'' # rest) = and_then (finish l) (\<lambda>x. Inr (x, rest))"
  by (simp add: loop_Cons is_block_end_def)

end


section \<open>Printed blocks are parsed back\<close>

lemma known_keywords [simp]:
  "keyword ''upstream''" "keyword ''auth''" "keyword ''cert''" "keyword ''key''" "keyword ''cache''"
  "keyword ''intercept_errors''" "keyword ''proxy_protocol''" "keyword ''trusted_upstream''"
  "keyword ''timeout''" "keyword ''max_tls_failures''" "keyword ''ban_duration''"
  "keyword ''rate_limit''" "keyword ''forward_auth''" "keyword ''max_body_size''"
  "keyword ''max_header_size''" "keyword ''enabled''" "keyword ''max_capacity''"
  "keyword ''max_file_size''" "keyword ''ttl''" "keyword ''listen''" "keyword ''workers''"
  "keyword ''logfile''"
  by (simp_all add: keyword_def to_lowercase_def char_lower_def is_whitespace_def)

definition route_printable :: "Route \<Rightarrow> bool" where
  "route_printable r \<longleftrightarrow>
     plain (rt_request_endpoint r) \<and> plain (rt_forward_endpoint r) \<and>
     pred_option plain (rt_cert_path r) \<and> pred_option plain (rt_key_path r)"

lemma pred_option_switch [simp]: "pred_option plain (map_option show_switch b)"
  by (cases b) simp_all

lemma route_body_parses:
  assumes "route_wf r" and "route_printable r"
  shows "parse_route_block (rt_request_endpoint r) (route_body r @ rest) = Inr (r, rest)"
  using assms
  by (cases "rt_cert_path r"; cases "rt_key_path r"; cases "rt_cache r"; cases "rt_intercept_errors r")
     (auto simp: parse_route_block_def route_body_def route_locals_init_def route_printable_def
       route_wf_def route_block.loop_directive_line route_block.loop_brace route_directive_def
       single_value_directive_line route_finish_def simp del: route_block_loop.simps split: if_splits)

lemma trim_show_nat [simp]: "trim (show_nat n) = show_nat n"
  using plain_words [OF plain_show_nat, of n] by (intro trim_id) auto

lemma parse_size_show_nat:
  "parse_size_string (show_nat n) d =
    (if n \<le> usize_max then Inr n else Inl (InvalidSecurityValue d (show_nat n)))"
proof -
  have "is_ascii_digit (last (show_nat n))"
    using show_nat_digits [of n] by (simp add: list_all_iff)
  moreover have "\<not> is_ascii_digit c" if "c \<in> set ''kKmMgG''" for c
    using that by (auto simp: is_ascii_digit_def)
  ultimately have "last (show_nat n) \<notin> set ''kKmMgG''" by blast
  then show ?thesis
    by (simp add: parse_size_string_def Let_def parse_uint_show_nat usize_checked_mul_def)
qed

definition security_printable :: "SecurityConfig \<Rightarrow> bool" where
  "security_printable s \<longleftrightarrow> pred_option plain (sec_forward_auth s)"

lemma plain_ip: "plain (ip_to_string ip)"
proof -
  have "\<not> is_whitespace c \<and> c \<noteq> CHR '';'' \<and> c \<noteq> CHR ''/''" if "ip_char c" for c
    using that by (auto simp: ip_char_def is_hex_def is_some_def to_digit_def is_whitespace_def Let_def split: option.splits if_splits)
  then show ?thesis
    using ip_to_string_chars [of ip] by (cases "ip_to_string ip") (auto simp: plain_def list_all_iff)
qed

lemma proxy_protocol_value_show [simp]: "proxy_protocol_value (show_switch b) = Inr b"
  by (simp add: proxy_protocol_value_def show_switch_def)

lemma security_body_parses:
  assumes "security_wf s" and "security_printable s"
  shows "parse_security_block (security_body s @ rest) = Inr (s, rest)"
  using assms
  by (cases "sec_forward_auth s")
     (simp_all add: parse_security_block_def security_body_def security_locals_init_def
       security_printable_def security_wf_def security_block.loop_directive_line
       security_block.loop_brace security_directive_def once_value_def security_number_def
       parse_uint_show_nat parse_size_show_nat plain_ip
       parse_ip_addr_show single_value_directive_line security_finish_def Let_def
       del: security_block_loop.simps ip_to_string.simps)

lemma cache_body_parses:
  assumes "cache_wf c" 
  shows "parse_cache_block (cache_body c @ rest) = Inr (c, rest)"
  using assms
  by (simp add: parse_cache_block_def cache_body_def cache_locals_init_def 
       cache_wf_def cache_block.loop_directive_line cache_block.loop_brace cache_directive_def
        parse_uint_show_nat parse_size_show_nat megabyte_value_def ends_with_def
       single_value_directive_line del: cache_block_loop.simps)

section \<open>Printed lines are parsed back\<close>

lemma top_line_directive_line:
  "keyword d \<Longrightarrow> plain v \<Longrightarrow> validate_known_top_level_directive d = Inr () \<Longrightarrow>
   top_line (directive_line d v) rest l = top_directive (directive_line d v) d rest l"
  by (simp add: top_line_def directive_line_not_end directive_line_directive keyword_case)

lemma top_line_listen:
  "p \<le> u16_max \<Longrightarrow> \<not> tl_listen_found l \<Longrightarrow>
   top_line (directive_line ''listen'' (show_nat p)) rest l =
     Inr (l\<lparr>tl_listen_port := p, tl_listen_found := True\<rparr>, rest)"
  by (simp add: top_line_directive_line validate_known_top_level_directive_def top_directive_def
      top_listen_def directive_line_semicolon directive_line_no_garbage parse_listen_line_def
      directive_line_value parse_uint_show_nat)

lemma top_line_workers:
  "0 < n \<Longrightarrow> n \<le> usize_max \<Longrightarrow> tl_workers l = None \<Longrightarrow>
   top_line (directive_line ''workers'' (show_nat n)) rest l = Inr (l\<lparr>tl_workers := Some n\<rparr>, rest)"
  by (simp add: top_line_directive_line validate_known_top_level_directive_def top_directive_def
      top_workers_def directive_line_semicolon directive_line_no_garbage single_value_directive_line
      parse_uint_show_nat)

lemma top_loop_logfile:
  "pred_option plain v \<Longrightarrow> tl_logfile l = None \<Longrightarrow>
   top_loop l (optional_line ''logfile'' v @ rest) = top_loop (l\<lparr>tl_logfile := v\<rparr>) rest"
  by (cases v; cases l)
     (simp_all add: top_line_directive_line validate_known_top_level_directive_def
      top_directive_def top_logfile_def directive_line_semicolon directive_line_no_garbage
      single_value_directive_line)

lemma top_loop_intercept:
  "tl_intercept_errors l = None \<Longrightarrow>
   top_loop l (optional_line ''intercept_errors'' (map_option show_switch b) @ rest) =
     top_loop (l\<lparr>tl_intercept_errors := b\<rparr>) rest"
  by (cases b; cases l)
     (simp_all add: top_line_directive_line validate_known_top_level_directive_def
      top_directive_def top_intercept_errors_def directive_line_semicolon directive_line_no_garbage
      single_value_directive_line)

lemma top_line_security:
  "security_wf s \<Longrightarrow> security_printable s \<Longrightarrow> tl_security l = None \<Longrightarrow>
   top_line ''security {'' (security_body s @ rest) l = Inr (l\<lparr>tl_security := Some s\<rparr>, rest)"
  by (simp add: top_line_def is_block_end_def get_directive_def str_eval validate_directive_case_def
      validate_known_top_level_directive_def top_directive_def top_security_def security_body_parses)

lemma top_line_cache:
  "cache_wf c \<Longrightarrow> tl_cache_config l = None \<Longrightarrow>
   top_line ''cache {'' (cache_body c @ rest) l = Inr (l\<lparr>tl_cache_config := Some c\<rparr>, rest)"
  by (simp add: top_line_def is_block_end_def get_directive_def str_eval validate_directive_case_def
      validate_known_top_level_directive_def top_directive_def top_cache_def cache_body_parses)

lemma top_line_route:
  assumes "route_wf r" and "route_printable r" and "rt_request_endpoint r \<notin> tl_request_endpoints l"
  shows "top_line (''route '' @ rt_request_endpoint r @ '' {'') (route_body r @ rest) l =
    Inr (l\<lparr>tl_request_endpoints := insert (rt_request_endpoint r) (tl_request_endpoints l),
           tl_routes := tl_routes l @ [r], tl_routes_found := True\<rparr>, rest)"
proof -
  let ?line = "''route '' @ rt_request_endpoint r @ '' {''"
  have "plain (rt_request_endpoint r)" using assms(2) by (simp add: route_printable_def)
  then have split: "split_whitespace ?line = [''route'', rt_request_endpoint r, ''{'']"
    using split_whitespace_word [of "''route''" "CHR '' ''" "rt_request_endpoint r @ '' {''"]
      split_whitespace_word [of "rt_request_endpoint r" "CHR '' ''" "''{''"]
      split_whitespace_last [of "''{''"] plain_words [of "rt_request_endpoint r"]
    by (simp add: is_whitespace_def)
  have "ends_with ?line ''{''" by (simp add: ends_with_single)
  moreover have "is_valid_url (rt_request_endpoint r)" using assms(1) by (simp add: route_wf_def)
  ultimately show ?thesis
    using split assms
    by (simp add: top_line_def is_block_end_def get_directive_def validate_directive_case_def
        to_lowercase_def char_lower_def validate_known_top_level_directive_def top_directive_def
        top_route_def parse_route_block_header_def route_body_parses)
qed

lemma top_loop_routes:
  "list_all route_wf rs \<Longrightarrow> list_all route_printable rs \<Longrightarrow>
   distinct (map rt_request_endpoint rs) \<Longrightarrow>
   rt_request_endpoint ` set rs \<inter> tl_request_endpoints l = {} \<Longrightarrow>
   top_loop l (concat (map route_lines rs)) =
     Inr (l\<lparr>tl_request_endpoints := tl_request_endpoints l \<union> rt_request_endpoint ` set rs,
            tl_routes := tl_routes l @ rs, tl_routes_found := tl_routes_found l \<or> rs \<noteq> []\<rparr>)"
proof (induction rs arbitrary: l)
  case Nil
  then show ?case by simp
next
  case (Cons r rs)
  let ?l = "l\<lparr>tl_request_endpoints := insert (rt_request_endpoint r) (tl_request_endpoints l),
              tl_routes := tl_routes l @ [r], tl_routes_found := True\<rparr>"
  have "top_line (''route '' @ rt_request_endpoint r @ '' {'')
          (route_body r @ concat (map route_lines rs)) l = Inr (?l, concat (map route_lines rs))"
    using Cons.prems by (intro top_line_route) auto
  then have "top_loop l (concat (map route_lines (r # rs))) = top_loop ?l (concat (map route_lines rs))"
    by (simp add: route_lines_def [of r])
  moreover have "rt_request_endpoint ` set rs \<inter> tl_request_endpoints ?l = {}"
    using Cons.prems by auto
  ultimately show ?case
    using Cons.IH [of ?l] Cons.prems by simp
qed

section \<open>Printed text is cut into the printed lines\<close>

text \<open>A word is kept as it is, whatever slashes it has after its start.\<close>

lemma strip_word:
  "list_all (\<lambda>c. \<not> is_whitespace c \<and> c \<noteq> CHR '';'') w \<Longrightarrow> d \<notin> {CHR ''/'', CHR ''*''} \<Longrightarrow>
   is_boundary passed \<longrightarrow> \<not> starts_with w ''//'' \<and> \<not> starts_with w ''/*'' \<Longrightarrow>
   strip_from passed (w @ d # s) = w @ strip_from (rev w @ passed) (d # s)"
proof (induction w arbitrary: passed)
  case Nil
  then show ?case by simp
next
  case (Cons c w)
  have "\<not> is_boundary (c # passed)"
    using Cons.prems(1) by (auto simp: is_boundary_iff is_whitespace_def)
  then have "strip_from (c # passed) (w @ d # s) = w @ strip_from (rev w @ c # passed) (d # s)"
    using Cons.prems Cons.IH [of "c # passed"] by simp
  moreover have "strip_from passed (c # w @ d # s) = c # strip_from (c # passed) (w @ d # s)"
    using Cons.prems(2,3) by (cases w) auto
  ultimately show ?case by simp
qed

text \<open>A line that survives comment removal, trimming and the filter for comment lines.\<close>

definition kept_line :: "string \<Rightarrow> bool" where
  "kept_line l \<longleftrightarrow>
     l \<noteq> [] \<and> trim l = l \<and> newline \<notin> set l \<and> hd l \<noteq> CHR ''#'' \<and>
     (\<forall>passed s. strip_from passed (l @ newline # s) = l @ newline # strip_from (newline # rev l @ passed) s)"

lemma strip_cr_kept: "kept_line l \<Longrightarrow> strip_cr l = l"
  using trim_ends(2) [of l] by (auto simp: kept_line_def strip_cr_def is_whitespace_def)

lemma strip_kept_lines:
  "list_all kept_line ls \<Longrightarrow>
   strip_from passed (concat (map (\<lambda>l. l @ [newline]) ls)) = concat (map (\<lambda>l. l @ [newline]) ls)"
  by (induction ls arbitrary: passed) (simp_all add: kept_line_def)

lemma lines_kept_lines:
  "list_all kept_line ls \<Longrightarrow> lines (concat (map (\<lambda>l. l @ [newline]) ls)) = ls"
proof (induction ls)
  case Nil
  then show ?case by (simp add: lines_def split_char_def)
next
  case (Cons l ls)
  then have "newline \<notin> set l" by (simp add: kept_line_def)
  with Cons show ?case by (simp add: lines_Cons strip_cr_kept)
qed

lemma config_lines_kept_lines:
  assumes "list_all kept_line ls"
  shows "config_lines (concat (map (\<lambda>l. l @ [newline]) ls)) = ls"
proof -
  have "map trim ls = ls" "filter (\<lambda>line. line \<noteq> [] \<and> \<not> starts_with line ''#'') ls = ls"
    using assms
    by (auto simp: kept_line_def list_all_iff map_idI filter_id_conv starts_with_def take_Suc)
  then show ?thesis
    using assms by (simp add: config_lines_def strip_comments_def strip_kept_lines lines_kept_lines)
qed

lemma kept_directive_line:
  assumes "keyword d" and "plain v"
  shows "kept_line (directive_line d v)"
proof -
  have d: "list_all (\<lambda>c. \<not> is_whitespace c \<and> c \<noteq> CHR ''/'') d" and v: "list_all (\<lambda>c. \<not> is_whitespace c \<and> c \<noteq> CHR '';'') v"
    using assms by (auto simp: keyword_def plain_def list_all_iff)
  have "strip_from passed (d @ CHR '' '' # v @ CHR '';'' # s) =
      d @ CHR '' '' # v @ CHR '';'' # strip_from (CHR '';'' # rev v @ CHR '' '' # rev d @ passed) s" for passed s
  proof -
    have "strip_from passed (d @ t) = d @ strip_from (rev d @ passed) t" for t
      using d by (induction d arbitrary: passed) (simp_all add: strip_char)
    moreover have "strip_from (CHR '' '' # rev d @ passed) (v @ CHR '';'' # s) =
        v @ strip_from (rev v @ CHR '' '' # rev d @ passed) (CHR '';'' # s)"
      using assms(2) v by (intro strip_word) (auto simp: plain_def)
    ultimately show ?thesis by (simp add: strip_char)
  qed
  then show ?thesis
    using assms d v keyword_hd [OF assms(1)] trim_directive_line [OF assms(1), of v]
    by (auto simp: kept_line_def directive_line_def strip_char list_all_iff is_whitespace_def)
qed

lemma kept_header:
  assumes "plain v"
  shows "kept_line (''route '' @ v @ '' {'')"
proof -
  have v: "list_all (\<lambda>c. \<not> is_whitespace c \<and> c \<noteq> CHR '';'') v"
    using assms by (simp add: plain_def)
  have "strip_from (CHR '' '' # p) (v @ CHR '' '' # s) = v @ strip_from (rev v @ CHR '' '' # p) (CHR '' '' # s)" for p s
    using assms v by (intro strip_word) (auto simp: plain_def)
  moreover have "trim (''route '' @ v @ '' {'') = ''route '' @ v @ '' {''"
    by (rule trim_id) (simp_all add: is_whitespace_def)
  ultimately show ?thesis
    using v by (auto simp: kept_line_def strip_char list_all_iff is_whitespace_def)
qed

lemma kept_fixed [simp]: "kept_line ''}''" "kept_line ''security {''" "kept_line ''cache {''"
  by (simp_all add: kept_line_def strip_char str_eval)

lemma kept_optional_line: "keyword d \<Longrightarrow> pred_option plain v \<Longrightarrow> list_all kept_line (optional_line d v)"
  by (cases v) (simp_all add: kept_directive_line)

lemma kept_route_lines: "route_printable r \<Longrightarrow> list_all kept_line (route_lines r)"
  using kept_header [of "rt_request_endpoint r"]
  by (simp add: route_lines_def route_body_def route_printable_def kept_directive_line
      kept_optional_line)

lemma kept_security_body: "security_printable s \<Longrightarrow> list_all kept_line (security_body s)"
  by (simp add: security_body_def security_printable_def kept_directive_line kept_optional_line
      plain_ip del: ip_to_string.simps)

lemma kept_cache_body: "list_all kept_line (cache_body c)"
  by (simp add: cache_body_def kept_directive_line)

definition printable :: "Config \<Rightarrow> bool" where
  "printable c \<longleftrightarrow>
     list_all route_printable (cfg_routes c) \<and> pred_option security_printable (cfg_security c) \<and>
     pred_option plain (cfg_logfile c)"

lemma kept_printed_lines:
  assumes "printable c"
  shows "list_all kept_line (printed_lines c)"
proof -
  have "list_all kept_line (concat (map route_lines rs))" if "list_all route_printable rs" for rs
    using that by (induction rs) (simp_all add: kept_route_lines)
  then show ?thesis
    using assms
    by (auto simp: printed_lines_def printable_def kept_directive_line kept_optional_line
        kept_security_body kept_cache_body split: option.splits)
qed

lemma printed_lines_parse:
  assumes "config_wf c" and "printable c"
  shows "and_then (top_loop top_locals_init (printed_lines c)) (finish_config avail) = Inr c"
proof -
  have routes: "top_loop l (concat (map route_lines (cfg_routes c))) =
      Inr (l\<lparr>tl_request_endpoints := rt_request_endpoint ` set (cfg_routes c),
             tl_routes := cfg_routes c, tl_routes_found := True\<rparr>)"
    if "tl_request_endpoints l = {}" "tl_routes l = []" for l
    using top_loop_routes [of "cfg_routes c" l] that assms
    by (simp add: config_wf_def printable_def)
  show ?thesis
    using assms
    by (cases "cfg_security c"; cases "cfg_cache c")
       (auto simp: printed_lines_def config_wf_def printable_def top_locals_init_def top_line_listen
         top_line_workers top_loop_logfile top_loop_intercept top_line_security top_line_cache
         routes finish_config_def Suc_le_eq)
qed

text \<open>
  C9: the parser is complete for well-formed configurations: the printed form of a configuration
  whose endpoints, paths and URLs are single words parses back to that very configuration, whatever
  the available parallelism.
\<close>

theorem print_config_parses:
  assumes "config_wf c" and "printable c"
  shows "parse_proxy_config avail (print_config c) = Inr c"
  using printed_lines_parse [OF assms] config_lines_kept_lines [OF kept_printed_lines [OF assms(2)]]
  by (simp add: parse_proxy_config_def print_config_def)

definition example_full :: Config where
  "example_full = example_cfg\<lparr>cfg_security := Some example_security, cfg_logfile := Some ''/l''\<rparr>"

lemma example_full_ok: "config_wf example_full \<and> printable example_full"
  by (simp add: example_full_def example_cfg_def example_route_def example_security_def config_wf_def
      route_wf_def security_wf_def printable_def route_printable_def security_printable_def plain_def
      is_valid_url_def is_whitespace_def)

theorem print_config_parses_witness:
  "parse_proxy_config None (print_config example_full) = Inr example_full"
  using print_config_parses [of example_full None] example_full_ok by simp

section \<open>Sizes, trailing text and the extent of blocks\<close>

text \<open>The unit letters of a size and their factors.\<close>

fun size_unit :: "string \<Rightarrow> nat option" where
  "size_unit [] = Some 1"
| "size_unit [c] =
     (if c \<in> {CHR ''k'', CHR ''K''} then Some (2 ^ 10)
      else if c \<in> {CHR ''m'', CHR ''M''} then Some (2 ^ 20)
      else if c \<in> {CHR ''g'', CHR ''G''} then Some (2 ^ 30)
      else None)"
| "size_unit _ = None"

lemma trim_size: "size_unit u = Some k \<Longrightarrow> trim (show_nat n @ u) = show_nat n @ u"
proof -
  assume u: "size_unit u = Some k"
  have "hd (show_nat n) \<in> set (show_nat n)" by simp
  then have h: "\<not> is_whitespace (hd (show_nat n))" using plain_words [OF plain_show_nat, of n] by blast
  show ?thesis
  proof (cases u)
    case Nil
    then show ?thesis by simp
  next
    case (Cons c u')
    with u have "u' = []" "c \<in> set ''kKmMgG''" by (cases u'; auto split: if_splits)+
    with Cons h show ?thesis by (intro trim_id) (auto simp: is_whitespace_def)
  qed
qed

text \<open>
  A size written as a number with an optional unit \<open>k\<close>, \<open>m\<close> or \<open>g\<close> in either case is accepted
  exactly if the product fits \<open>usize\<close>, and its value is that product; a product that does not fit
  is reported with the text of the size, never wrapped around.
\<close>

lemma parse_size_string_value:
  assumes "size_unit u = Some k"
  shows "parse_size_string (show_nat n @ u) d =
    (if n * k \<le> usize_max then Inr (n * k) else Inl (InvalidSecurityValue d (show_nat n @ u)))"
proof (cases u)
  case Nil
  then show ?thesis using assms by (auto simp: parse_size_show_nat)
next
  case (Cons c u')
  with assms have u: "u = [c]" by (cases u') auto
  have k: "k \<ge> 1" and "n \<le> n * k" using assms u by (auto split: if_splits)
  then show ?thesis
    using assms u trim_size [OF assms, of n]
    by (auto simp: parse_size_string_def Let_def parse_uint_show_nat usize_checked_mul_def split: if_splits)
qed

text \<open>
  The check for text after the semicolon never rejects a line: it looks after the last semicolon
  of a trimmed line that ends with a semicolon. Trailing text is refused by the semicolon test
  alone.
\<close>

lemma check_trailing_garbage_accepts: "check_trailing_garbage line = Inr ()"
proof (cases "ends_with (trim line) '';''")
  case True
  then obtain t where "trim line = t @ '';''" by (auto simp: ends_with_iff)
  then show ?thesis using rfind_char_snoc [of t "CHR '';''"] by (simp add: check_trailing_garbage_def Let_def)
qed (simp add: check_trailing_garbage_def)

text \<open>
  A block ends at its first closing brace: when a route, security or cache block is accepted,
  the lines handed back to the top level are exactly those after the first line that is a closing
  brace, whatever the block holds; a block without one is refused.
\<close>

lemma blocks_end_at_brace:
  "(parse_route_block ep ls = Inr (r, rest) \<longrightarrow> rest = tl (dropWhile (\<lambda>l. \<not> is_block_end l) ls)) \<and>
   (parse_security_block ls = Inr (s, rest) \<longrightarrow> rest = tl (dropWhile (\<lambda>l. \<not> is_block_end l) ls)) \<and>
   (parse_cache_block ls = Inr (c, rest) \<longrightarrow> rest = tl (dropWhile (\<lambda>l. \<not> is_block_end l) ls)) \<and>
   (list_all (\<lambda>l. \<not> is_block_end l) ls \<longrightarrow>
     (\<exists>e. parse_route_block ep ls = Inl e) \<and> (\<exists>e. parse_security_block ls = Inl e) \<and>
     (\<exists>e. parse_cache_block ls = Inl e))"
  unfolding parse_route_block_def parse_security_block_def parse_cache_block_def list_all_iff
  by (intro conjI impI)
     (erule route_block.block.block_rest_unique security_block.block.block_rest_unique
        cache_block.block.block_rest_unique route_block.loop_unterminated
        security_block.loop_unterminated cache_block.loop_unterminated)+

end
