(* ===== verification/Router.thy ===== *)
theory Router
  imports Config
begin

text \<open>
  The routing table of \<open>src/src/router.rs\<close>: prefix matching of the request against the routes in
  configuration order, path rewriting and the upstream address.
\<close>

section \<open>Definitions\<close>

record Router =
  router_routes :: "Route list"

record MatchedRoute =
  mr_upstream_addr :: string
  mr_rewritten_path :: string
  mr_auth_required :: bool
  mr_cache :: "bool option"
  mr_intercept_errors :: "bool option"

definition should_intercept_errors :: "MatchedRoute \<Rightarrow> bool \<Rightarrow> bool" where
  "should_intercept_errors m global_intercept = unwrap_or (mr_intercept_errors m) global_intercept"

definition without_scheme :: "string \<Rightarrow> string" where
  "without_scheme endpoint =
     (case strip_prefix endpoint ''http://'' of
        Some t \<Rightarrow> t
      | None \<Rightarrow> unwrap_or (strip_prefix endpoint ''https://'') endpoint)"

definition extract_host_port :: "string \<Rightarrow> string" where
  "extract_host_port endpoint =
     (let host_port = hd (split_char (without_scheme endpoint) CHR ''/'')
      in if contains host_port '':'' then host_port
         else if starts_with endpoint ''https://'' then host_port @ '':443''
         else host_port @ '':80'')"

definition extract_path :: "string \<Rightarrow> string" where
  "extract_path endpoint =
     (case find_char (without_scheme endpoint) CHR ''/'' of
        Some idx \<Rightarrow> drop idx (without_scheme endpoint)
      | None \<Rightarrow> ''/'')"

definition route_matches :: "Route \<Rightarrow> string \<Rightarrow> string \<Rightarrow> bool" where
  "route_matches route host path =
     (starts_with (''http://'' @ host @ path) (rt_request_endpoint route) \<or>
      starts_with (''https://'' @ host @ path) (rt_request_endpoint route))"

definition matched_route :: "Route \<Rightarrow> string \<Rightarrow> MatchedRoute" where
  "matched_route route path =
     (let req_path_prefix = extract_path (rt_request_endpoint route);
          forward_path_prefix = extract_path (rt_forward_endpoint route)
      in \<lparr>mr_upstream_addr = extract_host_port (rt_forward_endpoint route),
          mr_rewritten_path =
            (if starts_with path req_path_prefix
             then forward_path_prefix @ drop (length req_path_prefix) path else path),
          mr_auth_required = rt_auth_required route, mr_cache = rt_cache route,
          mr_intercept_errors = rt_intercept_errors route\<rparr>)"

fun match_in :: "Route list \<Rightarrow> string \<Rightarrow> string \<Rightarrow> MatchedRoute option" where
  "match_in [] host path = None"
| "match_in (route # routes) host path =
     (if route_matches route host path then Some (matched_route route path)
      else match_in routes host path)"

definition match_route :: "Router \<Rightarrow> string \<Rightarrow> string \<Rightarrow> MatchedRoute option" where
  "match_route router host path = match_in (router_routes router) host path"

lemmas router_eval = match_route_def route_matches_def matched_route_def extract_path_def
  extract_host_port_def without_scheme_def str_eval

section \<open>The order of the routes\<close>

lemma match_in_find:
  "match_in routes host path =
   map_option (\<lambda>route. matched_route route path) (find (\<lambda>r. route_matches r host path) routes)"
  by (induction routes) simp_all

section \<open>Endpoints\<close>

lemma strip_prefix_append [simp]: "strip_prefix (p @ t) p = Some t"
  by (simp add: strip_prefix_Some)

lemma without_scheme_http [simp]: "without_scheme (''http://'' @ t) = t"
  unfolding without_scheme_def strip_prefix_append by simp

lemma without_scheme_https [simp]: "without_scheme (''https://'' @ t) = t"
  using strip_prefix_append [of "''https://''" t]
  by (simp add: without_scheme_def strip_prefix_None [THEN iffD2])

lemma extract_path_none:
  "without_scheme ep = h \<Longrightarrow> CHR ''/'' \<notin> set h \<Longrightarrow> extract_path ep = ''/''"
  by (simp add: extract_path_def find_char_None [THEN iffD2])

lemma extract_path_some:
  "without_scheme ep = h @ CHR ''/'' # p \<Longrightarrow> CHR ''/'' \<notin> set h \<Longrightarrow> extract_path ep = CHR ''/'' # p"
  by (simp add: extract_path_def find_char_append)

lemma extract_host_port_no_slash: "CHR ''/'' \<notin> set (extract_host_port ep)"
  using set_takeWhileD [of _ "\<lambda>d. d \<noteq> CHR ''/''" "without_scheme ep"]
  by (auto simp: extract_host_port_def split_char_hd Let_def)

lemma extract_host_port_colon: "CHR '':'' \<in> set (extract_host_port ep)"
  using contains_char [of "hd (split_char (without_scheme ep) CHR ''/'')" "CHR '':''"]
  by (simp add: extract_host_port_def Let_def)

text \<open>An endpoint with a scheme is compared with what follows the scheme of the request.\<close>

lemma route_matches_scheme:
  assumes "rt_request_endpoint r = scheme @ e" and "scheme = ''http://'' \<or> scheme = ''https://''"
  shows "route_matches r host path \<longleftrightarrow> starts_with (host @ path) e"
  using assms by (auto simp: route_matches_def)

lemma without_scheme_cases:
  "scheme = ''http://'' \<or> scheme = ''https://'' \<Longrightarrow> without_scheme (scheme @ e) = e"
  using without_scheme_http [of e] without_scheme_https [of e] by blast

lemma prefix_of_url:
  assumes "starts_with (host @ path) t"
  shows "(\<exists>rest. host = t @ rest) \<or> (\<exists>p rest. t = host @ p \<and> path = p @ rest \<and> p \<noteq> [])"
  using assms unfolding starts_with_iff append_eq_append_conv2 by (metis append.right_neutral)

text \<open>The host part of a URL ends at its first slash.\<close>

lemma host_part:
  assumes "CHR ''/'' \<notin> set h"
  shows "takeWhile (\<lambda>c. c \<noteq> CHR ''/'') (h @ CHR ''/'' # p) = h"
  using assms by (intro takeWhile_append_stop) auto

lemma same_host:
  assumes "h @ CHR ''/'' # p = host @ CHR ''/'' # q" and "CHR ''/'' \<notin> set h" and "CHR ''/'' \<notin> set host"
  shows "h = host" and "p = q"
proof -
  show "h = host" using host_part [OF assms(2), of p] host_part [OF assms(3), of q] assms(1) by metis
  then show "p = q" using assms(1) by simp
qed

section \<open>Properties\<close>

text \<open>
  The first route in configuration order whose request endpoint is a prefix of the request's URL
  (under either scheme) decides, and a request that no endpoint matches has no route.
\<close>

lemma match_route_first:
  "(match_route router host path = Some m \<longleftrightarrow>
     (\<exists>i < length (router_routes router).
        route_matches (router_routes router ! i) host path \<and>
        (\<forall>j < i. \<not> route_matches (router_routes router ! j) host path) \<and>
        m = matched_route (router_routes router ! i) path)) \<and>
   (match_route router host path = None \<longleftrightarrow>
     list_all (\<lambda>r. \<not> route_matches r host path) (router_routes router))"
  unfolding match_route_def match_in_find
  by (auto simp: find_Some_iff find_None_iff list_all_iff)

definition example_routes :: "Route list" where
  "example_routes =
     [\<lparr>rt_request_endpoint = ''http://a/x/'', rt_forward_endpoint = ''http://u:1/y/'', rt_auth_required = True,
       rt_cert_path = None, rt_key_path = None, rt_cache = None, rt_intercept_errors = None\<rparr>,
      \<lparr>rt_request_endpoint = ''http://a'', rt_forward_endpoint = ''v'', rt_auth_required = False,
       rt_cert_path = None, rt_key_path = None, rt_cache = None, rt_intercept_errors = None\<rparr>]"

text \<open>
  C17: rewriting is an exact substitution of path prefixes. For a request with a path to a host
  without slashes and a route whose request endpoint has a scheme: if the endpoint has a path,
  the host is the endpoint's host, the request's path starts with the endpoint's path, and what
  follows is appended to the path of the forward endpoint; if the endpoint has no path, the
  endpoint's host is a prefix of the request's host and the path after its leading slash is
  appended. The fall-back that leaves the path alone is not taken.
\<close>

theorem match_route_rewrites:
  assumes "rt_request_endpoint route = scheme @ h @ p"
    and "scheme = ''http://'' \<or> scheme = ''https://''"
    and "CHR ''/'' \<notin> set h" and "p = [] \<or> hd p = CHR ''/''"
    and "CHR ''/'' \<notin> set host" and "route_matches route host (CHR ''/'' # t)"
  shows "if p = []
    then (\<exists>more. host = h @ more) \<and>
         mr_rewritten_path (matched_route route (CHR ''/'' # t)) = extract_path (rt_forward_endpoint route) @ t
    else host = h \<and> (\<exists>rest. CHR ''/'' # t = p @ rest \<and>
         mr_rewritten_path (matched_route route (CHR ''/'' # t)) = extract_path (rt_forward_endpoint route) @ rest)"
proof -
  have ws: "without_scheme (rt_request_endpoint route) = h @ p"
    using assms(1,2) by (simp only: without_scheme_cases)
  have m: "starts_with (host @ CHR ''/'' # t) (h @ p)"
    using assms(6) route_matches_scheme [OF assms(1,2)] by simp
  show ?thesis
  proof (cases p)
    case Nil
    from m Nil have "starts_with (host @ CHR ''/'' # t) h" by simp
    then have "\<exists>more. host = h @ more"
      using prefix_of_url [of host "CHR ''/'' # t" h] assms(3) by (auto simp: Cons_eq_append_conv)
    moreover have "extract_path (rt_request_endpoint route) = ''/''"
      using ws Nil assms(3) by (simp add: extract_path_none)
    ultimately show ?thesis using Nil by (simp add: matched_route_def)
  next
    case (Cons c p')
    with assms(4) have c: "p = CHR ''/'' # p'" by simp
    from m obtain rest where "host @ CHR ''/'' # t = h @ CHR ''/'' # (p' @ rest)"
      by (auto simp: starts_with_iff c)
    from same_host [OF this assms(5,3)] have "host = h" "t = p' @ rest" by simp_all
    moreover have "extract_path (rt_request_endpoint route) = p"
      using ws c assms(3) by (simp add: extract_path_some)
    ultimately show ?thesis using c by (simp add: matched_route_def)
  qed
qed

theorem match_route_rewrites_witness:
  "mr_rewritten_path (matched_route (example_routes ! 0) ''/x/q'') = ''/y/q''"
proof -
  have "route_matches (example_routes ! 0) ''a'' ''/x/q''"
    "extract_path (rt_forward_endpoint (example_routes ! 0)) = ''/y/''"
    by (simp_all add: example_routes_def router_eval)
  then show ?thesis
    using match_route_rewrites [of "example_routes ! 0" "''http://''" "''a''" "''/x/''" "''a''" "''x/q''"]
    by (simp add: example_routes_def)
qed

text \<open>
  The upstream address of a match names a port and has no path: the text before the first slash
  of the forward endpoint, with port 443 or 80 added where it has no colon.
\<close>

lemma upstream_addr_host_port:
  "CHR '':'' \<in> set (mr_upstream_addr (matched_route route path)) \<and>
   CHR ''/'' \<notin> set (mr_upstream_addr (matched_route route path)) \<and>
   (\<exists>port \<in> {[], '':80'', '':443''}. mr_upstream_addr (matched_route route path) =
      takeWhile (\<lambda>c. c \<noteq> CHR ''/'') (without_scheme (rt_forward_endpoint route)) @ port)"
proof -
  have "mr_upstream_addr (matched_route route path) = extract_host_port (rt_forward_endpoint route)"
    by (simp add: matched_route_def Let_def)
  moreover have "\<exists>port \<in> {[], '':80'', '':443''}. extract_host_port ep =
      takeWhile (\<lambda>c. c \<noteq> CHR ''/'') (without_scheme ep) @ port" for ep
    by (simp add: extract_host_port_def split_char_hd Let_def)
  ultimately show ?thesis
    using extract_host_port_colon extract_host_port_no_slash by metis
qed

text \<open>
  Only absolute endpoints can match: a route whose request endpoint starts with neither
  \<open>http://\<close> nor \<open>https://\<close>, such as \<open>/api\<close> or \<open>host:80/x\<close>, matches no request at all, unless it is
  one of the beginnings \<open>http:\<close>, \<open>http:/\<close>, \<open>https:\<close>, \<open>https:/\<close> or a beginning without colon and
  slash, which the parser refuses.
\<close>

lemma relative_endpoint_never_matches:
  assumes "route_matches route host path"
    and "CHR '':'' \<in> set (rt_request_endpoint route) \<or> CHR ''/'' \<in> set (rt_request_endpoint route)"
  shows "starts_with (rt_request_endpoint route) ''http://'' \<or>
    starts_with (rt_request_endpoint route) ''https://'' \<or>
    rt_request_endpoint route \<in> {''http:'', ''http:/'', ''https:'', ''https:/''}"
proof -
  let ?ep = "rt_request_endpoint route"
  have prefix: "starts_with ep p \<or> ep \<in> set (prefixes p)" if "starts_with (p @ u) ep" for ep p u :: string
    using that by (auto simp: starts_with_iff append_eq_append_conv2 in_set_prefixes prefix_def)
  have "starts_with ?ep ''http://'' \<or> ?ep \<in> set (prefixes ''http://'') \<or>
      starts_with ?ep ''https://'' \<or> ?ep \<in> set (prefixes ''https://'')"
    using assms(1) prefix unfolding route_matches_def by blast
  then show ?thesis using assms(2) by (elim disjE) auto
qed

end
