(* ===== verification/Rust_Time.thy ===== *)
theory Rust_Time
  imports Prelude
begin

text \<open>
  \<open>std::time\<close> as the sources use it. A \<open>Duration\<close> is a number of nanoseconds, an \<open>Instant\<close> the
  number of nanoseconds since the start of the clock. The clock reading is an argument of every
  operation that calls \<open>Instant::now()\<close>; it never decreases along a run.
\<close>

type_synonym Instant = nat
type_synonym Duration = nat

definition from_secs :: "nat \<Rightarrow> Duration" where
  "from_secs n = n * 10 ^ 9"

definition from_millis :: "nat \<Rightarrow> Duration" where
  "from_millis n = n * 10 ^ 6"

definition as_secs :: "Duration \<Rightarrow> nat" where
  "as_secs d = d div 10 ^ 9"

text \<open>The seconds of an \<open>Instant\<close> are an \<open>i64\<close>; \<open>Instant + Duration\<close> panics beyond that range.\<close>

definition instant_max :: Instant where
  "instant_max = 2 ^ 63 * 10 ^ 9 - 1"

definition instant_add :: "Instant \<Rightarrow> Duration \<Rightarrow> Instant option" where
  "instant_add t d = (if t + d \<le> instant_max then Some (t + d) else None)"

text \<open>\<open>now.duration_since(t)\<close> saturates at zero.\<close>

definition duration_since :: "Instant \<Rightarrow> Instant \<Rightarrow> Duration" where
  "duration_since now t = now - t"

lemma instant_add_Some: "instant_add t d = Some u \<longleftrightarrow> u = t + d \<and> t + d \<le> instant_max"
  by (auto simp: instant_add_def)

lemma as_secs_from_secs [simp]: "as_secs (from_secs n) = n"
  by (simp add: as_secs_def from_secs_def)

end
