(* ===== verification/Simulation.thy ===== *)
theory Simulation
  imports Prelude
begin

text \<open>
  Runs of an operation sequence and the simulation argument the components share: if every
  enabled operation gives the specification's answer and keeps the relation between the two
  states, then every enabled sequence of operations gives the specification's answers.
\<close>

fun run :: "('o \<Rightarrow> 's \<Rightarrow> 'a \<times> 's) \<Rightarrow> 'o list \<Rightarrow> 's \<Rightarrow> 'a list \<times> 's" where
  "run step [] s = ([], s)"
| "run step (x # xs) s =
     (let (a, s') = step x s; (as, s'') = run step xs s' in (a # as, s''))"

text \<open>A sequence is enabled if each operation is enabled in the state the specification is in.\<close>

fun enabled_run :: "('h \<Rightarrow> 'o \<Rightarrow> bool) \<Rightarrow> ('o \<Rightarrow> 'h \<Rightarrow> 'a \<times> 'h) \<Rightarrow> 'o list \<Rightarrow> 'h \<Rightarrow> bool" where
  "enabled_run enabled spec [] h = True"
| "enabled_run enabled spec (x # xs) h =
     (enabled h x \<and> enabled_run enabled spec xs (snd (spec x h)))"

lemma run_Cons_proj [simp]:
  "fst (run step (x # xs) s) = fst (step x s) # fst (run step xs (snd (step x s)))"
  "snd (run step (x # xs) s) = snd (run step xs (snd (step x s)))"
  by (simp_all add: Let_def case_prod_beta)

declare run.simps(2) [simp del]

lemma length_run [simp]: "length (fst (run step xs s)) = length xs"
  by (induction xs arbitrary: s) simp_all

lemma run_append_proj:
  "fst (run step (xs @ ys) s) = fst (run step xs s) @ fst (run step ys (snd (run step xs s)))"
  "snd (run step (xs @ ys) s) = snd (run step ys (snd (run step xs s)))"
  by (induction xs arbitrary: s) simp_all

lemma enabled_run_append:
  "enabled_run enabled spec (xs @ ys) h \<longleftrightarrow>
   enabled_run enabled spec xs h \<and> enabled_run enabled spec ys (snd (run spec xs h))"
  by (induction xs arbitrary: h) simp_all

locale simulation =
  fixes impl :: "'o \<Rightarrow> 's \<Rightarrow> 'a \<times> 's"
    and spec :: "'o \<Rightarrow> 'h \<Rightarrow> 'a \<times> 'h"
    and rel :: "'s \<Rightarrow> 'h \<Rightarrow> bool"
    and enabled :: "'h \<Rightarrow> 'o \<Rightarrow> bool"
  assumes answer: "rel s h \<Longrightarrow> enabled h x \<Longrightarrow> fst (impl x s) = fst (spec x h)"
    and step_rel: "rel s h \<Longrightarrow> enabled h x \<Longrightarrow> rel (snd (impl x s)) (snd (spec x h))"
begin

lemma run_rel:
  "rel s h \<Longrightarrow> enabled_run enabled spec xs h \<Longrightarrow> rel (snd (run impl xs s)) (snd (run spec xs h))"
  by (induction xs arbitrary: s h) (simp_all add: step_rel)

lemma run_refines:
  "rel s h \<Longrightarrow> enabled_run enabled spec xs h \<Longrightarrow> fst (run impl xs s) = fst (run spec xs h)"
  by (induction xs arbitrary: s h) (simp_all add: answer step_rel)

end

end
