(* ===== verification/Security.thy ===== *)
theory Security
  imports Config Rust_Time Simulation
begin

text \<open>
  The security manager of \<open>src/src/security.rs\<close>: per-address rate limiting and the blacklist fed by
  failed TLS handshakes. The mutex around the inner state is a flag that a panic under the lock
  sets; every operation panics once it is set. Log lines are not part of the state.
\<close>

section \<open>State\<close>

definition ROLLING_WINDOW :: Duration where "ROLLING_WINDOW = from_secs 60"
definition DEFAULT_MAX_TLS_FAILURES :: nat where "DEFAULT_MAX_TLS_FAILURES = 5"
definition DEFAULT_BAN_DURATION :: Duration where "DEFAULT_BAN_DURATION = from_secs 3600"
definition DEFAULT_RATE_LIMIT_RPM :: nat where "DEFAULT_RATE_LIMIT_RPM = 60"

type_synonym tracker = "IpAddr \<rightharpoonup> Instant list"

record SecurityManager =
  tls_failures :: tracker
  request_tracker :: tracker
  blacklist :: "IpAddr \<rightharpoonup> Instant"
  ban_duration :: Duration
  max_tls_failures :: nat
  rate_limit_rpm :: nat
  sm_poisoned :: bool

definition security_new :: "Duration \<Rightarrow> nat \<Rightarrow> nat \<Rightarrow> SecurityManager" where
  "security_new ban max_failures rpm =
     \<lparr>tls_failures = Map.empty, request_tracker = Map.empty, blacklist = Map.empty,
      ban_duration = ban, max_tls_failures = max_failures, rate_limit_rpm = rpm,
      sm_poisoned = False\<rparr>"

definition security_default :: SecurityManager where
  "security_default = security_new DEFAULT_BAN_DURATION DEFAULT_MAX_TLS_FAILURES DEFAULT_RATE_LIMIT_RPM"

definition from_security_config :: "SecurityConfig option \<Rightarrow> SecurityManager" where
  "from_security_config sec =
     (case sec of
        Some s \<Rightarrow> security_new (from_secs (sec_ban_duration_sec s)) (sec_max_tls_failures s) (sec_rate_limit_rpm s)
      | None \<Rightarrow> security_default)"

section \<open>Operations\<close>

definition in_window :: "Instant \<Rightarrow> Instant \<Rightarrow> bool" where
  "in_window now t = (duration_since now t \<le> ROLLING_WINDOW)"

definition retain_recent :: "Instant \<Rightarrow> tracker \<Rightarrow> tracker" where
  "retain_recent now tr =
     map_retain (\<lambda>ts. let ts' = filter (in_window now) ts in if ts' = [] then None else Some ts') tr"

definition cleanup :: "Instant \<Rightarrow> SecurityManager \<Rightarrow> SecurityManager" where
  "cleanup now m =
     m\<lparr>blacklist := map_retain (\<lambda>banned_until. if now < banned_until then Some banned_until else None) (blacklist m),
       tls_failures := retain_recent now (tls_failures m),
       request_tracker := retain_recent now (request_tracker m)\<rparr>"

text \<open>\<open>entry(ip).or_default()\<close>, then drop the old timestamps, push this one and count.\<close>

definition track :: "Instant \<Rightarrow> IpAddr \<Rightarrow> tracker \<Rightarrow> nat \<times> tracker" where
  "track now ip tr =
     (let ts = filter (in_window now) (unwrap_or (tr ip) []) @ [now] in (length ts, tr(ip \<mapsto> ts)))"

definition locked :: "(SecurityManager \<Rightarrow> 'a outcome \<times> SecurityManager) \<Rightarrow> SecurityManager \<Rightarrow> 'a outcome \<times> SecurityManager" where
  "locked body m = (if sm_poisoned m then (Panicked, m) else body m)"

definition record_tls_failure :: "Instant \<Rightarrow> IpAddr \<Rightarrow> SecurityManager \<Rightarrow> bool outcome \<times> SecurityManager" where
  "record_tls_failure now ip = locked (\<lambda>m0.
     let m1 = cleanup now m0;
         (failure_count, failures) = track now ip (tls_failures m1);
         m2 = m1\<lparr>tls_failures := failures\<rparr>
     in if failure_count > max_tls_failures m2
        then (case instant_add now (ban_duration m2) of
                None \<Rightarrow> (Panicked, m2\<lparr>sm_poisoned := True\<rparr>)
              | Some banned_until \<Rightarrow>
                  (Returned True, m2\<lparr>blacklist := (blacklist m2)(ip \<mapsto> banned_until)\<rparr>))
        else (Returned False, m2))"

definition check_and_record_request ::
  "Instant \<Rightarrow> IpAddr \<Rightarrow> SecurityManager \<Rightarrow> (nat + nat) outcome \<times> SecurityManager" where
  "check_and_record_request now ip = locked (\<lambda>m0.
     let m1 = cleanup now m0;
         limit = rate_limit_rpm m1
     in if limit = 0 then (Returned (Inr 0), m1)
        else (let (count, requests) = track now ip (request_tracker m1);
                  m2 = m1\<lparr>request_tracker := requests\<rparr>
              in (Returned (if count > limit then Inl count else Inr count), m2)))"

definition is_blacklisted :: "Instant \<Rightarrow> IpAddr \<Rightarrow> SecurityManager \<Rightarrow> bool outcome \<times> SecurityManager" where
  "is_blacklisted now ip = locked (\<lambda>m.
     case blacklist m ip of
       None \<Rightarrow> (Returned False, m)
     | Some banned_until \<Rightarrow>
         (if now < banned_until then (Returned True, m)
          else (Returned False, m\<lparr>blacklist := (blacklist m)(ip := None)\<rparr>)))"

definition get_tls_failure_count :: "Instant \<Rightarrow> IpAddr \<Rightarrow> SecurityManager \<Rightarrow> nat outcome \<times> SecurityManager" where
  "get_tls_failure_count now ip = locked (\<lambda>m.
     case tls_failures m ip of
       None \<Rightarrow> (Returned 0, m)
     | Some ts \<Rightarrow>
         (let failures = filter (in_window now) ts; count = length failures
          in (Returned count,
              m\<lparr>tls_failures := (tls_failures m)(ip := (if count = 0 then None else Some failures))\<rparr>)))"

definition add_to_blacklist :: "Instant \<Rightarrow> IpAddr \<Rightarrow> SecurityManager \<Rightarrow> unit outcome \<times> SecurityManager" where
  "add_to_blacklist now ip = locked (\<lambda>m.
     case instant_add now (ban_duration m) of
       None \<Rightarrow> (Panicked, m\<lparr>sm_poisoned := True\<rparr>)
     | Some banned_until \<Rightarrow> (Returned (), m\<lparr>blacklist := (blacklist m)(ip \<mapsto> banned_until)\<rparr>))"

section \<open>Specification\<close>

text \<open>
  The specification never forgets: it logs every failure, every counted request and every ban
  with its time, and answers from the logs. The time window and the end of a ban are computed
  at the time of the question.
\<close>

type_synonym event_log = "(Instant \<times> IpAddr) list"

record history =
  clock :: Instant
  failure_log :: event_log
  request_log :: event_log
  ban_log :: event_log
  spec_ban :: Duration
  spec_max_failures :: nat
  spec_rpm :: nat

definition history_new :: "Duration \<Rightarrow> nat \<Rightarrow> nat \<Rightarrow> history" where
  "history_new ban max_failures rpm =
     \<lparr>clock = 0, failure_log = [], request_log = [], ban_log = [], spec_ban = ban,
      spec_max_failures = max_failures, spec_rpm = rpm\<rparr>"

definition logged :: "event_log \<Rightarrow> IpAddr \<Rightarrow> Instant list" where
  "logged l ip = map fst (filter (\<lambda>e. snd e = ip) l)"

definition count_recent :: "Instant \<Rightarrow> event_log \<Rightarrow> IpAddr \<Rightarrow> nat" where
  "count_recent now l ip = length (filter (in_window now) (logged l ip))"

definition banned :: "Duration \<Rightarrow> Instant \<Rightarrow> event_log \<Rightarrow> IpAddr \<Rightarrow> bool" where
  "banned ban now l ip = list_ex (\<lambda>t. now < t + ban) (logged l ip)"

datatype sec_op =
    RecordTlsFailure IpAddr
  | CheckAndRecordRequest IpAddr
  | IsBlacklisted IpAddr
  | GetTlsFailureCount IpAddr
  | AddToBlacklist IpAddr

datatype sec_answer = Verdict bool | Limit "nat + nat" | Count nat | Done

fun sec_spec :: "Instant \<times> sec_op \<Rightarrow> history \<Rightarrow> sec_answer outcome \<times> history" where
  "sec_spec (now, RecordTlsFailure ip) h =
     (let fs = failure_log h @ [(now, ip)]; trip = count_recent now fs ip > spec_max_failures h
      in (Returned (Verdict trip),
          h\<lparr>clock := now, failure_log := fs,
            ban_log := ban_log h @ (if trip then [(now, ip)] else [])\<rparr>))"
| "sec_spec (now, CheckAndRecordRequest ip) h =
     (if spec_rpm h = 0 then (Returned (Limit (Inr 0)), h\<lparr>clock := now\<rparr>)
      else (let rs = request_log h @ [(now, ip)]; n = count_recent now rs ip
            in (Returned (Limit (if n > spec_rpm h then Inl n else Inr n)),
                h\<lparr>clock := now, request_log := rs\<rparr>)))"
| "sec_spec (now, IsBlacklisted ip) h =
     (Returned (Verdict (banned (spec_ban h) now (ban_log h) ip)), h\<lparr>clock := now\<rparr>)"
| "sec_spec (now, GetTlsFailureCount ip) h =
     (Returned (Count (count_recent now (failure_log h) ip)), h\<lparr>clock := now\<rparr>)"
| "sec_spec (now, AddToBlacklist ip) h =
     (Returned Done, h\<lparr>clock := now, ban_log := ban_log h @ [(now, ip)]\<rparr>)"

text \<open>The clock does not go back, and a ban that starts now ends within the range of an instant.\<close>

definition sec_enabled :: "history \<Rightarrow> Instant \<times> sec_op \<Rightarrow> bool" where
  "sec_enabled h x \<longleftrightarrow> clock h \<le> fst x \<and> fst x + spec_ban h \<le> instant_max"

text \<open>The manager's operations as one step function.\<close>

fun answer_with :: "('a \<Rightarrow> 'b) \<Rightarrow> 'a outcome \<times> 's \<Rightarrow> 'b outcome \<times> 's" where
  "answer_with f (Returned x, s) = (Returned (f x), s)"
| "answer_with f (Panicked, s) = (Panicked, s)"

fun sec_step :: "Instant \<times> sec_op \<Rightarrow> SecurityManager \<Rightarrow> sec_answer outcome \<times> SecurityManager" where
  "sec_step (now, RecordTlsFailure ip) m = answer_with Verdict (record_tls_failure now ip m)"
| "sec_step (now, CheckAndRecordRequest ip) m = answer_with Limit (check_and_record_request now ip m)"
| "sec_step (now, IsBlacklisted ip) m = answer_with Verdict (is_blacklisted now ip m)"
| "sec_step (now, GetTlsFailureCount ip) m = answer_with Count (get_tls_failure_count now ip m)"
| "sec_step (now, AddToBlacklist ip) m = answer_with (\<lambda>_. Done) (add_to_blacklist now ip m)"

section \<open>Trackers and logs\<close>

text \<open>
  A tracker represents a log from a time on: no later question about the window can tell them
  apart.
\<close>

definition represents :: "Instant \<Rightarrow> tracker \<Rightarrow> event_log \<Rightarrow> bool" where
  "represents t0 tr l \<longleftrightarrow>
     (\<forall>now ip. t0 \<le> now \<longrightarrow>
        filter (in_window now) (unwrap_or (tr ip) []) = filter (in_window now) (logged l ip))"

lemma in_window_mono: "in_window now t \<Longrightarrow> now' \<le> now \<Longrightarrow> in_window now' t"
  by (simp add: in_window_def duration_since_def)

lemma filter_window:
  "now' \<le> now \<Longrightarrow> filter (in_window now) (filter (in_window now') ts) = filter (in_window now) ts"
  by (induction ts) (auto dest: in_window_mono)

lemma in_window_now [simp]: "in_window now now"
  by (simp add: in_window_def duration_since_def)

lemma logged_append: "logged (l @ [(t, ip')]) ip = logged l ip @ (if ip' = ip then [t] else [])"
  by (simp add: logged_def)

lemma represents_empty [simp]: "represents t0 Map.empty []"
  by (simp add: represents_def logged_def)

lemma represents_later: "represents t0 tr l \<Longrightarrow> t0 \<le> t1 \<Longrightarrow> represents t1 tr l"
  by (simp add: represents_def)

lemma unwrap_retain_recent:
  "unwrap_or (retain_recent now tr ip) [] = filter (in_window now) (unwrap_or (tr ip) [])"
  by (auto simp: retain_recent_def Let_def split: option.splits)

lemma represents_retain:
  "represents t0 tr l \<Longrightarrow> t0 \<le> now \<Longrightarrow> represents now (retain_recent now tr) l"
  by (simp add: represents_def unwrap_retain_recent filter_window del: filter_filter)

lemma represents_window:
  "represents now tr l \<Longrightarrow> filter (in_window now) (unwrap_or (tr ip) []) = filter (in_window now) (logged l ip)"
  by (simp add: represents_def)

lemma represents_track:
  assumes "represents now tr l"
  shows "represents now (snd (track now ip tr)) (l @ [(now, ip)])"
  using assms
  by (auto simp: represents_def track_def logged_append filter_window Let_def simp del: filter_filter)

lemma track_count:
  "represents now tr l \<Longrightarrow> fst (track now ip tr) = count_recent now (l @ [(now, ip)]) ip"
  by (simp add: track_def count_recent_def logged_append represents_window Let_def)

lemma represents_update:
  assumes "represents now tr l" and "unwrap_or v [] = filter (in_window now) (unwrap_or (tr ip) [])"
  shows "represents now (tr(ip := v)) l"
  using assms by (auto simp: represents_def filter_window simp del: filter_filter)

text \<open>
  A blacklist represents a log of bans: it keeps the end of the latest ban, and no ban in the log
  ends later.
\<close>

definition represents_bans :: "Duration \<Rightarrow> Instant \<Rightarrow> (IpAddr \<rightharpoonup> Instant) \<Rightarrow> event_log \<Rightarrow> bool" where
  "represents_bans ban t0 bl l \<longleftrightarrow>
     list_all (\<lambda>e. fst e \<le> t0) l \<and>
     (\<forall>now ip. t0 \<le> now \<longrightarrow> (\<exists>u. bl ip = Some u \<and> now < u) = banned ban now l ip)"

lemma represents_bans_empty [simp]: "represents_bans ban t0 Map.empty []"
  by (simp add: represents_bans_def banned_def logged_def)

lemma represents_bans_later: "represents_bans ban t0 bl l \<Longrightarrow> t0 \<le> t1 \<Longrightarrow> represents_bans ban t1 bl l"
  by (auto simp: represents_bans_def list_all_iff)

lemma represents_bans_cong:
  assumes "represents_bans ban now bl l"
    and "\<And>t ip. now \<le> t \<Longrightarrow> (\<exists>u. bl' ip = Some u \<and> t < u) = (\<exists>u. bl ip = Some u \<and> t < u)"
  shows "represents_bans ban now bl' l"
  using assms by (simp add: represents_bans_def)

lemma represents_bans_cleanup:
  assumes "represents_bans ban now bl l"
  shows "represents_bans ban now (map_retain (\<lambda>u. if now < u then Some u else None) bl) l"
  using assms by (rule represents_bans_cong) (auto split: option.splits)

lemma represents_bans_remove:
  assumes "represents_bans ban now bl l" and "bl ip = Some u" and "\<not> now < u"
  shows "represents_bans ban now (bl(ip := None)) l"
  using assms(1) by (rule represents_bans_cong) (use assms(2,3) in auto)

lemma represents_bans_insert:
  assumes "represents_bans ban now bl l"
  shows "represents_bans ban now (bl(ip \<mapsto> now + ban)) (l @ [(now, ip)])"
proof -
  have "t \<le> now" if "t \<in> set (logged l ip)" for t ip
    using assms that by (auto simp: represents_bans_def logged_def list_all_iff)
  then have "t' < t + ban \<Longrightarrow> t \<in> set (logged l ip) \<Longrightarrow> t' < now + ban" for t' t ip
    by (meson add_le_mono1 order_less_le_trans)
  then show ?thesis
    using assms by (auto simp: represents_bans_def banned_def logged_append list_ex_iff)
qed

lemma represents_bans_lookup:
  "represents_bans ban now bl l \<Longrightarrow> banned ban now l ip = (\<exists>u. bl ip = Some u \<and> now < u)"
  by (simp add: represents_bans_def)

section \<open>Simulation\<close>

definition sec_rel :: "SecurityManager \<Rightarrow> history \<Rightarrow> bool" where
  "sec_rel m h \<longleftrightarrow>
     \<not> sm_poisoned m \<and> ban_duration m = spec_ban h \<and> max_tls_failures m = spec_max_failures h \<and>
     rate_limit_rpm m = spec_rpm h \<and>
     represents (clock h) (tls_failures m) (failure_log h) \<and>
     represents (clock h) (request_tracker m) (request_log h) \<and>
     represents_bans (spec_ban h) (clock h) (blacklist m) (ban_log h)"

lemma sec_rel_new: "sec_rel (security_new ban mx rpm) (history_new ban mx rpm)"
  by (simp add: sec_rel_def security_new_def history_new_def)

lemma sec_rel_tick: "sec_rel m h \<Longrightarrow> clock h \<le> now \<Longrightarrow> sec_rel m (h\<lparr>clock := now\<rparr>)"
  by (auto simp: sec_rel_def intro: represents_later represents_bans_later)

lemma sec_rel_cleanup: "sec_rel m h \<Longrightarrow> clock h = now \<Longrightarrow> sec_rel (cleanup now m) h"
  by (auto simp: sec_rel_def cleanup_def intro: represents_retain represents_bans_cleanup)

lemma sec_rel_now:
  assumes "sec_rel m h" and "clock h \<le> now"
  shows "sec_rel (cleanup now m) (h\<lparr>clock := now\<rparr>)"
  by (rule sec_rel_cleanup) (simp_all add: sec_rel_tick assms)

lemma sec_sim_failure:
  assumes "sec_rel m h" and "sec_enabled h (now, RecordTlsFailure ip)"
  shows "fst (sec_step (now, RecordTlsFailure ip) m) = fst (sec_spec (now, RecordTlsFailure ip) h) \<and>
    sec_rel (snd (sec_step (now, RecordTlsFailure ip) m)) (snd (sec_spec (now, RecordTlsFailure ip) h))"
proof -
  have r: "sec_rel (cleanup now m) (h\<lparr>clock := now\<rparr>)"
    using assms by (simp add: sec_rel_now sec_enabled_def)
  then have f: "represents now (tls_failures (cleanup now m)) (failure_log h)"
    and b: "represents_bans (spec_ban h) now (blacklist (cleanup now m)) (ban_log h)"
    by (simp_all add: sec_rel_def)
  obtain n fs where t: "track now ip (tls_failures (cleanup now m)) = (n, fs)" by fastforce
  have "\<not> sm_poisoned m" "now + spec_ban h \<le> instant_max"
    using assms by (simp_all add: sec_rel_def sec_enabled_def)
  then show ?thesis
    using r t track_count [OF f, of ip] represents_track [OF f, of ip] represents_bans_insert [OF b, of ip]
    by (auto simp: record_tls_failure_def locked_def sec_rel_def instant_add_def Let_def)
qed


lemma sec_sim_request:
  assumes "sec_rel m h" and "sec_enabled h (now, CheckAndRecordRequest ip)"
  shows "fst (sec_step (now, CheckAndRecordRequest ip) m) = fst (sec_spec (now, CheckAndRecordRequest ip) h) \<and>
    sec_rel (snd (sec_step (now, CheckAndRecordRequest ip) m)) (snd (sec_spec (now, CheckAndRecordRequest ip) h))"
proof -
  have r: "sec_rel (cleanup now m) (h\<lparr>clock := now\<rparr>)"
    using assms by (simp add: sec_rel_now sec_enabled_def)
  then have f: "represents now (request_tracker (cleanup now m)) (request_log h)"
    by (simp add: sec_rel_def)
  obtain n fs where t: "track now ip (request_tracker (cleanup now m)) = (n, fs)" by fastforce
  have "\<not> sm_poisoned m" using assms by (simp add: sec_rel_def)
  then show ?thesis
    using r t track_count [OF f, of ip] represents_track [OF f, of ip]
    by (auto simp: check_and_record_request_def locked_def sec_rel_def Let_def)
qed

lemma sec_sim_query:
  assumes "sec_rel m h" and "sec_enabled h (now, IsBlacklisted ip)"
  shows "fst (sec_step (now, IsBlacklisted ip) m) = fst (sec_spec (now, IsBlacklisted ip) h) \<and>
    sec_rel (snd (sec_step (now, IsBlacklisted ip) m)) (snd (sec_spec (now, IsBlacklisted ip) h))"
proof -
  have r: "sec_rel m (h\<lparr>clock := now\<rparr>)"
    using assms by (simp add: sec_rel_tick sec_enabled_def)
  then have b: "represents_bans (spec_ban h) now (blacklist m) (ban_log h)" by (simp add: sec_rel_def)
  show ?thesis
    using r represents_bans_lookup [OF b, of ip] represents_bans_remove [OF b, of ip]
    by (auto simp: is_blacklisted_def locked_def sec_rel_def split: option.splits)
qed

lemma sec_sim_count:
  assumes "sec_rel m h" and "sec_enabled h (now, GetTlsFailureCount ip)"
  shows "fst (sec_step (now, GetTlsFailureCount ip) m) = fst (sec_spec (now, GetTlsFailureCount ip) h) \<and>
    sec_rel (snd (sec_step (now, GetTlsFailureCount ip) m)) (snd (sec_spec (now, GetTlsFailureCount ip) h))"
proof -
  have r: "sec_rel m (h\<lparr>clock := now\<rparr>)"
    using assms by (simp add: sec_rel_tick sec_enabled_def)
  then have f: "represents now (tls_failures m) (failure_log h)" by (simp add: sec_rel_def)
  have p: "represents now ((tls_failures m)(ip := v)) (failure_log h)"
    if "tls_failures m ip = Some ts" "unwrap_or v [] = filter (in_window now) ts" for v ts
    using that by (intro represents_update [OF f]) simp
  show ?thesis
    using r represents_window [OF f, of ip] p [of _ None] p [of _ "Some (filter (in_window now) _)"]
    by (auto simp: get_tls_failure_count_def locked_def sec_rel_def count_recent_def Let_def split: option.splits)
qed

lemma sec_sim_ban:
  assumes "sec_rel m h" and "sec_enabled h (now, AddToBlacklist ip)"
  shows "fst (sec_step (now, AddToBlacklist ip) m) = fst (sec_spec (now, AddToBlacklist ip) h) \<and>
    sec_rel (snd (sec_step (now, AddToBlacklist ip) m)) (snd (sec_spec (now, AddToBlacklist ip) h))"
proof -
  have r: "sec_rel m (h\<lparr>clock := now\<rparr>)"
    using assms by (simp add: sec_rel_tick sec_enabled_def)
  then have b: "represents_bans (spec_ban h) now (blacklist m) (ban_log h)" by (simp add: sec_rel_def)
  show ?thesis
    using r assms(2) represents_bans_insert [OF b, of ip]
    by (auto simp: add_to_blacklist_def locked_def sec_rel_def sec_enabled_def instant_add_def)
qed

lemmas sec_sim = sec_sim_failure sec_sim_request sec_sim_query sec_sim_count sec_sim_ban

interpretation manager: simulation sec_step sec_spec sec_rel sec_enabled
proof
  fix m h and x :: "Instant \<times> sec_op"
  assume *: "sec_rel m h" "sec_enabled h x"
  obtain now op where x: "x = (now, op)" by fastforce
  from * show "fst (sec_step x m) = fst (sec_spec x h)"
    unfolding x by (cases op) (use sec_sim in blast)+
  from * show "sec_rel (snd (sec_step x m)) (snd (sec_spec x h))"
    unfolding x by (cases op) (use sec_sim in blast)+
qed

section \<open>Properties\<close>

text \<open>
  C7: the manager, which forgets old timestamps and expired bans whenever it is called, answers every
  sequence of calls exactly like the specification that keeps the whole history, as long as the
  clock does not go back and bans end within the range of an \<open>Instant\<close>.
\<close>

theorem security_manager_refines:
  assumes "enabled_run sec_enabled sec_spec xs (history_new ban mx rpm)"
  shows "fst (run sec_step xs (security_new ban mx rpm)) = fst (run sec_spec xs (history_new ban mx rpm))"
  using sec_rel_new assms by (rule manager.run_refines)

lemma instant_max_value: "instant_max = 9223372036854775807999999999"
  by (simp add: instant_max_def)

lemmas sec_eval = sec_enabled_def history_new_def instant_max_value count_recent_def logged_def
  in_window_def duration_since_def ROLLING_WINDOW_def from_secs_def banned_def run.simps Let_def

definition example_calls :: "IpAddr \<Rightarrow> (Instant \<times> sec_op) list" where
  "example_calls ip =
     [(0, RecordTlsFailure ip), (10, RecordTlsFailure ip), (20, IsBlacklisted ip),
      (2000, IsBlacklisted ip), (2000, CheckAndRecordRequest ip), (2001, CheckAndRecordRequest ip)]"

theorem security_manager_refines_witness:
  "fst (run sec_step (example_calls (V4 1 2 3 4)) (security_new 1000 1 1)) =
     [Returned (Verdict False), Returned (Verdict True), Returned (Verdict True),
      Returned (Verdict False), Returned (Limit (Inr 1)), Returned (Limit (Inl 2))]"
  using security_manager_refines [of "example_calls (V4 1 2 3 4)" 1000 1 1]
  by (simp add: example_calls_def sec_eval)

text \<open>The logs of the specification, read off the sequence of calls.\<close>

definition calls_within :: "sec_op \<Rightarrow> Instant \<Rightarrow> (Instant \<times> sec_op) list \<Rightarrow> nat" where
  "calls_within op now xs = length (filter (\<lambda>(t, op'). op' = op \<and> now - t \<le> 60 * 10 ^ 9) xs)"

lemma spec_limits:
  "spec_ban (snd (run sec_spec xs h)) = spec_ban h \<and>
   spec_max_failures (snd (run sec_spec xs h)) = spec_max_failures h \<and>
   spec_rpm (snd (run sec_spec xs h)) = spec_rpm h"
proof (induction xs arbitrary: h)
  case (Cons x xs)
  obtain now op where "x = (now, op)" by fastforce
  then show ?case using Cons by (cases op) (simp_all add: Let_def)
qed simp

lemma count_recent_Nil [simp]: "count_recent now [] ip = 0"
  by (simp add: count_recent_def logged_def)

lemma history_new_sel [simp]:
  "request_log (history_new ban mx rpm) = []" "failure_log (history_new ban mx rpm) = []"
  "ban_log (history_new ban mx rpm) = []" "spec_rpm (history_new ban mx rpm) = rpm"
  "spec_ban (history_new ban mx rpm) = ban" "spec_max_failures (history_new ban mx rpm) = mx"
  by (simp_all add: history_new_def)

lemma count_recent_append:
  "count_recent now (l @ l') ip = count_recent now l ip + count_recent now l' ip"
  by (simp add: count_recent_def logged_def)

lemma count_recent_single: "count_recent now [(t, ip')] ip = (if ip' = ip \<and> in_window now t then 1 else 0)"
  by (simp add: count_recent_def logged_def)

lemma in_window_secs: "in_window now t \<longleftrightarrow> now - t \<le> 60 * 10 ^ 9"
  by (simp add: in_window_def duration_since_def ROLLING_WINDOW_def from_secs_def)

lemma spec_requests:
  assumes "0 < spec_rpm h"
  shows "count_recent now (request_log (snd (run sec_spec xs h))) ip =
    count_recent now (request_log h) ip + calls_within (CheckAndRecordRequest ip) now xs"
  using assms
proof (induction xs arbitrary: h)
  case Nil
  then show ?case by (simp add: calls_within_def)
next
  case (Cons x xs)
  obtain t op where "x = (t, op)" by fastforce
  then show ?case
    using Cons by (cases op)
      (simp_all add: calls_within_def count_recent_append count_recent_single in_window_secs Let_def)
qed

lemma spec_failures:
  "count_recent now (failure_log (snd (run sec_spec xs h))) ip =
   count_recent now (failure_log h) ip + calls_within (RecordTlsFailure ip) now xs"
proof (induction xs arbitrary: h)
  case Nil
  then show ?case by (simp add: calls_within_def)
next
  case (Cons x xs)
  obtain t op where "x = (t, op)" by fastforce
  then show ?case
    using Cons by (cases op)
      (simp_all add: calls_within_def count_recent_append count_recent_single in_window_secs Let_def)
qed

text \<open>
  The rate limit is a sliding window: after any sequence of calls, a request of an address is
  rejected exactly if this request and the earlier requests of that address within the last 60
  seconds, rejected ones included, are more than the limit, and the reported count is theirs.
\<close>

lemma rate_limit_sliding_window:
  assumes "0 < rpm"
    and "enabled_run sec_enabled sec_spec (xs @ [(now, CheckAndRecordRequest ip)]) (history_new ban mx rpm)"
    and "n = Suc (calls_within (CheckAndRecordRequest ip) now xs)"
  shows "last (fst (run sec_step (xs @ [(now, CheckAndRecordRequest ip)]) (security_new ban mx rpm))) =
    Returned (Limit (if n > rpm then Inl n else Inr n))"
  using assms spec_requests [of "history_new ban mx rpm" now xs ip] spec_limits [of xs "history_new ban mx rpm"]
  unfolding manager.run_refines [OF sec_rel_new assms(2)]
  by (simp add: run_append_proj Let_def count_recent_append count_recent_single)

text \<open>
  The calls that put an address on the blacklist: the explicit ones, and the failed handshakes
  that exceed the limit within 60 seconds.
\<close>

definition bans_at :: "nat \<Rightarrow> IpAddr \<Rightarrow> (Instant \<times> sec_op) list \<Rightarrow> nat \<Rightarrow> bool" where
  "bans_at mx ip xs i \<longleftrightarrow>
     snd (xs ! i) = AddToBlacklist ip \<or>
     snd (xs ! i) = RecordTlsFailure ip \<and>
       mx < Suc (calls_within (RecordTlsFailure ip) (fst (xs ! i)) (take i xs))"

lemma banned_append: "banned ban now (l @ l') ip \<longleftrightarrow> banned ban now l ip \<or> banned ban now l' ip"
  by (simp add: banned_def logged_def)

lemma banned_single: "banned ban now [(t, ip')] ip \<longleftrightarrow> ip' = ip \<and> now < t + ban"
  by (simp add: banned_def logged_def)

lemma bans_at_append: "i < length xs \<Longrightarrow> bans_at mx ip (xs @ ys) i = bans_at mx ip xs i"
  by (simp add: bans_at_def nth_append)

lemma spec_bans:
  "banned ban now (ban_log (snd (run sec_spec xs (history_new ban mx rpm)))) ip \<longleftrightarrow>
   (\<exists>i < length xs. bans_at mx ip xs i \<and> now < fst (xs ! i) + ban)"
proof (induction xs rule: rev_induct)
  case Nil
  then show ?case by (simp add: banned_def logged_def)
next
  case (snoc x xs)
  let ?h = "snd (run sec_spec xs (history_new ban mx rpm))"
  obtain t op where x: "x = (t, op)" by fastforce
  have "banned ban now (ban_log (snd (sec_spec x ?h))) ip \<longleftrightarrow>
      banned ban now (ban_log ?h) ip \<or> bans_at mx ip (xs @ [x]) (length xs) \<and> now < t + ban"
    using spec_failures [of t xs "history_new ban mx rpm"] spec_limits [of xs "history_new ban mx rpm"]
    by (cases op)
       (auto simp: x bans_at_def banned_append banned_single count_recent_append count_recent_single
         banned_def [of _ _ "[]"] logged_def [of "[]"] Let_def)
  then show ?case
    using snoc by (auto simp: run_append_proj less_Suc_eq nth_append bans_at_append x)
qed

text \<open>
  An address is reported as blacklisted exactly while a ban lasts: at some earlier call it was
  put on the blacklist explicitly, or a failed handshake of it was more than the allowed number
  within 60 seconds, and since that call less than the ban duration has passed.
\<close>

lemma blacklist_exact:
  assumes "enabled_run sec_enabled sec_spec (xs @ [(now, IsBlacklisted ip)]) (history_new ban mx rpm)"
  shows "last (fst (run sec_step (xs @ [(now, IsBlacklisted ip)]) (security_new ban mx rpm))) =
    Returned (Verdict (\<exists>i < length xs. bans_at mx ip xs i \<and> now < fst (xs ! i) + ban))"
  using spec_bans [of ban now xs mx rpm ip] spec_limits [of xs "history_new ban mx rpm"]
  unfolding manager.run_refines [OF sec_rel_new assms]
  by (simp add: run_append_proj)

text \<open>A tracker without stale timestamps and without empty entries.\<close>

definition all_recent :: "Instant \<Rightarrow> tracker \<Rightarrow> bool" where
  "all_recent now tr \<longleftrightarrow> (\<forall>ip ts. tr ip = Some ts \<longrightarrow> ts \<noteq> [] \<and> list_all (\<lambda>t. now - t \<le> 60 * 10 ^ 9) ts)"

lemma all_recent_retain: "all_recent now (retain_recent now tr)"
  by (auto simp: all_recent_def retain_recent_def Let_def list_all_iff in_window_secs
      split: option.splits if_splits)

lemma all_recent_track: "all_recent now tr \<Longrightarrow> all_recent now (snd (track now ip tr))"
  by (auto simp: all_recent_def track_def Let_def list_all_iff in_window_secs)

text \<open>
  The manager forgets: after a request was checked, every remembered address has at least one
  timestamp, all remembered timestamps are at most 60 seconds old, and no expired ban is kept, so
  that the memory in use is bounded by the traffic of the last minute and the bans in force.
\<close>

lemma check_request_forgets:
  assumes "check_and_record_request now ip m = (Returned r, m')"
  shows "all_recent now (request_tracker m') \<and> all_recent now (tls_failures m') \<and>
    (\<forall>ip' u. blacklist m' ip' = Some u \<longrightarrow> now < u)"
proof -
  note r = all_recent_retain [of now "request_tracker m"] all_recent_retain [of now "tls_failures m"]
  show ?thesis
    using assms r all_recent_track [OF r(1), of ip]
    by (auto simp: check_and_record_request_def locked_def cleanup_def Let_def
        split: if_splits prod.splits option.splits)
qed

text \<open>
  C38: a ban duration of \<open>2^63\<close> seconds or more, which the configuration parser accepts, takes the
  manager down: the handshake failure that should start the first ban panics while the lock is
  held, and from then on every call of any kind panics.
\<close>

theorem ban_overflow_poisons:
  assumes "ban_duration m = from_secs n" and "2 ^ 63 \<le> n" and "\<not> sm_poisoned m"
    and "max_tls_failures m < fst (track now ip (tls_failures (cleanup now m)))"
  shows "fst (record_tls_failure now ip m) = Panicked \<and>
    fst (run sec_step xs (snd (record_tls_failure now ip m))) = replicate (length xs) Panicked"
proof -
  let ?m' = "snd (record_tls_failure now ip m)"
  have "instant_max < now + from_secs n"
    using assms(2) by (simp add: instant_max_value from_secs_def)
  then have "fst (record_tls_failure now ip m) = Panicked \<and> sm_poisoned ?m'"
    using assms
    by (auto simp: record_tls_failure_def locked_def instant_add_def cleanup_def Let_def split: prod.splits)
  moreover have "sec_step x m2 = (Panicked, m2)" if "sm_poisoned m2" for x m2
  proof -
    obtain t op where "x = (t, op)" by fastforce
    then show ?thesis
      using that by (cases op)
        (simp_all add: record_tls_failure_def check_and_record_request_def is_blacklisted_def
          get_tls_failure_count_def add_to_blacklist_def locked_def)
  qed
  then have "fst (run sec_step xs m2) = replicate (length xs) Panicked" if "sm_poisoned m2" for m2
    using that by (induction xs arbitrary: m2) simp_all
  ultimately show ?thesis by blast
qed

theorem ban_overflow_poisons_witness:
  "fst (record_tls_failure 7 (V4 1 2 3 4) (security_new (from_secs (2 ^ 63)) 0 60)) = Panicked"
  using ban_overflow_poisons [of "security_new (from_secs (2 ^ 63)) 0 60" "2 ^ 63" 7 "V4 1 2 3 4" "[]"]
  by (simp add: security_new_def cleanup_def track_def retain_recent_def)

end
