(* ===== verification/Lru.thy ===== *)
theory Lru
  imports Prelude
begin

text \<open>
  The interface of the \<open>lru\<close> crate, a dependency of the cache: the operations the cache calls are
  the fields of a record, an argument of every definition that uses them. The locale states the
  documented behaviour in terms of the list of entries, most recently used first. A list of
  entries with a capacity has this behaviour.
\<close>

section \<open>Interface\<close>

record ('c, 'k, 'v) lru_ops =
  lru_new :: "nat \<Rightarrow> 'c"
  lru_get_mut :: "'k \<Rightarrow> 'c \<Rightarrow> 'v option \<times> 'c"
  lru_pop :: "'k \<Rightarrow> 'c \<Rightarrow> 'v option \<times> 'c"
  lru_pop_lru :: "'c \<Rightarrow> ('k \<times> 'v) option \<times> 'c"
  lru_put :: "'k \<Rightarrow> 'v \<Rightarrow> 'c \<Rightarrow> 'v option \<times> 'c"
  lru_len :: "'c \<Rightarrow> nat"
  lru_is_empty :: "'c \<Rightarrow> bool"

definition without_key :: "'k \<Rightarrow> ('k \<times> 'v) list \<Rightarrow> ('k \<times> 'v) list" where
  "without_key k es = filter (\<lambda>e. fst e \<noteq> k) es"

lemma without_key_keys: "distinct (map fst es) \<Longrightarrow> distinct (map fst (without_key k es))"
  by (auto simp: without_key_def distinct_map inj_on_def)

lemma without_key_notin [simp]: "k \<notin> fst ` set (without_key k es)"
  by (auto simp: without_key_def)

lemma length_without_key: "length (without_key k es) \<le> length es"
  by (simp add: without_key_def)

lemma length_without_key_less: "map_of es k = Some v \<Longrightarrow> length (without_key k es) < length es"
  unfolding without_key_def
  by (rule length_filter_less [of "(k, v)"]) (auto dest: map_of_SomeD)

lemma length_without_key_bound:
  "map_of es k = Some v \<Longrightarrow> length es \<le> n \<Longrightarrow> Suc (length (without_key k es)) \<le> n"
  using length_without_key_less [of es k v] by simp

lemma map_of_without_key: "map_of (without_key k es) k' = (if k' = k then None else map_of es k')"
  by (induction es) (auto simp: without_key_def)

lemma without_key_id: "map_of es k = None \<Longrightarrow> without_key k es = es"
  by (induction es) (auto simp: without_key_def split: if_splits)

text \<open>
  \<open>valid c\<close> holds of the caches that the operations build; \<open>entries c\<close> lists the entries, most
  recently used first; \<open>capacity c\<close> is the number the cache was created with. A lookup by
  \<open>get_mut\<close> makes the entry the most recently used one; \<open>put\<close> replaces the value of a known key
  and returns the old value, and otherwise adds an entry, dropping the least recently used one
  where the cache is full.
\<close>

locale lru_cache =
  fixes ops :: "('c, 'k, 'v) lru_ops"
    and valid :: "'c \<Rightarrow> bool"
    and entries :: "'c \<Rightarrow> ('k \<times> 'v) list"
    and capacity :: "'c \<Rightarrow> nat"
  assumes new: "0 < n \<Longrightarrow> valid (lru_new ops n) \<and> entries (lru_new ops n) = [] \<and> capacity (lru_new ops n) = n"
    and bounds: "valid c \<Longrightarrow> distinct (map fst (entries c)) \<and> length (entries c) \<le> capacity c \<and> 0 < capacity c"
    and get_mut: "valid c \<Longrightarrow> lru_get_mut ops k c = (x, c') \<Longrightarrow>
      valid c' \<and> capacity c' = capacity c \<and> x = map_of (entries c) k \<and>
      entries c' = (case x of None \<Rightarrow> entries c | Some v \<Rightarrow> (k, v) # without_key k (entries c))"
    and pop: "valid c \<Longrightarrow> lru_pop ops k c = (x, c') \<Longrightarrow>
      valid c' \<and> capacity c' = capacity c \<and> x = map_of (entries c) k \<and> entries c' = without_key k (entries c)"
    and pop_lru: "valid c \<Longrightarrow> lru_pop_lru ops c = (e, c') \<Longrightarrow>
      valid c' \<and> capacity c' = capacity c \<and>
      e = (if entries c = [] then None else Some (last (entries c))) \<and> entries c' = butlast (entries c)"
    and put: "valid c \<Longrightarrow> lru_put ops k v c = (x, c') \<Longrightarrow>
      valid c' \<and> capacity c' = capacity c \<and> x = map_of (entries c) k \<and>
      entries c' = (k, v) #
        (if x = None \<and> length (entries c) = capacity c then butlast (entries c)
         else without_key k (entries c))"
    and len: "valid c \<Longrightarrow> lru_len ops c = length (entries c)"
    and is_empty: "valid c \<Longrightarrow> lru_is_empty ops c \<longleftrightarrow> entries c = []"

section \<open>A bounded list of entries\<close>

record ('k, 'v) list_lru =
  ll_cap :: nat
  ll_entries :: "('k \<times> 'v) list"

definition list_lru_valid :: "('k, 'v) list_lru \<Rightarrow> bool" where
  "list_lru_valid c \<longleftrightarrow>
     distinct (map fst (ll_entries c)) \<and> length (ll_entries c) \<le> ll_cap c \<and> 0 < ll_cap c"

definition list_lru_get_mut :: "'k \<Rightarrow> ('k, 'v) list_lru \<Rightarrow> 'v option \<times> ('k, 'v) list_lru" where
  "list_lru_get_mut k c =
     (case map_of (ll_entries c) k of
        None \<Rightarrow> (None, c)
      | Some v \<Rightarrow> (Some v, c\<lparr>ll_entries := (k, v) # without_key k (ll_entries c)\<rparr>))"

definition list_lru_pop :: "'k \<Rightarrow> ('k, 'v) list_lru \<Rightarrow> 'v option \<times> ('k, 'v) list_lru" where
  "list_lru_pop k c = (map_of (ll_entries c) k, c\<lparr>ll_entries := without_key k (ll_entries c)\<rparr>)"

definition list_lru_pop_lru :: "('k, 'v) list_lru \<Rightarrow> ('k \<times> 'v) option \<times> ('k, 'v) list_lru" where
  "list_lru_pop_lru c =
     (if ll_entries c = [] then (None, c)
      else (Some (last (ll_entries c)), c\<lparr>ll_entries := butlast (ll_entries c)\<rparr>))"

definition list_lru_put :: "'k \<Rightarrow> 'v \<Rightarrow> ('k, 'v) list_lru \<Rightarrow> 'v option \<times> ('k, 'v) list_lru" where
  "list_lru_put k v c =
     (case map_of (ll_entries c) k of
        Some old \<Rightarrow> (Some old, c\<lparr>ll_entries := (k, v) # without_key k (ll_entries c)\<rparr>)
      | None \<Rightarrow>
          (None, c\<lparr>ll_entries := (k, v) #
             (if length (ll_entries c) = ll_cap c then butlast (ll_entries c) else ll_entries c)\<rparr>))"

definition list_lru_ops :: "(('k, 'v) list_lru, 'k, 'v) lru_ops" where
  "list_lru_ops =
     \<lparr>lru_new = (\<lambda>n. \<lparr>ll_cap = n, ll_entries = []\<rparr>), lru_get_mut = list_lru_get_mut,
      lru_pop = list_lru_pop, lru_pop_lru = list_lru_pop_lru, lru_put = list_lru_put,
      lru_len = (\<lambda>c. length (ll_entries c)), lru_is_empty = (\<lambda>c. ll_entries c = [])\<rparr>"

lemmas list_lru_defs = list_lru_ops_def list_lru_get_mut_def list_lru_pop_def list_lru_pop_lru_def
  list_lru_put_def

lemma distinct_butlast_keys: "distinct (map fst es) \<Longrightarrow> distinct (map fst (butlast es))"
  by (simp add: map_butlast distinct_butlast)

lemma butlast_key_notin: "map_of es k = None \<Longrightarrow> k \<notin> fst ` set (butlast es)"
  by (auto simp: map_of_eq_None_iff dest: in_set_butlastD)

interpretation list_lru: lru_cache list_lru_ops list_lru_valid ll_entries ll_cap
proof
  fix c c' :: "('k, 'v) list_lru" and k v x
  assume v: "list_lru_valid c"
  then show "distinct (map fst (ll_entries c)) \<and> length (ll_entries c) \<le> ll_cap c \<and> 0 < ll_cap c"
    by (simp add: list_lru_valid_def)
  show "lru_len list_lru_ops c = length (ll_entries c)"
    by (simp add: list_lru_ops_def)
  show "lru_is_empty list_lru_ops c \<longleftrightarrow> ll_entries c = []"
    by (simp add: list_lru_ops_def)
  show "list_lru_valid c' \<and> ll_cap c' = ll_cap c \<and> x = map_of (ll_entries c) k \<and>
      ll_entries c' = (case x of None \<Rightarrow> ll_entries c | Some v \<Rightarrow> (k, v) # without_key k (ll_entries c))"
    if "lru_get_mut list_lru_ops k c = (x, c')"
    using that v
    by (cases "map_of (ll_entries c) k")
       (auto simp: list_lru_defs list_lru_valid_def without_key_keys length_without_key_bound)
  show "list_lru_valid c' \<and> ll_cap c' = ll_cap c \<and> x = map_of (ll_entries c) k \<and>
      ll_entries c' = without_key k (ll_entries c)"
    if "lru_pop list_lru_ops k c = (x, c')"
    using that v length_without_key [of k "ll_entries c"]
    by (auto simp: list_lru_defs list_lru_valid_def without_key_keys)
  show "list_lru_valid c' \<and> ll_cap c' = ll_cap c \<and> x = map_of (ll_entries c) k \<and>
      ll_entries c' = (k, v) #
        (if x = None \<and> length (ll_entries c) = ll_cap c then butlast (ll_entries c)
         else without_key k (ll_entries c))"
    if "lru_put list_lru_ops k v c = (x, c')"
    using that v butlast_key_notin [of "ll_entries c" k]
    by (cases "map_of (ll_entries c) k")
       (auto simp: list_lru_defs list_lru_valid_def without_key_keys without_key_id
         length_without_key_bound distinct_butlast_keys map_of_eq_None_iff [symmetric]
         simp del: map_of_eq_None_iff split: if_splits)
next
  fix c c' :: "('k, 'v) list_lru" and e
  assume "list_lru_valid c" "lru_pop_lru list_lru_ops c = (e, c')"
  then show "list_lru_valid c' \<and> ll_cap c' = ll_cap c \<and>
      e = (if ll_entries c = [] then None else Some (last (ll_entries c))) \<and>
      ll_entries c' = butlast (ll_entries c)"
    by (auto simp: list_lru_defs list_lru_valid_def distinct_butlast_keys split: if_splits)
qed (auto simp: list_lru_ops_def list_lru_valid_def)

end
