(* ===== verification/Cache.thy ===== *)
theory Cache
  imports Lru Rust_Net Rust_Time Simulation
begin

text \<open>
  The in-memory cache of \<open>src/src/cache.rs\<close>. The recency list is the container of the \<open>lru\<close> crate,
  given by its operations; a header map is a value of any type. Each of the two locks is a flag
  that says whether it is poisoned. The while loop that makes room is a partial function: without
  the laws of the container it need not end.
\<close>

section \<open>State\<close>

record 'h CachedAsset =
  ca_status :: StatusCode
  ca_headers :: 'h
  ca_body :: Bytes
  ca_created_at :: Instant
  ca_ttl :: Duration
  ca_size_bytes :: nat

definition is_expired :: "Instant \<Rightarrow> 'h CachedAsset \<Rightarrow> bool" where
  "is_expired now a = (duration_since now (ca_created_at a) \<ge> ca_ttl a)"

record 'c LruCacheEngine =
  ce_inner :: 'c
  ce_inner_poisoned :: bool
  ce_max_capacity_bytes :: nat
  ce_max_file_size_bytes :: nat
  ce_default_ttl :: Duration
  ce_memory_bytes :: nat
  ce_memory_poisoned :: bool

record InsertResult =
  ir_inserted :: bool
  ir_bytes_inserted :: nat
  ir_bytes_evicted :: nat
  ir_items_evicted :: nat
  ir_reason :: "string option"

type_synonym ('c, 'h) asset_ops = "('c, string, 'h CachedAsset) lru_ops"

section \<open>Operations\<close>

definition cache_new :: "('c, 'h) asset_ops \<Rightarrow> nat \<Rightarrow> nat \<Rightarrow> nat \<Rightarrow> 'c LruCacheEngine" where
  "cache_new ops max_capacity max_file_size default_ttl_sec =
     \<lparr>ce_inner = lru_new ops 10000, ce_inner_poisoned = False,
      ce_max_capacity_bytes = max_capacity, ce_max_file_size_bytes = max_file_size,
      ce_default_ttl = from_secs default_ttl_sec, ce_memory_bytes = 0,
      ce_memory_poisoned = False\<rparr>"

definition cache_get ::
  "('c, 'h) asset_ops \<Rightarrow> Instant \<Rightarrow> string \<Rightarrow> 'c LruCacheEngine \<Rightarrow>
   'h CachedAsset option \<times> 'c LruCacheEngine" where
  "cache_get ops now key e =
     (if ce_inner_poisoned e then (None, e)
      else (case lru_get_mut ops key (ce_inner e) of
              (None, c) \<Rightarrow> (None, e\<lparr>ce_inner := c\<rparr>)
            | (Some item, c) \<Rightarrow>
                (if is_expired now item
                 then (let (_, c') = lru_pop ops key c;
                           e' = e\<lparr>ce_inner := c'\<rparr>
                       in (None,
                           if ce_memory_poisoned e' then e'
                           else e'\<lparr>ce_memory_bytes := saturating_sub (ce_memory_bytes e') (ca_size_bytes item)\<rparr>))
                 else (Some item, e\<lparr>ce_inner := c\<rparr>))))"

text \<open>A refused insertion that has not touched the cache.\<close>

definition insert_refused :: "string \<Rightarrow> InsertResult" where
  "insert_refused reason =
     \<lparr>ir_inserted = False, ir_bytes_inserted = 0, ir_bytes_evicted = 0, ir_items_evicted = 0,
      ir_reason = Some reason\<rparr>"

text \<open>The loop that evicts until there is room: container, memory, bytes and items evicted.\<close>

partial_function (option) evict_loop ::
  "('c, 'h) asset_ops \<Rightarrow> nat \<Rightarrow> nat \<Rightarrow> 'c \<Rightarrow> nat \<Rightarrow> nat \<Rightarrow> nat \<Rightarrow> ('c \<times> nat \<times> nat \<times> nat) option" where
  "evict_loop ops max_capacity size_bytes c mem bytes_evicted items_evicted =
     (if usize_add mem size_bytes > max_capacity \<and> \<not> lru_is_empty ops c
      then (case lru_pop_lru ops c of
              (Some (evicted_key, evicted_item), c') \<Rightarrow>
                evict_loop ops max_capacity size_bytes c' (saturating_sub mem (ca_size_bytes evicted_item))
                  (usize_add bytes_evicted (ca_size_bytes evicted_item)) (usize_add items_evicted 1)
            | (None, c') \<Rightarrow> Some (c', mem, bytes_evicted, items_evicted))
      else Some (c, mem, bytes_evicted, items_evicted))"

text \<open>What follows the loop: store the asset if there is room now.\<close>

definition store_asset ::
  "('c, 'h) asset_ops \<Rightarrow> string \<Rightarrow> 'h CachedAsset \<Rightarrow> 'c LruCacheEngine \<Rightarrow> 'c \<times> nat \<times> nat \<times> nat \<Rightarrow>
   InsertResult \<times> 'c LruCacheEngine" where
  "store_asset ops key asset e =
     (\<lambda>(c, mem, bytes_evicted, items_evicted).
        let size_bytes = ca_size_bytes asset
        in if usize_add mem size_bytes \<le> ce_max_capacity_bytes e
           then (let (old, c') = lru_put ops key asset c;
                     mem' = (case old of Some o' \<Rightarrow> saturating_sub mem (ca_size_bytes o') | None \<Rightarrow> mem)
                 in (\<lparr>ir_inserted = True, ir_bytes_inserted = size_bytes, ir_bytes_evicted = bytes_evicted,
                      ir_items_evicted = items_evicted, ir_reason = None\<rparr>,
                     e\<lparr>ce_inner := c', ce_memory_bytes := usize_add mem' size_bytes\<rparr>))
           else (\<lparr>ir_inserted = False, ir_bytes_inserted = 0, ir_bytes_evicted = bytes_evicted,
                  ir_items_evicted = items_evicted, ir_reason = Some ''capacity_full_after_eviction''\<rparr>,
                 e\<lparr>ce_inner := c, ce_memory_bytes := mem\<rparr>))"

definition new_asset ::
  "Instant \<Rightarrow> StatusCode \<Rightarrow> 'h \<Rightarrow> Bytes \<Rightarrow> Duration option \<Rightarrow> Duration \<Rightarrow> 'h CachedAsset" where
  "new_asset now status headers body ttl_override default_ttl =
     \<lparr>ca_status = status, ca_headers = headers, ca_body = body, ca_created_at = now,
      ca_ttl = unwrap_or ttl_override default_ttl, ca_size_bytes = length body\<rparr>"

definition cache_insert ::
  "('c, 'h) asset_ops \<Rightarrow> Instant \<Rightarrow> string \<Rightarrow> StatusCode \<Rightarrow> 'h \<Rightarrow> Bytes \<Rightarrow> Duration option \<Rightarrow>
   'c LruCacheEngine \<Rightarrow> (InsertResult \<times> 'c LruCacheEngine) option" where
  "cache_insert ops now key status headers body ttl_override e =
     (let size_bytes = length body
      in if size_bytes > ce_max_file_size_bytes e then Some (insert_refused ''exceeds_max_file_size'', e)
         else if size_bytes > ce_max_capacity_bytes e then Some (insert_refused ''exceeds_max_capacity'', e)
         else if ce_inner_poisoned e \<or> ce_memory_poisoned e then Some (insert_refused ''lock_error'', e)
         else map_option (store_asset ops key (new_asset now status headers body ttl_override (ce_default_ttl e)) e)
                (evict_loop ops (ce_max_capacity_bytes e) size_bytes (ce_inner e) (ce_memory_bytes e) 0 0))"

definition current_memory_bytes :: "'c LruCacheEngine \<Rightarrow> nat" where
  "current_memory_bytes e = (if ce_memory_poisoned e then 0 else ce_memory_bytes e)"

definition entry_count :: "('c, 'h) asset_ops \<Rightarrow> 'c LruCacheEngine \<Rightarrow> nat" where
  "entry_count ops e = (if ce_inner_poisoned e then 0 else lru_len ops (ce_inner e))"

section \<open>Which paths are cached\<close>

definition is_uncacheable_entrypoint :: "string \<Rightarrow> bool" where
  "is_uncacheable_entrypoint path =
     (let lower_path = to_lowercase path
      in ends_with lower_path ''sw.js'' \<or> contains lower_path ''service-worker'' \<or>
         contains lower_path ''registersw'' \<or> contains lower_path ''workbox'' \<or>
         ends_with lower_path ''.webmanifest'' \<or> ends_with lower_path ''.html'' \<or> lower_path = ''/'')"

definition static_extensions :: "string list" where
  "static_extensions =
     [''.css'', ''.js'', ''.png'', ''.jpg'', ''.jpeg'', ''.svg'', ''.ico'', ''.woff2'', ''.woff'', ''.ttf'',
      ''.webp'', ''.json'', ''.wasm'']"

definition static_content_types :: "string list" where
  "static_content_types =
     [''text/css'', ''application/javascript'', ''text/javascript'', ''image/'', ''font/'', ''application/wasm'']"

definition is_static_asset :: "string \<Rightarrow> string option \<Rightarrow> bool" where
  "is_static_asset path content_type =
     (if is_uncacheable_entrypoint path then False
      else if list_ex (ends_with (to_lowercase path)) static_extensions then True
      else (case content_type of
              None \<Rightarrow> False
            | Some ct \<Rightarrow>
                (let ct_lower = to_lowercase ct
                 in if contains ct_lower ''text/html'' then False
                    else list_ex (contains ct_lower) static_content_types)))"

section \<open>Invariant\<close>

definition total_size :: "(string \<times> 'h CachedAsset) list \<Rightarrow> nat" where
  "total_size es = sum_list (map (\<lambda>e. ca_size_bytes (snd e)) es)"

lemma total_size_simps [simp]:
  "total_size [] = 0"
  "total_size (e # es) = ca_size_bytes (snd e) + total_size es"
  "total_size (es @ es') = total_size es + total_size es'"
  by (simp_all add: total_size_def)

lemma total_size_butlast: "es \<noteq> [] \<Longrightarrow> total_size es = total_size (butlast es) + ca_size_bytes (snd (last es))"
  by (cases es rule: rev_cases) simp_all

lemma total_size_without_key:
  "distinct (map fst es) \<Longrightarrow>
   total_size es = total_size (without_key k es) + (case map_of es k of None \<Rightarrow> 0 | Some a \<Rightarrow> ca_size_bytes a)"
proof (induction es)
  case (Cons e es)
  show ?case
  proof (cases "fst e = k")
    case True
    then have "map_of es k = None" using Cons.prems by (auto simp: map_of_eq_None_iff)
    from without_key_id [OF this] show ?thesis using True by (cases e) (simp add: without_key_def)
  next
    case False
    then show ?thesis using Cons by (cases e) (simp add: without_key_def)
  qed
qed (simp add: without_key_def)

text \<open>
  The invariant of an engine: the accounted memory covers the entries and stays within the
  capacity. The two differ by what the container dropped on its own when it was full.
\<close>

definition cache_inv :: "('c \<Rightarrow> bool) \<Rightarrow> ('c \<Rightarrow> (string \<times> 'h CachedAsset) list) \<Rightarrow> 'c LruCacheEngine \<Rightarrow> bool" where
  "cache_inv valid entries e \<longleftrightarrow>
     valid (ce_inner e) \<and>
     total_size (entries (ce_inner e)) \<le> ce_memory_bytes e \<and>
     ce_memory_bytes e \<le> ce_max_capacity_bytes e \<and>
     list_all (\<lambda>(k, a). ca_size_bytes a = length (ca_body a) \<and> ca_size_bytes a \<le> ce_max_file_size_bytes e)
       (entries (ce_inner e)) \<and>
     \<not> ce_inner_poisoned e \<and> \<not> ce_memory_poisoned e"

text \<open>Sums of two sizes do not wrap around below this capacity.\<close>

definition fits_usize :: "'c LruCacheEngine \<Rightarrow> bool" where
  "fits_usize e \<longleftrightarrow> 2 * ce_max_capacity_bytes e \<le> usize_max"

text \<open>
  Evicting for an asset of size \<open>sz\<close>: the least recently used entries go, as few as possible, until
  there is room or no entry is left; their sizes are given back.
\<close>

definition evicts ::
  "nat \<Rightarrow> nat \<Rightarrow> (string \<times> 'h CachedAsset) list \<Rightarrow> nat \<Rightarrow> (string \<times> 'h CachedAsset) list \<Rightarrow> nat \<Rightarrow> bool" where
  "evicts cap sz es mem es' mem' \<longleftrightarrow>
     (\<exists>n \<le> length es. es' = take n es \<and> mem' = mem - total_size (drop n es) \<and>
        (mem' + sz \<le> cap \<or> n = 0) \<and>
        (n < length es \<longrightarrow> cap < mem - total_size (drop (Suc n) es) + sz))"

lemma evicts_Nil: "evicts cap sz [] mem [] mem"
  by (simp add: evicts_def)

lemma evicts_refl: "mem + sz \<le> cap \<Longrightarrow> evicts cap sz es mem es mem"
  unfolding evicts_def by (rule exI [of _ "length es"]) simp

lemma evicts_snoc:
  assumes "evicts cap sz es (mem - ca_size_bytes (snd e)) es' mem'" and "cap < mem + sz"
  shows "evicts cap sz (es @ [e]) mem es' mem'"
proof -
  obtain n where n: "n \<le> length es" "es' = take n es"
    "mem' = mem - ca_size_bytes (snd e) - total_size (drop n es)" "mem' + sz \<le> cap \<or> n = 0"
    "n < length es \<longrightarrow> cap < mem - ca_size_bytes (snd e) - total_size (drop (Suc n) es) + sz"
    using assms(1) unfolding evicts_def by blast
  show ?thesis
    unfolding evicts_def
    using n assms(2) by (intro exI [of _ n]) (cases "n < length es"; simp add: add.commute)
qed

lemma evicts_prefix: "evicts cap sz es mem es' mem' \<Longrightarrow> \<exists>n. es' = take n es"
  by (auto simp: evicts_def)

lemma evicts_memory:
  assumes "evicts cap sz es mem es' mem'" and "total_size es \<le> mem"
  shows "total_size es' \<le> mem'" and "mem' \<le> mem" and "mem' - total_size es' = mem - total_size es"
proof -
  obtain n where n: "es' = take n es" "mem' = mem - total_size (drop n es)"
    using assms(1) by (auto simp: evicts_def)
  have "total_size es = total_size (take n es) + total_size (drop n es)"
    by (metis append_take_drop_id total_size_simps(3))
  then show "total_size es' \<le> mem'" "mem' \<le> mem" "mem' - total_size es' = mem - total_size es"
    using n assms(2) by simp_all
qed

lemma evicts_room: "evicts cap sz es mem es' mem' \<Longrightarrow> mem' + sz \<le> cap \<or> es' = []"
  by (auto simp: evicts_def)

lemma evicts_nothing: "evicts cap sz es mem es' mem' \<Longrightarrow> mem + sz \<le> cap \<Longrightarrow> es' = es"
  by (auto simp: evicts_def)

lemma cache_inv_update:
  assumes "cache_inv valid entries e" and "valid c" and "set (entries c) \<subseteq> set (entries (ce_inner e))"
    and "total_size (entries c) \<le> mem" and "mem \<le> ce_memory_bytes e"
  shows "cache_inv valid entries (e\<lparr>ce_inner := c, ce_memory_bytes := mem\<rparr>)"
  using assms by (fastforce simp: cache_inv_def list_all_iff)

lemma cache_inv_inner:
  assumes "cache_inv valid entries e" and "valid c" and "set (entries c) \<subseteq> set (entries (ce_inner e))"
    and "total_size (entries c) \<le> ce_memory_bytes e"
  shows "cache_inv valid entries (e\<lparr>ce_inner := c\<rparr>)"
  using assms by (fastforce simp: cache_inv_def list_all_iff)

text \<open>The memory accounted for entries that the container has dropped on its own.\<close>

definition leaked :: "('c \<Rightarrow> (string \<times> 'h CachedAsset) list) \<Rightarrow> 'c LruCacheEngine \<Rightarrow> nat" where
  "leaked entries e = ce_memory_bytes e - total_size (entries (ce_inner e))"

lemma new_asset_sel [simp]:
  "ca_size_bytes (new_asset now status headers body ttl d) = length body"
  "ca_body (new_asset now status headers body ttl d) = body"
  by (simp_all add: new_asset_def)

text \<open>A container of assets under the laws of the crate.\<close>

locale asset_cache = lru_cache ops valid entries capacity
  for ops :: "('c, 'h) asset_ops" and valid and entries and capacity
begin

lemma evict_loop_returns:
  assumes "valid c" and "mem \<le> cap" and "sz \<le> cap" and "2 * cap \<le> usize_max"
  shows "\<exists>c' mem' be ie. evict_loop ops cap sz c mem be0 ie0 = Some (c', mem', be, ie) \<and>
    valid c' \<and> capacity c' = capacity c \<and> evicts cap sz (entries c) mem (entries c') mem'"
  using assms(1,2)
proof (induction "entries c" arbitrary: c mem be0 ie0 rule: rev_induct)
  case Nil
  then have "lru_is_empty ops c" by (simp add: is_empty)
  then show ?case
    using Nil by (subst evict_loop.simps) (simp add: Nil(1) [symmetric] evicts_Nil)
next
  case (snoc e es)
  note es = snoc.hyps(2) [symmetric]
  have sum: "usize_add mem sz = mem + sz"
    using snoc.prems assms(3,4) by (intro usize_add_exact) simp
  obtain k a where e: "e = (k, a)" by fastforce
  show ?case
  proof (cases "mem + sz > cap")
    case False
    then show ?thesis
      using snoc.prems sum by (subst evict_loop.simps) (simp add: evicts_refl)
  next
    case True
    obtain x c1 where p: "lru_pop_lru ops c = (x, c1)" by fastforce
    with pop_lru [OF snoc.prems(1) p] have x: "x = Some (k, a)"
      and c1: "valid c1" "capacity c1 = capacity c" "es = entries c1" by (simp_all add: es e)
    have ne: "\<not> lru_is_empty ops c" using is_empty [OF snoc.prems(1)] by (simp add: es)
    have "mem - ca_size_bytes a \<le> cap" using snoc.prems(2) by simp
    from snoc.hyps(1) [OF c1(3,1) this, of "usize_add be0 (ca_size_bytes a)" "usize_add ie0 1"] c1
    obtain c' mem' be ie where
      r: "evict_loop ops cap sz c1 (mem - ca_size_bytes a) (usize_add be0 (ca_size_bytes a)) (usize_add ie0 1) = Some (c', mem', be, ie)"
      and v: "valid c'" "capacity c' = capacity c" "evicts cap sz es (mem - ca_size_bytes a) (entries c') mem'"
      by metis
    have "evict_loop ops cap sz c mem be0 ie0 = Some (c', mem', be, ie)"
      using True ne p x sum r by (subst evict_loop.simps) simp
    then show ?thesis using v evicts_snoc [of cap sz es mem e "entries c'" mem'] True by (simp add: es e)
  qed
qed

text \<open>The loop ends for any sizes and counters, also wrong ones: each round takes an entry out.\<close>

lemma evict_loop_terminates:
  "valid c \<Longrightarrow> \<exists>c' mem' be ie. evict_loop ops cap sz c mem be0 ie0 = Some (c', mem', be, ie) \<and> valid c' \<and>
    set (entries c') \<subseteq> set (entries c)"
proof (induction "entries c" arbitrary: c mem be0 ie0 rule: rev_induct)
  case Nil
  then have "lru_is_empty ops c" by (simp add: is_empty)
  then show ?case using Nil by (subst evict_loop.simps) simp
next
  case (snoc e es)
  note es = snoc.hyps(2) [symmetric]
  obtain k a where e: "e = (k, a)" by fastforce
  obtain x c1 where p: "lru_pop_lru ops c = (x, c1)" by fastforce
  with pop_lru [OF snoc.prems p] have x: "x = Some (k, a)" and c1: "valid c1" "es = entries c1" by (simp_all add: es e)
  from snoc.hyps(1) [OF c1(2,1), of "mem - ca_size_bytes a" "usize_add be0 (ca_size_bytes a)" "usize_add ie0 1"]
  obtain c' mem' be ie where
    r: "evict_loop ops cap sz c1 (mem - ca_size_bytes a) (usize_add be0 (ca_size_bytes a)) (usize_add ie0 1) = Some (c', mem', be, ie)"
    and v: "valid c'" "set (entries c') \<subseteq> set es"
    using c1(2) by metis
  then have "set (entries c') \<subseteq> set (entries c)" by (auto simp: es)
  then show ?case
    using r v(1) snoc.prems by (subst evict_loop.simps) (simp add: p x)
qed

lemma insert_terminates:
  assumes "valid (ce_inner e)"
  shows "\<exists>r e'. cache_insert ops now key status headers body ttl e = Some (r, e') \<and> valid (ce_inner e') \<and>
    set (entries (ce_inner e')) \<subseteq>
      insert (key, new_asset now status headers body ttl (ce_default_ttl e)) (set (entries (ce_inner e)))"
proof -
  obtain c mem be ie where l: "evict_loop ops (ce_max_capacity_bytes e) (length body) (ce_inner e) (ce_memory_bytes e) 0 0 = Some (c, mem, be, ie)"
    and c: "valid c" "set (entries c) \<subseteq> set (entries (ce_inner e))"
    using evict_loop_terminates [OF assms] by blast
  obtain x c' where p: "lru_put ops key (new_asset now status headers body ttl (ce_default_ttl e)) c = (x, c')" by fastforce
  have P: "valid c'" "set (entries c') \<subseteq> insert (key, new_asset now status headers body ttl (ce_default_ttl e)) (set (entries (ce_inner e)))"
    using put [OF c(1) p] c(2) by (auto simp: without_key_def dest: in_set_butlastD split: if_splits)
  then show ?thesis
    using c assms by (auto simp: cache_insert_def l store_asset_def p Let_def)
qed

lemma get_spec:
  assumes i: "cache_inv valid entries e" and "cache_get ops now key e = (r, e')"
  shows "cache_inv valid entries e' \<and>
    r = (case map_of (entries (ce_inner e)) key of
           None \<Rightarrow> None | Some a \<Rightarrow> if is_expired now a then None else Some a) \<and>
    set (entries (ce_inner e')) \<subseteq> set (entries (ce_inner e)) \<and>
    ce_max_capacity_bytes e' = ce_max_capacity_bytes e \<and> ce_default_ttl e' = ce_default_ttl e"
proof -
  let ?es = "entries (ce_inner e)"
  have v: "valid (ce_inner e)" and p: "\<not> ce_inner_poisoned e" "\<not> ce_memory_poisoned e"
    and t: "total_size ?es \<le> ce_memory_bytes e"
    using i by (simp_all add: cache_inv_def)
  obtain x c where g: "lru_get_mut ops key (ce_inner e) = (x, c)" by fastforce
  note G = get_mut [OF v g]
  obtain y c' where q: "lru_pop ops key c = (y, c')" by fastforce
  have Q: "valid c'" "entries c' = without_key key (entries c)" using pop [OF _ q] G by simp_all
  show ?thesis
  proof (cases x)
    case None
    then have "cache_inv valid entries (e\<lparr>ce_inner := c\<rparr>)" using G t by (intro cache_inv_inner [OF i]) auto
    then show ?thesis using assms(2) p g G None by (auto simp: cache_get_def)
  next
    case (Some a)
    have m: "map_of ?es key = Some a" using G Some by simp
    have c: "entries c = (key, a) # without_key key ?es" using G Some by simp
    have sub: "set (entries c) \<subseteq> set ?es" "set (entries c') \<subseteq> set ?es"
      using m c Q(2) by (auto simp: without_key_def dest: map_of_SomeD)
    have sz: "total_size ?es = total_size (without_key key ?es) + ca_size_bytes a"
      using total_size_without_key [of ?es key] bounds [OF v] m by simp
    have "entries c' = without_key key ?es" using Q(2) c by (simp add: without_key_def)
    then have "cache_inv valid entries (e\<lparr>ce_inner := c', ce_memory_bytes := ce_memory_bytes e - ca_size_bytes a\<rparr>)"
      using sub sz t by (intro cache_inv_update [OF i Q(1)]) simp_all
    moreover have "cache_inv valid entries (e\<lparr>ce_inner := c\<rparr>)"
      using sub sz t c G by (intro cache_inv_inner [OF i]) simp_all
    ultimately show ?thesis
      using assms(2) p g q m Some sub
      by (cases "is_expired now a") (auto simp: cache_get_def Let_def split: option.splits)
  qed
qed

lemma put_spec:
  assumes "valid c" and "lru_put ops key a c = (old, c')" and "total_size (entries c) \<le> mem"
    and "mem + ca_size_bytes a \<le> cap"
  shows "valid c' \<and> map_of (entries c') key = Some a \<and>
    set (entries c') \<subseteq> insert (key, a) (set (entries c)) \<and>
    total_size (entries c') \<le> (case old of None \<Rightarrow> mem | Some b \<Rightarrow> mem - ca_size_bytes b) + ca_size_bytes a"
proof -
  note P = put [OF assms(1,2)]
  have d: "distinct (map fst (entries c))" using bounds [OF assms(1)] by blast
  have b: "total_size (butlast (entries c)) \<le> total_size (entries c)"
    by (cases "entries c = []") (simp_all add: total_size_butlast)
  show ?thesis
    using P assms(3,4) total_size_without_key [OF d, of key] b
    by (auto simp: without_key_def dest: in_set_butlastD split: option.splits if_splits)
qed

lemma put_leaked:
  assumes "valid c" and p: "lru_put ops key a c = (old, c')" and t: "total_size (entries c) \<le> mem"
  shows "(case old of None \<Rightarrow> mem | Some b \<Rightarrow> mem - ca_size_bytes b) + ca_size_bytes a - total_size (entries c') =
    mem - total_size (entries c) +
    (if old = None \<and> length (entries c) = capacity c then ca_size_bytes (snd (last (entries c))) else 0)"
proof -
  note P = put [OF assms(1,2)]
  have d: "distinct (map fst (entries c))" "0 < capacity c" using bounds [OF assms(1)] by blast+
  have "entries c \<noteq> []" if "length (entries c) = capacity c" using that d(2) by auto
  then show ?thesis
    using P t total_size_without_key [OF d(1), of key] total_size_butlast [of "entries c"]
    by (auto split: option.splits if_splits)
qed

text \<open>Storing after the loop, as a relation on the entries and the accounted memory.\<close>

lemma store_spec:
  assumes i: "cache_inv valid entries e" and f: "fits_usize e"
    and c: "valid c" "set (entries c) \<subseteq> set (entries (ce_inner e))" "total_size (entries c) \<le> mem" "mem \<le> ce_memory_bytes e"
    and a: "ca_size_bytes a = length (ca_body a)" "ca_size_bytes a \<le> ce_max_file_size_bytes e" "ca_size_bytes a \<le> ce_max_capacity_bytes e"
    and s: "store_asset ops key a e (c, mem, be, ie) = (r, e')"
  shows "cache_inv valid entries e' \<and>
    ce_max_capacity_bytes e' = ce_max_capacity_bytes e \<and> ce_default_ttl e' = ce_default_ttl e \<and>
    leaked entries e' = mem - total_size (entries c) +
      (if ir_inserted r \<and> map_of (entries c) key = None \<and> length (entries c) = capacity c
       then ca_size_bytes (snd (last (entries c))) else 0) \<and>
    ir_inserted r = (mem + ca_size_bytes a \<le> ce_max_capacity_bytes e) \<and>
    (if ir_inserted r
     then map_of (entries (ce_inner e')) key = Some a \<and>
          set (entries (ce_inner e')) \<subseteq> insert (key, a) (set (entries c))
     else e' = e\<lparr>ce_inner := c, ce_memory_bytes := mem\<rparr>)"
proof -
  have m: "mem \<le> ce_max_capacity_bytes e" using i c(4) by (simp add: cache_inv_def)
  have sum: "usize_add mem (ca_size_bytes a) = mem + ca_size_bytes a"
    using m a(3) f by (intro usize_add_exact) (simp add: fits_usize_def)
  show ?thesis
  proof (cases "mem + ca_size_bytes a \<le> ce_max_capacity_bytes e")
    case True
    obtain old c' where p: "lru_put ops key a c = (old, c')" by fastforce
    note P = put_spec [OF c(1) p c(3) True]
    let ?mem = "case old of None \<Rightarrow> mem | Some b \<Rightarrow> mem - ca_size_bytes b"
    have "?mem \<le> mem" by (simp split: option.splits)
    then have s2: "usize_add ?mem (ca_size_bytes a) = ?mem + ca_size_bytes a" "?mem + ca_size_bytes a \<le> ce_max_capacity_bytes e"
      using m a(3) f True by (auto intro!: usize_add_exact simp: fits_usize_def)
    have "e' = e\<lparr>ce_inner := c', ce_memory_bytes := ?mem + ca_size_bytes a\<rparr>" "ir_inserted r"
      using s True sum p s2 by (auto simp: store_asset_def Let_def option.case_eq_if)
    moreover have "set (entries c') \<subseteq> insert (key, a) (set (entries (ce_inner e)))" using P c(2) by blast
    moreover have "old = map_of (entries c) key" using put [OF c(1) p] by simp
    ultimately show ?thesis
      using P i s2 a True put_leaked [OF c(1) p c(3)] by (auto simp: cache_inv_def leaked_def list_all_iff)
  next
    case False
    then have "e' = e\<lparr>ce_inner := c, ce_memory_bytes := mem\<rparr>" "\<not> ir_inserted r"
      using s sum by (auto simp: store_asset_def)
    then show ?thesis using False cache_inv_update [OF i c] by (simp add: leaked_def)
  qed
qed

lemma get_leaked:
  assumes i: "cache_inv valid entries e" and "cache_get ops now key e = (r, e')"
  shows "leaked entries e' = leaked entries e"
proof -
  let ?es = "entries (ce_inner e)"
  have v: "valid (ce_inner e)" and p: "\<not> ce_inner_poisoned e" "\<not> ce_memory_poisoned e"
    using i by (simp_all add: cache_inv_def)
  obtain x c where g: "lru_get_mut ops key (ce_inner e) = (x, c)" by fastforce
  note G = get_mut [OF v g]
  obtain y c' where q: "lru_pop ops key c = (y, c')" by fastforce
  have Q: "entries c' = without_key key (entries c)" using pop [OF _ q] G by simp
  have sz: "total_size ?es = total_size (without_key key ?es) + (case x of None \<Rightarrow> 0 | Some a \<Rightarrow> ca_size_bytes a)"
    using total_size_without_key [of ?es key] bounds [OF v] G by simp
  have "without_key key (without_key key ?es) = without_key key ?es" by (simp add: without_key_def)
  then show ?thesis
    using assms(2) p g q Q G sz
    by (auto simp: cache_get_def leaked_def Let_def without_key_def split: option.splits if_splits)
qed

text \<open>An insertion that passes the size tests runs the loop to its end and stores the asset.\<close>

lemma insert_unfold:
  assumes i: "cache_inv valid entries e" and f: "fits_usize e"
    and b: "length body \<le> ce_max_file_size_bytes e" "length body \<le> ce_max_capacity_bytes e"
  obtains c mem be ie where
    "cache_insert ops now key status headers body ttl e =
       Some (store_asset ops key (new_asset now status headers body ttl (ce_default_ttl e)) e (c, mem, be, ie))"
    and "valid c" and "capacity c = capacity (ce_inner e)"
    and "evicts (ce_max_capacity_bytes e) (length body) (entries (ce_inner e)) (ce_memory_bytes e) (entries c) mem"
    and "set (entries c) \<subseteq> set (entries (ce_inner e))" and "total_size (entries c) \<le> mem"
    and "mem \<le> ce_memory_bytes e" and "leaked entries e = mem - total_size (entries c)"
proof -
  have e: "valid (ce_inner e)" "total_size (entries (ce_inner e)) \<le> ce_memory_bytes e"
    "ce_memory_bytes e \<le> ce_max_capacity_bytes e" "\<not> ce_inner_poisoned e" "\<not> ce_memory_poisoned e"
    and u: "2 * ce_max_capacity_bytes e \<le> usize_max"
    using i f by (simp_all add: cache_inv_def fits_usize_def)
  from evict_loop_returns [OF e(1,3) b(2) u] obtain c mem be ie where
    l: "evict_loop ops (ce_max_capacity_bytes e) (length body) (ce_inner e) (ce_memory_bytes e) 0 0 = Some (c, mem, be, ie)"
    and c: "valid c" "capacity c = capacity (ce_inner e)"
    and v: "evicts (ce_max_capacity_bytes e) (length body) (entries (ce_inner e)) (ce_memory_bytes e) (entries c) mem"
    by blast
  have "set (entries c) \<subseteq> set (entries (ce_inner e))"
    using evicts_prefix [OF v] set_take_subset by metis
  moreover have "cache_insert ops now key status headers body ttl e =
      Some (store_asset ops key (new_asset now status headers body ttl (ce_default_ttl e)) e (c, mem, be, ie))"
    using b e l by (simp add: cache_insert_def)
  ultimately show thesis using that c v evicts_memory [OF v e(2)] by (simp add: leaked_def)
qed

lemma insert_returns:
  assumes "cache_inv valid entries e" and "fits_usize e"
  shows "\<exists>r e'. cache_insert ops now key status headers body ttl e = Some (r, e')"
proof (cases "length body \<le> ce_max_file_size_bytes e \<and> length body \<le> ce_max_capacity_bytes e")
  case True
  then have b: "length body \<le> ce_max_file_size_bytes e" "length body \<le> ce_max_capacity_bytes e" by simp_all
  show ?thesis
    by (rule insert_unfold [OF assms b, of now key status headers ttl]) (simp add: prod_eq_iff)
qed (auto simp: cache_insert_def Let_def)

lemma insert_spec:
  assumes i: "cache_inv valid entries e" and f: "fits_usize e"
    and r: "cache_insert ops now key status headers body ttl e = Some (r, e')"
  shows "cache_inv valid entries e' \<and> fits_usize e' \<and> ce_default_ttl e' = ce_default_ttl e \<and>
    leaked entries e \<le> leaked entries e' \<and>
    ir_inserted r = (length body \<le> ce_max_file_size_bytes e \<and>
      leaked entries e + length body \<le> ce_max_capacity_bytes e) \<and>
    (if ir_inserted r
     then map_of (entries (ce_inner e')) key = Some (new_asset now status headers body ttl (ce_default_ttl e)) \<and>
          set (entries (ce_inner e')) \<subseteq>
            insert (key, new_asset now status headers body ttl (ce_default_ttl e)) (set (entries (ce_inner e)))
     else set (entries (ce_inner e')) \<subseteq> set (entries (ce_inner e)))"
proof (cases "length body \<le> ce_max_file_size_bytes e \<and> length body \<le> ce_max_capacity_bytes e")
  case False
  then show ?thesis using i f r by (auto simp: cache_insert_def insert_refused_def Let_def split: if_splits)
next
  let ?a = "new_asset now status headers body ttl (ce_default_ttl e)"
  case True
  then have b: "length body \<le> ce_max_file_size_bytes e" "length body \<le> ce_max_capacity_bytes e" by simp_all
  obtain c mem be ie where
    l: "cache_insert ops now key status headers body ttl e = Some (store_asset ops key ?a e (c, mem, be, ie))"
    and c: "valid c" "capacity c = capacity (ce_inner e)"
      "evicts (ce_max_capacity_bytes e) (length body) (entries (ce_inner e)) (ce_memory_bytes e) (entries c) mem"
    and sub: "set (entries c) \<subseteq> set (entries (ce_inner e))"
    and m: "total_size (entries c) \<le> mem" "mem \<le> ce_memory_bytes e" "leaked entries e = mem - total_size (entries c)"
    by (rule insert_unfold [OF i f b])
  have s: "store_asset ops key ?a e (c, mem, be, ie) = (r, e')" using l r by simp
  note S = store_spec [OF i f c(1) sub m(1,2) _ _ _ s]
  have "mem + length body \<le> ce_max_capacity_bytes e \<longleftrightarrow> leaked entries e + length body \<le> ce_max_capacity_bytes e"
    using evicts_room [OF c(3)] m by auto
  then show ?thesis
    using S m sub True f by (auto simp: fits_usize_def split: if_splits)
qed

lemma insert_failed:
  assumes i: "cache_inv valid entries e" and f: "fits_usize e"
    and b: "length body \<le> ce_max_file_size_bytes e" "length body \<le> ce_max_capacity_bytes e"
    and r: "cache_insert ops now key status headers body ttl e = Some (r, e')" "\<not> ir_inserted r"
  shows "entries (ce_inner e') = []"
proof -
  obtain c mem be ie where
    l: "cache_insert ops now key status headers body ttl e =
      Some (store_asset ops key (new_asset now status headers body ttl (ce_default_ttl e)) e (c, mem, be, ie))"
    and c: "valid c" "capacity c = capacity (ce_inner e)"
      "evicts (ce_max_capacity_bytes e) (length body) (entries (ce_inner e)) (ce_memory_bytes e) (entries c) mem"
    and sub: "set (entries c) \<subseteq> set (entries (ce_inner e))"
    and m: "total_size (entries c) \<le> mem" "mem \<le> ce_memory_bytes e" "leaked entries e = mem - total_size (entries c)"
    by (rule insert_unfold [OF i f b])
  have s: "store_asset ops key (new_asset now status headers body ttl (ce_default_ttl e)) e (c, mem, be, ie) = (r, e')"
    using l r by simp
  show ?thesis
    using store_spec [OF i f c(1) sub m(1,2) _ _ _ s] b r(2) evicts_room [OF c(3)] by auto
qed

lemma insert_order:
  assumes i: "cache_inv valid entries e" and f: "fits_usize e"
    and r: "cache_insert ops now key status headers body ttl e = Some (r, e')" "ir_inserted r"
  shows "\<exists>es mem. evicts (ce_max_capacity_bytes e) (length body) (entries (ce_inner e)) (ce_memory_bytes e) es mem \<and>
    (let full = (map_of es key = None \<and> length es = capacity (ce_inner e))
     in entries (ce_inner e') = (key, new_asset now status headers body ttl (ce_default_ttl e)) #
          (if full then butlast es else without_key key es) \<and>
        leaked entries e' = leaked entries e + (if full then ca_size_bytes (snd (last es)) else 0))"
proof -
  let ?a = "new_asset now status headers body ttl (ce_default_ttl e)"
  have b: "length body \<le> ce_max_file_size_bytes e" "length body \<le> ce_max_capacity_bytes e"
    using r by (auto simp: cache_insert_def insert_refused_def Let_def split: if_splits)
  obtain c mem be ie where
    l: "cache_insert ops now key status headers body ttl e = Some (store_asset ops key ?a e (c, mem, be, ie))"
    and c: "valid c" "capacity c = capacity (ce_inner e)"
      "evicts (ce_max_capacity_bytes e) (length body) (entries (ce_inner e)) (ce_memory_bytes e) (entries c) mem"
    and sub: "set (entries c) \<subseteq> set (entries (ce_inner e))"
    and m: "total_size (entries c) \<le> mem" "mem \<le> ce_memory_bytes e" "leaked entries e = mem - total_size (entries c)"
    by (rule insert_unfold [OF i f b])
  have s: "store_asset ops key ?a e (c, mem, be, ie) = (r, e')" using l r by simp
  obtain old c' where p: "lru_put ops key ?a c = (old, c')" by fastforce
  have "ce_inner e' = c'"
    using s r(2) p by (auto simp: store_asset_def Let_def split: if_splits)
  then show ?thesis
    using store_spec [OF i f c(1) sub m(1,2) _ _ _ s] put [OF c(1) p] b r(2) c m
    by (intro exI [of _ "entries c"] exI [of _ mem]) (auto simp: Let_def)
qed

end

section \<open>Sequences of calls\<close>

datatype 'h cache_op = Get string | Insert string StatusCode 'h Bytes "Duration option"

datatype 'h cache_answer = Found "'h CachedAsset option" | Stored InsertResult | Diverged

fun cache_step ::
  "('c, 'h) asset_ops \<Rightarrow> Instant \<times> 'h cache_op \<Rightarrow> 'c LruCacheEngine \<Rightarrow> 'h cache_answer \<times> 'c LruCacheEngine" where
  "cache_step ops (now, Get key) e = (let (a, e') = cache_get ops now key e in (Found a, e'))"
| "cache_step ops (now, Insert key status headers body ttl) e =
     (case cache_insert ops now key status headers body ttl e of
        None \<Rightarrow> (Diverged, e)
      | Some (r, e') \<Rightarrow> (Stored r, e'))"

text \<open>The assets that a sequence of calls has stored last under each key, read off the answers.\<close>

fun remember ::
  "Duration \<Rightarrow> (Instant \<times> 'h cache_op) \<times> 'h cache_answer \<Rightarrow> (string \<rightharpoonup> 'h CachedAsset) \<Rightarrow> (string \<rightharpoonup> 'h CachedAsset)" where
  "remember d ((now, Insert key status headers body ttl), Stored r) m =
     (if ir_inserted r then m(key \<mapsto> new_asset now status headers body ttl d) else m)"
| "remember d _ m = m"

definition stored :: "Duration \<Rightarrow> ((Instant \<times> 'h cache_op) \<times> 'h cache_answer) list \<Rightarrow> (string \<rightharpoonup> 'h CachedAsset)" where
  "stored d xs = fold (remember d) xs Map.empty"

definition holds_stored :: "('c \<Rightarrow> (string \<times> 'h CachedAsset) list) \<Rightarrow> 'c LruCacheEngine \<Rightarrow> (string \<rightharpoonup> 'h CachedAsset) \<Rightarrow> bool" where
  "holds_stored entries e m \<longleftrightarrow> (\<forall>(k, a)\<in>set (entries (ce_inner e)). m k = Some a)"

context asset_cache
begin

lemma new_engine: "valid (lru_new ops 10000)" "entries (lru_new ops 10000) = []" "capacity (lru_new ops 10000) = 10000"
  using new [of 10000] by simp_all

lemma new_inv: "cache_inv valid entries (cache_new ops cap file ttl)"
  by (simp add: cache_new_def cache_inv_def new_engine)

lemma step_stored:
  assumes "cache_inv valid entries e" and "fits_usize e" and "holds_stored entries e m"
    and "cache_step ops x e = (a, e')"
  shows "cache_inv valid entries e' \<and> fits_usize e' \<and> ce_default_ttl e' = ce_default_ttl e \<and> a \<noteq> Diverged \<and>
    holds_stored entries e' (remember (ce_default_ttl e) (x, a) m)"
proof -
  obtain now op where x: "x = (now, op)" by fastforce
  show ?thesis
  proof (cases op)
    case (Get key)
    obtain r where g: "cache_get ops now key e = (r, e')" "a = Found r"
      using assms(4) Get x by (auto simp: Let_def split: prod.splits)
    from get_spec [OF assms(1) g(1)] show ?thesis
      using assms(2,3) g(2) Get x by (auto simp: fits_usize_def holds_stored_def)
  next
    case (Insert key status headers body ttl)
    obtain r where r: "cache_insert ops now key status headers body ttl e = Some (r, e')" "a = Stored r"
      using insert_returns [OF assms(1,2), of now key status headers body ttl] assms(4) Insert x by auto
    note S = insert_spec [OF assms(1,2) r(1)]
    have "distinct (map fst (entries (ce_inner e')))" using S bounds by (simp add: cache_inv_def)
    then have "map_of (entries (ce_inner e')) k = Some b" if "(k, b) \<in> set (entries (ce_inner e'))" for k b
      using that by (rule map_of_is_SomeI)
    with S have "holds_stored entries e' (remember (ce_default_ttl e) (x, a) m)"
      using assms(3) r(2) Insert x
      by (cases "ir_inserted r") (fastforce simp: holds_stored_def)+
    then show ?thesis using S r by simp
  qed
qed

lemma run_stored:
  assumes "2 * cap \<le> usize_max"
  shows "let (as, e) = run (cache_step ops) xs (cache_new ops cap file ttl)
    in cache_inv valid entries e \<and> fits_usize e \<and> ce_default_ttl e = from_secs ttl \<and> Diverged \<notin> set as \<and>
       holds_stored entries e (stored (from_secs ttl) (zip xs as))"
proof (induction xs rule: rev_induct)
  case Nil
  then show ?case
    using assms new_inv
    by (simp add: new_engine fits_usize_def holds_stored_def cache_new_def cache_inv_def)
next
  case (snoc x xs)
  obtain as e where r: "run (cache_step ops) xs (cache_new ops cap file ttl) = (as, e)" by fastforce
  obtain a e' where s: "cache_step ops x e = (a, e')" by fastforce
  have l: "length as = length xs" using length_run [of "cache_step ops" xs "cache_new ops cap file ttl"] r by simp
  have "run (cache_step ops) (xs @ [x]) (cache_new ops cap file ttl) = (as @ [a], e')"
    using r s run_append_proj [of "cache_step ops" xs "[x]" "cache_new ops cap file ttl"] by (simp add: prod_eq_iff)
  moreover have "zip (xs @ [x]) (as @ [a]) = zip xs as @ [(x, a)]" using l by simp
  ultimately show ?case
    using snoc r step_stored [OF _ _ _ s] by (auto simp: stored_def)
qed

end

interpretation list_assets: asset_cache list_lru_ops list_lru_valid ll_entries ll_cap
  by unfold_locales

lemma list_asset_cache: "asset_cache list_lru_ops list_lru_valid ll_entries ll_cap"
  by unfold_locales

lemmas cache_eval = cache_new_def cache_insert_def evict_loop.simps store_asset_def new_asset_def
  cache_get_def is_expired_def duration_since_def usize_add_def list_lru_defs without_key_def
  from_secs_def Let_def

section \<open>Properties\<close>

text \<open>
  C18: an insertion into a well-formed cache always returns, leaves the cache well-formed (accounted
  memory between the size of the entries and the capacity, every entry within the file limit),
  succeeds exactly if the body is within the file limit and, together with the memory lost to
  dropped entries, within the capacity, and what it stored is found again under its key until
  its time to live is over. The container obeys the laws of the \<open>lru\<close> crate and twice the
  capacity fits \<open>usize\<close>.
\<close>

theorem cache_insert_get:
  assumes "asset_cache ops valid entries capacity" and "cache_inv valid entries e" and "fits_usize e"
  shows "\<exists>r e'. cache_insert ops now key status headers body ttl e = Some (r, e') \<and>
    cache_inv valid entries e' \<and>
    ir_inserted r = (length body \<le> ce_max_file_size_bytes e \<and>
      leaked entries e + length body \<le> ce_max_capacity_bytes e) \<and>
    (ir_inserted r \<longrightarrow> fst (cache_get ops later key e') =
       (if later - now < unwrap_or ttl (ce_default_ttl e)
        then Some (new_asset now status headers body ttl (ce_default_ttl e)) else None))"
proof -
  obtain r e' where r: "cache_insert ops now key status headers body ttl e = Some (r, e')"
    using asset_cache.insert_returns [OF assms, of now key status headers body ttl] by blast
  note S = asset_cache.insert_spec [OF assms r]
  then have i: "cache_inv valid entries e'" by simp
  obtain x e2 where g: "cache_get ops later key e' = (x, e2)" by fastforce
  from asset_cache.get_spec [OF assms(1) i g] have x: "x = (case map_of (entries (ce_inner e')) key of
      None \<Rightarrow> None | Some a \<Rightarrow> if is_expired later a then None else Some a)" by simp
  have "ir_inserted r \<longrightarrow> x = (if later - now < unwrap_or ttl (ce_default_ttl e)
      then Some (new_asset now status headers body ttl (ce_default_ttl e)) else None)"
    using x S by (simp add: is_expired_def duration_since_def new_asset_def)
  then show ?thesis using r S g by simp
qed

definition example_engine :: "(string, unit CachedAsset) list_lru LruCacheEngine" where
  "example_engine = cache_new list_lru_ops 3 2 10"

lemma example_engine_inv: "cache_inv list_lru_valid ll_entries example_engine \<and> fits_usize example_engine"
  by (simp add: example_engine_def list_assets.new_inv) (simp add: cache_new_def fits_usize_def)

theorem cache_insert_get_witness:
  "\<exists>r e'. cache_insert list_lru_ops 5 ''k'' 200 () [1, 2] None example_engine = Some (r, e') \<and>
     ir_inserted r \<and> fst (cache_get list_lru_ops 6 ''k'' e') \<noteq> None"
  using cache_insert_get [OF list_asset_cache, of example_engine 5 "''k''" 200 "()" "[1, 2]" None 6] example_engine_inv
  by (auto simp: example_engine_def cache_new_def leaked_def from_secs_def list_lru_ops_def)

text \<open>
  C20: an insertion always returns, whatever the sizes, the locks and the accounted memory, also if the
  memory counter is wrong or has wrapped around: the loop that evicts ends, because every round takes an entry out
  of the container. It leaves a valid container that holds old entries and at most the new one.
\<close>

theorem cache_insert_terminates:
  assumes "asset_cache ops valid entries capacity" and "valid (ce_inner e)"
  shows "\<exists>r e'. cache_insert ops now key status headers body ttl e = Some (r, e') \<and> valid (ce_inner e') \<and>
    set (entries (ce_inner e')) \<subseteq>
      insert (key, new_asset now status headers body ttl (ce_default_ttl e)) (set (entries (ce_inner e)))"
  by (rule asset_cache.insert_terminates [OF assms])

theorem cache_insert_terminates_witness:
  "\<exists>r e'. cache_insert list_lru_ops 1 ''k'' 200 () [1, 2] None (example_engine\<lparr>ce_memory_bytes := usize_max\<rparr>) = Some (r, e') \<and>
     list_lru_valid (ce_inner e')"
  using cache_insert_terminates [OF list_asset_cache, of "example_engine\<lparr>ce_memory_bytes := usize_max\<rparr>" 1 "''k''" 200 "()" "[1, 2]" None]
    list_assets.new_inv
  by (auto simp: example_engine_def cache_new_def list_lru_valid_def list_lru_ops_def)

text \<open>
  C19: the cache never serves anything but the current content: along any sequence of calls from a
  new cache, every call returns, and what a lookup finds is the asset of the latest successful
  insertion under that very key, still within its time to live.
\<close>

theorem cache_never_stale:
  assumes "asset_cache ops valid entries capacity" and "2 * cap \<le> usize_max"
    and "run (cache_step ops) xs (cache_new ops cap max_file ttl) = (answers, e)"
  shows "Diverged \<notin> set answers \<and>
    (fst (cache_get ops now key e) = Some a \<longrightarrow>
       stored (from_secs ttl) (zip xs answers) key = Some a \<and> now - ca_created_at a < ca_ttl a)"
proof -
  have i: "cache_inv valid entries e" and d: "Diverged \<notin> set answers"
    and h: "holds_stored entries e (stored (from_secs ttl) (zip xs answers))"
    using asset_cache.run_stored [OF assms(1,2), of xs max_file ttl] assms(3) by simp_all
  have "stored (from_secs ttl) (zip xs answers) key = Some a \<and> now - ca_created_at a < ca_ttl a"
    if f: "fst (cache_get ops now key e) = Some a"
  proof -
    obtain e' where g: "cache_get ops now key e = (Some a, e')" using f by (metis prod.collapse)
    have "map_of (entries (ce_inner e)) key = Some a" "\<not> is_expired now a"
      using asset_cache.get_spec [OF assms(1) i g] by (auto split: option.splits if_splits)
    then show ?thesis
      using h by (auto simp: holds_stored_def is_expired_def duration_since_def dest!: map_of_SomeD)
  qed
  then show ?thesis using d by simp
qed

definition example_cache_calls :: "(Instant \<times> unit cache_op) list" where
  "example_cache_calls = [(1, Insert ''k'' 200 () [1] None), (2, Insert ''k'' 200 () [7] None)]"

theorem cache_never_stale_witness:
  "stored (from_secs 10) (zip example_cache_calls
     (fst (run (cache_step list_lru_ops) example_cache_calls (cache_new list_lru_ops 3 2 10)))) ''k'' =
   Some (new_asset 2 200 () [7] None (from_secs 10))"
proof -
  let ?run = "run (cache_step list_lru_ops) example_cache_calls (cache_new list_lru_ops 3 2 10)"
  have "fst (cache_get list_lru_ops 3 ''k'' (snd ?run)) = Some (new_asset 2 200 () [7] None (from_secs 10))"
    by (simp add: example_cache_calls_def cache_eval run.simps)
  then show ?thesis
    using cache_never_stale [OF list_asset_cache, of 3 example_cache_calls 2 10 "fst ?run" "snd ?run" 3 "''k''"
        "new_asset 2 200 () [7] None (from_secs 10)"]
    by simp
qed


text \<open>
  C40: memory is lost when the container is full: storing a new key into a cache that holds as many
  entries as the container's capacity drops the least recently used entry without giving its
  size back; no lookup and no insertion ever gives lost memory back; and once the lost memory
  and the body of an asset exceed the capacity, inserting it evicts every entry and still fails.
\<close>

theorem cache_leak:
  assumes "asset_cache ops valid entries capacity" and "cache_inv valid entries e" and "fits_usize e"
    and "cache_insert ops now key status headers body ttl e = Some (r, e')"
  shows "leaked entries e \<le> leaked entries e' \<and>
    leaked entries (snd (cache_get ops later key' e)) = leaked entries e \<and>
    (map_of (entries (ce_inner e)) key = None \<and> length (entries (ce_inner e)) = capacity (ce_inner e) \<and>
     ce_memory_bytes e + length body \<le> ce_max_capacity_bytes e \<and> ir_inserted r \<longrightarrow>
       leaked entries e' = leaked entries e + ca_size_bytes (snd (last (entries (ce_inner e))))) \<and>
    (length body \<le> ce_max_file_size_bytes e \<and> length body \<le> ce_max_capacity_bytes e \<and>
     ce_max_capacity_bytes e < leaked entries e + length body \<longrightarrow>
       \<not> ir_inserted r \<and> entries (ce_inner e') = [])"
proof -
  note S = asset_cache.insert_spec [OF assms]
  obtain x e2 where g: "cache_get ops later key' e = (x, e2)" by fastforce
  have "leaked entries e' = leaked entries e + ca_size_bytes (snd (last (entries (ce_inner e))))"
    if "map_of (entries (ce_inner e)) key = None" "length (entries (ce_inner e)) = capacity (ce_inner e)"
      "ce_memory_bytes e + length body \<le> ce_max_capacity_bytes e" "ir_inserted r"
    using asset_cache.insert_order [OF assms that(4)] that(1-3) by (auto simp: Let_def dest: evicts_nothing)
  moreover have "entries (ce_inner e') = []"
    if "length body \<le> ce_max_file_size_bytes e" "length body \<le> ce_max_capacity_bytes e" "\<not> ir_inserted r"
    using asset_cache.insert_failed [OF assms(1-3) that(1,2) assms(4) that(3)] .
  ultimately show ?thesis
    using S asset_cache.get_leaked [OF assms(1,2) g] g by simp
qed

text \<open>A container of one entry, full, and a cache of three bytes around it.\<close>

definition example_full_engine :: "(string, unit CachedAsset) list_lru LruCacheEngine" where
  "example_full_engine =
     (cache_new list_lru_ops 3 3 10)
       \<lparr>ce_inner := \<lparr>ll_cap = 1, ll_entries = [(''a'', new_asset 1 200 () [1] None (from_secs 10))]\<rparr>,
        ce_memory_bytes := 1\<rparr>"

lemma example_full_inv:
  "cache_inv list_lru_valid ll_entries example_full_engine \<and> fits_usize example_full_engine"
  by (simp add: example_full_engine_def cache_new_def cache_inv_def fits_usize_def list_lru_valid_def)

lemma example_full_insert:
  "\<exists>r e'. cache_insert list_lru_ops 5 ''b'' 200 () body None example_full_engine = Some (r, e')"
  by (rule list_assets.insert_returns) (simp_all add: example_full_inv)


theorem cache_leak_witness:
  "\<exists>r e'. cache_insert list_lru_ops 5 ''b'' 200 () [2] None example_full_engine = Some (r, e') \<and>
     leaked ll_entries e' = 1"
proof -
  obtain r e' where r: "cache_insert list_lru_ops 5 ''b'' 200 () [2] None example_full_engine = Some (r, e')"
    using example_full_insert by blast
  have "ir_inserted r"
    using list_assets.insert_spec [OF _ _ r] example_full_inv
    by (simp add: example_full_engine_def cache_new_def leaked_def)
  then show ?thesis
    using cache_leak [OF list_asset_cache _ _ r, of 0 "''a''"] example_full_inv r
    by (simp add: example_full_engine_def cache_new_def leaked_def)
qed

section \<open>Static assets\<close>

lemma char_lower_idem [simp]: "char_lower (char_lower c) = char_lower c"
  by (auto simp: char_lower_def Let_def of_char_of)

lemma to_lowercase_idem [simp]: "to_lowercase (to_lowercase s) = to_lowercase s"
  by (simp add: to_lowercase_def)

text \<open>
  Whether a response is cached as a static asset does not depend on the case of the path or of
  the content type, and a service worker, a web manifest, an HTML page or the root path is never
  one, whatever its content type.
\<close>

lemma is_static_asset_case:
  "is_static_asset path ct = is_static_asset (to_lowercase path) (map_option to_lowercase ct) \<and>
   (is_static_asset path ct \<longrightarrow>
      \<not> (\<exists>suffix\<in>{''sw.js'', ''.html'', ''.webmanifest''}. ends_with (to_lowercase path) suffix) \<and>
      \<not> contains (to_lowercase path) ''service-worker'' \<and> path \<noteq> ''/'')"
proof -
  have "to_lowercase ''/'' = ''/''" by (simp add: to_lowercase_def char_lower_def)
  then show ?thesis
    by (auto simp: is_static_asset_def is_uncacheable_entrypoint_def Let_def split: option.splits if_splits)
qed

end
