(* ===== verification/Http.thy ===== *)
theory Http
  imports Rust_Net
begin

text \<open>
  The interface of the \<open>http\<close> and \<open>hyper\<close> crates, as far as the sources use it. The functions of
  the crates are the fields of a record, an argument of every definition that calls them; the
  types of header maps and header values are left open. The locale states the documented
  behaviour: a header map holds a list of values per name, \<open>insert\<close> replaces them, \<open>append\<close> adds
  one. An association list with values over visible ASCII has this behaviour.
\<close>

section \<open>Messages\<close>

text \<open>What the sources read of a parsed URI.\<close>

record Uri =
  uri_authority :: "string option"
  uri_path :: string
  uri_path_and_query :: "string option"
  uri_query :: "string option"

text \<open>A body in memory, a body still to be read, or such a body with a size limit.\<close>

datatype 'b Body = Full Bytes | Incoming 'b | Limited "'b Body" nat

record ('h, 'b) Request =
  rq_method :: string
  rq_uri :: Uri
  rq_version :: string
  rq_headers :: 'h
  rq_body :: "'b Body"

record ('h, 'b) Response =
  rs_status :: StatusCode
  rs_headers :: 'h
  rs_body :: "'b Body"

text \<open>The errors the handlers pass on.\<close>

datatype BoxError = InvalidUri string | InvalidMethod string | InvalidHeaderValue string | ToStrError | ClientError string

text \<open>The bytes of a string, in UTF-8.\<close>

definition utf8_char :: "char \<Rightarrow> Bytes" where
  "utf8_char c = (let n = (of_char c :: nat) in
     if n < 128 then [of_nat n] else [of_nat (192 + n div 64), of_nat (128 + n mod 64)])"

definition utf8 :: "string \<Rightarrow> Bytes" where
  "utf8 s = concat (map utf8_char s)"

section \<open>Interface\<close>

record ('h, 'v) http_ops =
  hm_new :: 'h
  hm_get :: "'h \<Rightarrow> string \<Rightarrow> 'v option"
  hm_contains_key :: "'h \<Rightarrow> string \<Rightarrow> bool"
  hm_insert :: "string \<Rightarrow> 'v \<Rightarrow> 'h \<Rightarrow> 'h"
  hm_append :: "string \<Rightarrow> 'v \<Rightarrow> 'h \<Rightarrow> 'h"
  hm_iter :: "'h \<Rightarrow> (string \<times> 'v) list"
  hv_to_str :: "'v \<Rightarrow> string option"
  hv_from_str :: "string \<Rightarrow> 'v option"
  hv_from_static :: "string \<Rightarrow> 'v"
  st_from_u16 :: "nat \<Rightarrow> StatusCode option"
  st_canonical_reason :: "StatusCode \<Rightarrow> string option"
  st_is_success :: "StatusCode \<Rightarrow> bool"
  st_is_client_error :: "StatusCode \<Rightarrow> bool"
  st_is_server_error :: "StatusCode \<Rightarrow> bool"
  method_valid :: "string \<Rightarrow> bool"
  uri_parse :: "string \<Rightarrow> Uri option"

text \<open>Visible ASCII, the blank and the tab: the characters of a header value that is text.\<close>

definition visible_ascii :: "char \<Rightarrow> bool" where
  "visible_ascii c = (let n = (of_char c :: nat) in (32 \<le> n \<and> n < 127) \<or> n = 9)"

locale http_crate =
  fixes ops :: "('h, 'v) http_ops"
    and vals :: "'h \<Rightarrow> string \<Rightarrow> 'v list"
  assumes vals_new: "vals (hm_new ops) k = []"
    and get: "hm_get ops h k = (case vals h k of [] \<Rightarrow> None | v # _ \<Rightarrow> Some v)"
    and contains_key: "hm_contains_key ops h k \<longleftrightarrow> vals h k \<noteq> []"
    and vals_insert: "vals (hm_insert ops k v h) k' = (if k' = k then [v] else vals h k')"
    and vals_append: "vals (hm_append ops k v h) k' = (if k' = k then vals h k @ [v] else vals h k')"
    and iter: "map snd (filter (\<lambda>e. fst e = k) (hm_iter ops h)) = vals h k"
    and to_str_from_str: "list_all visible_ascii s \<Longrightarrow> hv_from_str ops s = Some v \<Longrightarrow> hv_to_str ops v = Some s"
    and from_str: "list_all visible_ascii s \<Longrightarrow> \<exists>v. hv_from_str ops s = Some v"
    and to_str_from_static: "list_all visible_ascii s \<Longrightarrow> hv_to_str ops (hv_from_static ops s) = Some s"
    and to_str_visible: "hv_to_str ops v = Some s \<Longrightarrow> list_all visible_ascii s"
    and from_u16: "100 \<le> n \<Longrightarrow> n < 1000 \<Longrightarrow> st_from_u16 ops n = Some n"
    and is_success: "st_is_success ops n \<longleftrightarrow> 200 \<le> n \<and> n < 300"
    and is_client_error: "st_is_client_error ops n \<longleftrightarrow> 400 \<le> n \<and> n < 500"
    and is_server_error: "st_is_server_error ops n \<longleftrightarrow> 500 \<le> n \<and> n < 600"
begin

lemma get_insert: "hm_get ops (hm_insert ops k v h) k' = (if k' = k then Some v else hm_get ops h k')"
  by (simp add: get vals_insert)

lemma get_append: "hm_get ops (hm_append ops k v h) k' =
    (if k' = k then (case hm_get ops h k of None \<Rightarrow> Some v | Some w \<Rightarrow> Some w) else hm_get ops h k')"
  by (simp add: get vals_append split: list.splits)

lemma get_new: "hm_get ops (hm_new ops) k = None"
  by (simp add: get vals_new)

end

text \<open>\<open>headers.get(name).and_then(|v| v.to_str().ok())\<close>\<close>

definition header_str :: "('h, 'v) http_ops \<Rightarrow> 'h \<Rightarrow> string \<Rightarrow> string option" where
  "header_str ops h name = Option.bind (hm_get ops h name) (hv_to_str ops)"

text \<open>
  A request or response builder given header values as text: each is checked and appended, the
  first one that is not a header value is the error of the build.
\<close>

fun builder_headers :: "('h, 'v) http_ops \<Rightarrow> (string \<times> string) list \<Rightarrow> 'h \<Rightarrow> BoxError + 'h" where
  "builder_headers ops [] h = Inr h"
| "builder_headers ops ((k, s) # hs) h =
     (case hv_from_str ops s of
        None \<Rightarrow> Inl (InvalidHeaderValue s)
      | Some v \<Rightarrow> builder_headers ops hs (hm_append ops k v h))"

context http_crate
begin

lemma builder_headers_vals:
  "builder_headers ops hs h = Inr h' \<Longrightarrow>
   vals h' k = vals h k @ map (\<lambda>e. the (hv_from_str ops (snd e))) (filter (\<lambda>e. fst e = k) hs)"
proof (induction hs arbitrary: h)
  case (Cons e hs)
  then show ?case by (cases e) (auto simp: vals_append split: option.splits)
qed simp

lemma builder_headers_visible:
  "list_all (\<lambda>e. list_all visible_ascii (snd e)) hs \<Longrightarrow> \<exists>h'. builder_headers ops hs h = Inr h'"
proof (induction hs arbitrary: h)
  case (Cons e hs)
  then show ?case using from_str [of "snd e"] by (cases e) auto
qed simp

lemma header_str_visible: "header_str ops h k = Some s \<Longrightarrow> list_all visible_ascii s"
  by (auto simp: header_str_def bind_eq_Some_conv intro: to_str_visible)

end

section \<open>An association list\<close>

type_synonym alist_headers = "(string \<times> string) list"

definition alist_values :: "alist_headers \<Rightarrow> string \<Rightarrow> string list" where
  "alist_values h k = map snd (filter (\<lambda>e. fst e = k) h)"

definition alist_text :: "string \<Rightarrow> string option" where
  "alist_text s = (if list_all visible_ascii s then Some s else None)"

definition alist_ops :: "(string \<Rightarrow> Uri option) \<Rightarrow> (alist_headers, string) http_ops" where
  "alist_ops parse =
     \<lparr>hm_new = [],
      hm_get = (\<lambda>h k. map_of h k),
      hm_contains_key = (\<lambda>h k. list_ex (\<lambda>e. fst e = k) h),
      hm_insert = (\<lambda>k v h. filter (\<lambda>e. fst e \<noteq> k) h @ [(k, v)]),
      hm_append = (\<lambda>k v h. h @ [(k, v)]),
      hm_iter = (\<lambda>h. h),
      hv_to_str = alist_text, hv_from_str = alist_text, hv_from_static = (\<lambda>s. s),
      st_from_u16 = (\<lambda>n. if 100 \<le> n \<and> n < 1000 then Some n else None),
      st_canonical_reason = (\<lambda>n. if n = 429 then Some ''Too Many Requests'' else None),
      st_is_success = (\<lambda>n. 200 \<le> n \<and> n < 300),
      st_is_client_error = (\<lambda>n. 400 \<le> n \<and> n < 500),
      st_is_server_error = (\<lambda>n. 500 \<le> n \<and> n < 600),
      method_valid = (\<lambda>s. s \<noteq> [] \<and> list_all (\<lambda>c. c \<in> set ''ABCDEFGHIJKLMNOPQRSTUVWXYZ'') s),
      uri_parse = parse\<rparr>"

lemma map_of_alist_values: "map_of h k = (case alist_values h k of [] \<Rightarrow> None | v # _ \<Rightarrow> Some v)"
  by (induction h) (auto simp: alist_values_def)

lemma filter_key_other: "k' \<noteq> k \<Longrightarrow> filter (\<lambda>e. fst e \<noteq> k \<and> fst e = k') h = filter (\<lambda>e. fst e = k') h"
  by (rule filter_cong) auto

interpretation alist: http_crate "alist_ops parse" alist_values for parse
proof
  show "hm_contains_key (alist_ops parse) h k \<longleftrightarrow> alist_values h k \<noteq> []" for h k
    by (auto simp: alist_ops_def alist_values_def list_ex_iff filter_empty_conv)
  show "alist_values (hm_insert (alist_ops parse) k v h) k' = (if k' = k then [v] else alist_values h k')" for k v h k'
    by (auto simp: alist_ops_def alist_values_def filter_key_other)
qed (auto simp: alist_ops_def alist_values_def alist_text_def map_of_alist_values split: if_splits list.splits)

lemma alist_http_crate: "http_crate (alist_ops parse) alist_values"
  by unfold_locales

end
