(* ===== verification/Auth.thy ===== *)
theory Auth
  imports Http
begin

text \<open>
  Authentication by an external service, \<open>src/src/auth.rs\<close>: the sub-request that describes the
  client's request to the service, the reading of the service's answer, and the contract of an
  authentication provider, which the forwarding provider satisfies.
\<close>

section \<open>Definitions\<close>

datatype ('h, 'b) AuthResult = Success 'h | Denied "('h, 'b) Response"

type_synonym ('h, 'b) HttpClient = "('h, 'b) Request \<Rightarrow> BoxError + ('h, 'b) Response"

type_synonym ('h, 'b) AuthProvider =
  "string \<Rightarrow> string \<Rightarrow> string \<Rightarrow> Uri \<Rightarrow> 'h \<Rightarrow> BoxError + ('h, 'b) AuthResult"

record ('h, 'b) ForwardAuthProvider =
  fa_auth_url :: string
  fa_client :: "('h, 'b) HttpClient"

text \<open>The host of a request: the authority of its URI, else its \<open>Host\<close> header, else nothing.\<close>

definition request_host :: "('h, 'v) http_ops \<Rightarrow> Uri \<Rightarrow> 'h \<Rightarrow> string" where
  "request_host ops uri headers =
     unwrap_or (case uri_authority uri of
                  Some a \<Rightarrow> Some a
                | None \<Rightarrow> header_str ops headers ''host'') []"

definition path_and_query_of :: "Uri \<Rightarrow> string" where
  "path_and_query_of uri = unwrap_or (uri_path_and_query uri) ''/''"

definition described_headers :: "string \<Rightarrow> string \<Rightarrow> string \<Rightarrow> string \<Rightarrow> (string \<times> string) list" where
  "described_headers method host path_and_query client_ip =
     [(''x-forwarded-method'', method),
      (''x-forwarded-proto'', ''https''),
      (''x-forwarded-host'', host),
      (''x-forwarded-uri'', path_and_query),
      (''x-forwarded-for'', client_ip),
      (''x-original-url'', ''https://'' @ host @ path_and_query)]"

definition credential_headers :: "string list" where
  "credential_headers = [''cookie'', ''authorization'', ''x-api-key'', ''accept'']"

text \<open>Append the first value of each of the given names.\<close>

fun forward_headers :: "('h, 'v) http_ops \<Rightarrow> 'h \<Rightarrow> string list \<Rightarrow> 'h \<Rightarrow> 'h" where
  "forward_headers ops headers [] h = h"
| "forward_headers ops headers (name # names) h =
     forward_headers ops headers names
       (case hm_get ops headers name of None \<Rightarrow> h | Some val \<Rightarrow> hm_append ops name val h)"

definition auth_sub_request ::
  "('h, 'v) http_ops \<Rightarrow> string \<Rightarrow> string \<Rightarrow> string \<Rightarrow> Uri \<Rightarrow> 'h \<Rightarrow> BoxError + ('h, 'b) Request" where
  "auth_sub_request ops auth_url client_ip method uri headers =
     and_then (ok_or (uri_parse ops auth_url) (InvalidUri auth_url)) (\<lambda>auth_uri.
       let host = request_host ops uri headers;
           path_and_query = path_and_query_of uri
       in if \<not> method_valid ops method then Inl (InvalidMethod method)
          else and_then (builder_headers ops (described_headers method host path_and_query client_ip) (hm_new ops)) (\<lambda>h.
            Inr \<lparr>rq_method = method, rq_uri = auth_uri, rq_version = ''HTTP/1.1'',
                 rq_headers = forward_headers ops headers credential_headers h,
                 rq_body = Full []\<rparr>))"

definition identity_header :: "string \<Rightarrow> bool" where
  "identity_header k = (starts_with k ''remote-'' \<or> starts_with k ''x-forwarded-user'' \<or> starts_with k ''x-auth-'')"

fun keep_identity :: "('h, 'v) http_ops \<Rightarrow> (string \<times> 'v) list \<Rightarrow> 'h \<Rightarrow> 'h" where
  "keep_identity ops [] h = h"
| "keep_identity ops ((k, v) # kvs) h =
     keep_identity ops kvs (if identity_header k then hm_insert ops k v h else h)"

definition auth_answer :: "('h, 'v) http_ops \<Rightarrow> BoxError + ('h, 'b) Response \<Rightarrow> BoxError + ('h, 'b) AuthResult" where
  "auth_answer ops r =
     and_then r (\<lambda>resp.
       if st_is_success ops (rs_status resp)
       then Inr (Success (keep_identity ops (hm_iter ops (rs_headers resp)) (hm_new ops)))
       else Inr (Denied resp))"

definition authenticate :: "('h, 'v) http_ops \<Rightarrow> ('h, 'b) ForwardAuthProvider \<Rightarrow> ('h, 'b) AuthProvider" where
  "authenticate ops self peer_addr client_ip method uri headers =
     and_then (auth_sub_request ops (fa_auth_url self) client_ip method uri headers)
       (\<lambda>sub_req. auth_answer ops (fa_client self sub_req))"

section \<open>The contract of a provider\<close>

text \<open>
  A provider that succeeds answers with identity headers only, one value each. The client of the
  contract is the request forwarder, which inserts the answer's headers over the ones of the
  client's request.
\<close>

locale auth_contract = http_crate ops vals
  for ops :: "('h, 'v) http_ops" and vals :: "'h \<Rightarrow> string \<Rightarrow> 'v list" +
  fixes provider :: "('h, 'b) AuthProvider"
  assumes success_identity:
      "provider peer client_ip method uri headers = Inr (Success h) \<Longrightarrow> vals h k \<noteq> [] \<Longrightarrow> identity_header k"
    and success_single:
      "provider peer client_ip method uri headers = Inr (Success h) \<Longrightarrow> length (vals h k) \<le> 1"
begin

lemma success_other:
  "provider peer client_ip method uri headers = Inr (Success h) \<Longrightarrow> \<not> identity_header k \<Longrightarrow> vals h k = []"
  using success_identity by blast

lemma success_iter_identity:
  assumes "provider peer client_ip method uri headers = Inr (Success h)" "e \<in> set (hm_iter ops h)"
  shows "identity_header (fst e)"
proof (rule success_identity [OF assms(1)])
  have "snd e \<in> set (map snd (filter (\<lambda>e'. fst e' = fst e) (hm_iter ops h)))" using assms(2) by auto
  then show "vals h (fst e) \<noteq> []" unfolding iter by auto
qed

end

context http_crate
begin

lemma forward_headers_vals:
  "distinct names \<Longrightarrow>
   vals (forward_headers ops headers names h) k = vals h k @ (if k \<in> set names then take 1 (vals headers k) else [])"
  by (induction names arbitrary: h) (auto simp: get vals_append split: list.splits)

lemma keep_identity_vals:
  "vals (keep_identity ops kvs h) k =
   (let vs = map snd (filter (\<lambda>e. fst e = k) kvs)
    in if identity_header k \<and> vs \<noteq> [] then [last vs] else vals h k)"
proof (induction kvs arbitrary: h)
  case (Cons e kvs)
  then show ?case by (cases e) (auto simp: Let_def vals_insert)
qed simp

lemma auth_answer_success:
  "auth_answer ops r = Inr (Success h) \<Longrightarrow>
   \<exists>resp. r = Inr resp \<and> 200 \<le> rs_status resp \<and> rs_status resp < 300 \<and>
     (\<forall>k. vals h k = (if identity_header k \<and> vals (rs_headers resp) k \<noteq> [] then [last (vals (rs_headers resp) k)] else []))"
  by (auto simp: auth_answer_def and_then_def keep_identity_vals Let_def iter vals_new is_success
      split: sum.splits if_splits)

lemma authenticate_success:
  fixes self :: "('h, 'b) ForwardAuthProvider"
  assumes "authenticate ops self peer client_ip method uri headers = Inr (Success h)"
  obtains req resp where
    "auth_sub_request ops (fa_auth_url self) client_ip method uri headers = Inr req"
    "fa_client self req = Inr resp" "200 \<le> rs_status resp" "rs_status resp < 300"
    "\<And>k. vals h k = (if identity_header k \<and> vals (rs_headers resp) k \<noteq> [] then [last (vals (rs_headers resp) k)] else [])"
proof (cases "auth_sub_request ops (fa_auth_url self) client_ip method uri headers :: BoxError + ('h, 'b) Request")
  case (Inl e)
  then show ?thesis using assms by (simp add: authenticate_def and_then_def)
next
  case (Inr req)
  then have "auth_answer ops (fa_client self req) = Inr (Success h)"
    using assms by (simp add: authenticate_def and_then_def)
  from auth_answer_success [OF this] that Inr show ?thesis by blast
qed

end

sublocale http_crate \<subseteq> forward_auth: auth_contract ops vals "authenticate ops self" for self
proof unfold_locales
  fix peer client_ip mth uri headers h k
  assume *: "authenticate ops self peer client_ip mth uri headers = Inr (Success h)"
  show "vals h k \<noteq> [] \<Longrightarrow> identity_header k"
    by (rule authenticate_success [OF *]) (auto split: if_splits)
  show "length (vals h k) \<le> 1"
    by (rule authenticate_success [OF *]) (auto split: if_splits)
qed

section \<open>Properties\<close>

lemma described_headers_values:
  "map (\<lambda>e. f (snd e)) (filter (\<lambda>e. fst e = k) (described_headers method host path_and_query client_ip)) =
   (case map_of (described_headers method host path_and_query client_ip) k of None \<Rightarrow> [] | Some s \<Rightarrow> [f s])"
  by (simp add: described_headers_def)

lemma described_not_credential:
  "k \<in> set credential_headers \<Longrightarrow> map_of (described_headers method host path_and_query client_ip) k = None"
  by (auto simp: credential_headers_def described_headers_def)

text \<open>
  C31: the headers of the request to the authentication service are exactly the six that describe
  the client's request, computed by the proxy, and the first value of each of the four credential
  headers. Nothing else the client sends, in particular no forwarding header of its own, reaches
  the service.
\<close>

theorem auth_sub_request_headers:
  assumes "http_crate ops vals"
    and "auth_sub_request ops auth_url client_ip method uri headers = Inr req"
  shows "rq_method req = method \<and> uri_parse ops auth_url = Some (rq_uri req) \<and> rq_body req = Full [] \<and>
    vals (rq_headers req) k =
      (if k \<in> set credential_headers then take 1 (vals headers k)
       else case map_of (described_headers method (request_host ops uri headers) (path_and_query_of uri) client_ip) k of
              None \<Rightarrow> []
            | Some s \<Rightarrow> [the (hv_from_str ops s)])"
proof -
  let ?ds = "described_headers method (request_host ops uri headers) (path_and_query_of uri) client_ip"
  obtain h where h: "builder_headers ops ?ds (hm_new ops) = Inr h"
    "rq_method req = method" "uri_parse ops auth_url = Some (rq_uri req)" "rq_body req = Full []"
    "rq_headers req = forward_headers ops headers credential_headers h"
    using assms(2) by (auto simp: auth_sub_request_def and_then_def ok_or_def Let_def split: sum.splits option.splits if_splits)
  have "distinct credential_headers" by (simp add: credential_headers_def)
  then show ?thesis
    using h(2-4) described_not_credential
    by (simp add: h(5) http_crate.forward_headers_vals [OF assms(1)] http_crate.builder_headers_vals [OF assms(1) h(1)]
        http_crate.vals_new [OF assms(1)] described_headers_values [where f = "\<lambda>s. the (hv_from_str ops s)"])
qed

definition example_uri :: Uri where
  "example_uri = \<lparr>uri_authority = Some ''a.org'', uri_path = ''/x'', uri_path_and_query = Some ''/x?q'', uri_query = Some ''q''\<rparr>"

definition example_request_headers :: alist_headers where
  "example_request_headers =
     [(''cookie'', ''s=1''), (''cookie'', ''t=2''), (''x-forwarded-for'', ''9.9.9.9''), (''remote-user'', ''eve'')]"

definition example_http :: "(alist_headers, string) http_ops" where
  "example_http = alist_ops (\<lambda>_. Some example_uri)"

definition example_sub_request :: "(alist_headers, unit) Request" where
  "example_sub_request =
     \<lparr>rq_method = ''GET'', rq_uri = example_uri, rq_version = ''HTTP/1.1'',
      rq_headers = [(''x-forwarded-method'', ''GET''), (''x-forwarded-proto'', ''https''), (''x-forwarded-host'', ''a.org''),
        (''x-forwarded-uri'', ''/x?q''), (''x-forwarded-for'', ''1.2.3.4''), (''x-original-url'', ''https://a.org/x?q''),
        (''cookie'', ''s=1'')],
      rq_body = Full []\<rparr>"

lemma example_http_crate: "http_crate example_http alist_values"
  unfolding example_http_def by (rule alist_http_crate)

lemmas http_eval = alist_ops_def alist_text_def alist_values_def visible_ascii_def header_str_def
  and_then_def ok_or_def unwrap_or_def

lemma example_sub_request_built:
  "auth_sub_request example_http ''http://auth'' ''1.2.3.4'' ''GET'' example_uri example_request_headers = Inr example_sub_request"
  by (simp add: auth_sub_request_def example_http_def example_uri_def example_request_headers_def example_sub_request_def
      described_headers_def credential_headers_def request_host_def path_and_query_of_def http_eval Let_def)

theorem auth_sub_request_headers_witness:
  "alist_values (rq_headers example_sub_request) ''cookie'' = [''s=1''] \<and>
   alist_values (rq_headers example_sub_request) ''x-forwarded-for'' = [''1.2.3.4''] \<and>
   alist_values (rq_headers example_sub_request) ''remote-user'' = []"
  using auth_sub_request_headers [OF example_http_crate example_sub_request_built, of "''cookie''"]
    auth_sub_request_headers [OF example_http_crate example_sub_request_built, of "''x-forwarded-for''"]
    auth_sub_request_headers [OF example_http_crate example_sub_request_built, of "''remote-user''"]
  by (simp add: credential_headers_def described_headers_def example_request_headers_def example_http_def http_eval)

text \<open>
  C29: authentication succeeds exactly if the service answers the sub-request with a status from
  200 to 299, and then grants the identity headers of the answer and nothing else: one value for
  each, the last of the answer.
\<close>

theorem authenticate_grants:
  assumes "http_crate ops vals"
  shows "(\<exists>h. authenticate ops self peer client_ip method uri headers = Inr (Success h) \<and>
            (\<forall>k. vals h k = granted k)) \<longleftrightarrow>
    (\<exists>req resp. auth_sub_request ops (fa_auth_url self) client_ip method uri headers = Inr req \<and>
       fa_client self req = Inr resp \<and> 200 \<le> rs_status resp \<and> rs_status resp < 300 \<and>
       (\<forall>k. granted k = (if identity_header k \<and> vals (rs_headers resp) k \<noteq> []
                         then [last (vals (rs_headers resp) k)] else [])))"
    (is "?l \<longleftrightarrow> ?r")
proof
  assume ?l
  then obtain h where h: "authenticate ops self peer client_ip method uri headers = Inr (Success h)"
    and g: "\<And>k. granted k = vals h k" by auto
  show ?r by (rule http_crate.authenticate_success [OF assms h]) (auto simp: g)
next
  assume ?r
  then show ?l
    by (auto simp: authenticate_def auth_answer_def and_then_def http_crate.is_success [OF assms]
        http_crate.keep_identity_vals [OF assms] http_crate.iter [OF assms] http_crate.vals_new [OF assms] Let_def)
qed

definition example_provider :: "(alist_headers, unit) ForwardAuthProvider" where
  "example_provider =
     \<lparr>fa_auth_url = ''http://auth'',
      fa_client = (\<lambda>req. Inr \<lparr>rs_status = 200, rs_headers = [(''remote-user'', ''ann''), (''server'', ''s'')], rs_body = Full []\<rparr>)\<rparr>"

theorem authenticate_grants_witness:
  "\<exists>h. authenticate example_http example_provider ''p'' ''1.2.3.4'' ''GET'' example_uri example_request_headers = Inr (Success h) \<and>
      (\<forall>k. alist_values h k = (if k = ''remote-user'' then [''ann''] else []))"
proof (subst authenticate_grants [OF example_http_crate], intro exI conjI)
  show "auth_sub_request example_http (fa_auth_url example_provider) ''1.2.3.4'' ''GET'' example_uri example_request_headers =
      Inr example_sub_request"
    using example_sub_request_built by (simp add: example_provider_def)
  show "fa_client example_provider example_sub_request =
      Inr \<lparr>rs_status = 200, rs_headers = [(''remote-user'', ''ann''), (''server'', ''s'')], rs_body = Full []\<rparr>"
    by (simp add: example_provider_def)
qed (simp_all add: identity_header_def alist_values_def str_eval)

end
