(* ===== verification/Tls.thy ===== *)
theory Tls
  imports Config_Wf
begin

text \<open>
  The TLS set-up of \<open>src/src/tls.rs\<close>: loading the certificates of the HTTPS routes and choosing one
  by the server name a client asks for. The file system, the PEM readers and \<open>rustls\<close> are given by
  their operations; an error of theirs is its text.
\<close>

section \<open>Definitions\<close>

record ('file, 'cert, 'priv, 'key) tls_ops =
  file_open :: "string \<Rightarrow> string + 'file"
  pem_certs :: "'file \<Rightarrow> string + 'cert list"
  pem_private_key :: "'file \<Rightarrow> string + 'priv option"
  key_from_der :: "'cert list \<Rightarrow> 'priv \<Rightarrow> string + 'key"

record 'key ExactCertResolver =
  exact_match :: "string \<rightharpoonup> 'key"

definition resolver_new :: "'key ExactCertResolver" where
  "resolver_new = \<lparr>exact_match = Map.empty\<rparr>"

definition resolver_add :: "string \<Rightarrow> 'key \<Rightarrow> 'key ExactCertResolver \<Rightarrow> 'key ExactCertResolver" where
  "resolver_add hostname key self = self\<lparr>exact_match := (exact_match self)(hostname \<mapsto> key)\<rparr>"

definition resolve_cert :: "'key ExactCertResolver \<Rightarrow> string option \<Rightarrow> 'key option" where
  "resolve_cert self server_name = Option.bind server_name (exact_match self)"

definition extract_hostname_from_endpoint :: "string \<Rightarrow> string option" where
  "extract_hostname_from_endpoint endpoint =
     (case strip_prefix endpoint ''https://'' of
        None \<Rightarrow> None
      | Some stripped \<Rightarrow>
          (let host_and_port = hd (split_char stripped CHR ''/'');
               host = hd (split_char host_and_port CHR '':'')
           in if host \<noteq> [] then Some host else None))"

definition map_err :: "('e \<Rightarrow> 'f) \<Rightarrow> 'e + 'a \<Rightarrow> 'f + 'a" where
  "map_err f r = (case r of Inl e \<Rightarrow> Inl (f e) | Inr x \<Rightarrow> Inr x)"

definition load_certified_key ::
  "('file, 'cert, 'priv, 'key) tls_ops \<Rightarrow> string \<Rightarrow> string \<Rightarrow> ProxyError + 'key" where
  "load_certified_key ops cert_path key_path =
     and_then (map_err (\<lambda>e. TlsError (''Failed to open cert file '' @ [CHR 0x27] @ cert_path @ [CHR 0x27] @ '': '' @ e))
                 (file_open ops cert_path)) (\<lambda>cert_file.
     and_then (map_err (\<lambda>e. TlsError (''Failed to open key file '' @ [CHR 0x27] @ key_path @ [CHR 0x27] @ '': '' @ e))
                 (file_open ops key_path)) (\<lambda>key_file.
     and_then (map_err (\<lambda>e. TlsError (''Failed to parse certificates: '' @ e)) (pem_certs ops cert_file)) (\<lambda>cert_chain.
     and_then (map_err (\<lambda>e. TlsError (''Failed to parse private key: '' @ e)) (pem_private_key ops key_file)) (\<lambda>found.
     and_then (ok_or found (TlsError ''No private key found in key file'')) (\<lambda>key.
     map_err (\<lambda>e. TlsError (''TLS config error: '' @ e)) (key_from_der ops cert_chain key))))))"

text \<open>The configuration of an acceptor.\<close>

record 'key TlsAcceptor =
  ta_resolver :: "'key ExactCertResolver"
  ta_alpn_protocols :: "string list"

definition https_endpoint :: "Route \<Rightarrow> bool" where
  "https_endpoint r = starts_with (rt_request_endpoint r) ''https://''"

text \<open>The host name and the key of one HTTPS route.\<close>

definition route_key :: "('file, 'cert, 'priv, 'key) tls_ops \<Rightarrow> Route \<Rightarrow> ProxyError + (string \<times> 'key)" where
  "route_key ops route =
     and_then (ok_or (extract_hostname_from_endpoint (rt_request_endpoint route))
                 (TlsError (''Invalid HTTPS endpoint: '' @ rt_request_endpoint route))) (\<lambda>hostname.
     and_then (ok_or (rt_cert_path route)
                 (TlsError (''Missing cert directive for route: '' @ rt_request_endpoint route))) (\<lambda>cert_path.
     and_then (ok_or (rt_key_path route)
                 (TlsError (''Missing key directive for route: '' @ rt_request_endpoint route))) (\<lambda>key_path.
     and_then (load_certified_key ops cert_path key_path) (\<lambda>certified_key. Inr (hostname, certified_key)))))"

fun add_routes ::
  "('file, 'cert, 'priv, 'key) tls_ops \<Rightarrow> Route list \<Rightarrow> 'key ExactCertResolver \<Rightarrow> ProxyError + 'key ExactCertResolver" where
  "add_routes ops [] resolver = Inr resolver"
| "add_routes ops (route # routes) resolver =
     and_then (route_key ops route) (\<lambda>(hostname, key). add_routes ops routes (resolver_add hostname key resolver))"

definition build_tls_acceptor ::
  "('file, 'cert, 'priv, 'key) tls_ops \<Rightarrow> Route list \<Rightarrow> ProxyError + 'key TlsAcceptor option" where
  "build_tls_acceptor ops routes =
     (let https_routes = filter https_endpoint routes
      in if https_routes = [] then Inr None
         else and_then (add_routes ops https_routes resolver_new) (\<lambda>resolver.
                Inr (Some \<lparr>ta_resolver = resolver, ta_alpn_protocols = [''h2'', ''http/1.1'']\<rparr>)))"

section \<open>Lemmas\<close>

text \<open>The HTTPS routes of a host name.\<close>

definition routes_for :: "string \<Rightarrow> Route list \<Rightarrow> Route list" where
  "routes_for name routes =
     filter (\<lambda>r. https_endpoint r \<and> extract_hostname_from_endpoint (rt_request_endpoint r) = Some name) routes"

lemma map_err_Inr [simp]: "map_err f r = Inr x \<longleftrightarrow> r = Inr x"
  by (simp add: map_err_def split: sum.splits)

lemma route_key_host:
  "route_key ops r = Inr (name, key) \<Longrightarrow> extract_hostname_from_endpoint (rt_request_endpoint r) = Some name"
  by (auto simp: route_key_def and_then_eq_Inr)

lemma add_routes_match:
  assumes "add_routes ops routes resolver = Inr resolver'" "list_all https_endpoint routes"
  shows "exact_match resolver' name =
    (if routes_for name routes = [] then exact_match resolver name
     else (case route_key ops (last (routes_for name routes)) of Inl _ \<Rightarrow> None | Inr (_, key) \<Rightarrow> Some key))"
  using assms
proof (induction routes arbitrary: resolver)
  case (Cons r routes)
  obtain host key where k: "route_key ops r = Inr (host, key)"
    and rest: "add_routes ops routes (resolver_add host key resolver) = Inr resolver'"
    using Cons.prems(1) by (auto simp: and_then_eq_Inr)
  show ?case
    using Cons.IH [OF rest] Cons.prems(2) k route_key_host [OF k]
    by (auto simp: routes_for_def resolver_add_def)
qed (simp add: routes_for_def)

lemma routes_for_https: "routes_for name (filter https_endpoint routes) = routes_for name routes"
  by (simp add: routes_for_def conj_commute)

section \<open>Properties\<close>

text \<open>
  C32: a handshake for a server name gets the certificate of the last HTTPS route with that host,
  loaded from the files the route names, and none if there is no such route or no server name. A
  TLS acceptor exists exactly if there is an HTTPS route.
\<close>

theorem resolve_cert_last_route:
  assumes "build_tls_acceptor ops routes = Inr acceptor"
  shows "(acceptor = None \<longleftrightarrow> list_all (\<lambda>r. \<not> https_endpoint r) routes) \<and>
    (\<forall>a. acceptor = Some a \<longrightarrow> resolve_cert (ta_resolver a) None = None \<and>
       (\<forall>name. resolve_cert (ta_resolver a) (Some name) =
          (if routes_for name routes = [] then None
           else Option.bind (rt_cert_path (last (routes_for name routes))) (\<lambda>cert.
                Option.bind (rt_key_path (last (routes_for name routes))) (\<lambda>key.
                case load_certified_key ops cert key of Inl _ \<Rightarrow> None | Inr k \<Rightarrow> Some k)))))"
proof (cases "filter https_endpoint routes = []")
  case True
  then show ?thesis using assms by (auto simp: build_tls_acceptor_def filter_empty_conv list_all_iff)
next
  case False
  obtain res where r: "add_routes ops (filter https_endpoint routes) resolver_new = Inr res"
    and a: "acceptor = Some \<lparr>ta_resolver = res, ta_alpn_protocols = [''h2'', ''http/1.1'']\<rparr>"
    using assms False by (auto simp: build_tls_acceptor_def and_then_eq_Inr)
  have last: "(case route_key ops r of Inl _ \<Rightarrow> None | Inr (_, key) \<Rightarrow> Some key) =
      Option.bind (rt_cert_path r) (\<lambda>cert. Option.bind (rt_key_path r) (\<lambda>key.
        case load_certified_key ops cert key of Inl _ \<Rightarrow> None | Inr k \<Rightarrow> Some k))"
    if "r \<in> set (routes_for name routes)" for r name
    using that by (auto simp: route_key_def routes_for_def and_then_def ok_or_def split: sum.splits option.splits)
  have "exact_match res name = (if routes_for name routes = [] then None
      else (case route_key ops (last (routes_for name routes)) of Inl _ \<Rightarrow> None | Inr (_, key) \<Rightarrow> Some key))" for name
    using add_routes_match [OF r] by (simp add: list_all_iff routes_for_https resolver_new_def)
  then show ?thesis
    using False last [OF last_in_set]
    by (auto simp: a resolve_cert_def filter_empty_conv list_all_iff)
qed

text \<open>A file system where every file holds a key named like the file.\<close>

definition example_tls :: "(string, string, string, string) tls_ops" where
  "example_tls =
     \<lparr>file_open = Inr, pem_certs = (\<lambda>f. Inr [f]), pem_private_key = (\<lambda>f. Inr (Some f)),
      key_from_der = (\<lambda>certs key. Inr (concat certs @ key))\<rparr>"

definition example_https_route :: "string \<Rightarrow> string \<Rightarrow> Route" where
  "example_https_route endpoint cert =
     \<lparr>rt_request_endpoint = endpoint, rt_forward_endpoint = ''http://b:1'', rt_auth_required = False,
      rt_cert_path = Some cert, rt_key_path = Some ''k'', rt_cache = None, rt_intercept_errors = None\<rparr>"

definition example_https_routes :: "Route list" where
  "example_https_routes = [example_https_route ''https://a/x'' ''c'', example_https_route ''https://a:8/y'' ''d'']"

lemmas tls_eval = build_tls_acceptor_def route_key_def load_certified_key_def map_err_def resolver_add_def
  resolver_new_def https_endpoint_def extract_hostname_from_endpoint_def routes_for_def

theorem resolve_cert_last_route_witness:
  "\<exists>a. build_tls_acceptor example_tls example_https_routes = Inr (Some a) \<and>
      resolve_cert (ta_resolver a) (Some ''a'') = Some ''dk'' \<and> resolve_cert (ta_resolver a) (Some ''b'') = None"
proof -
  have "\<exists>a. build_tls_acceptor example_tls example_https_routes = Inr (Some a)"
    by (simp add: tls_eval example_tls_def example_https_routes_def example_https_route_def str_eval)
  then obtain a where a: "build_tls_acceptor example_tls example_https_routes = Inr (Some a)" by blast
  have "routes_for ''a'' example_https_routes = example_https_routes" "routes_for ''b'' example_https_routes = []"
    by (simp_all add: tls_eval example_https_routes_def example_https_route_def str_eval)
  moreover have "resolve_cert (ta_resolver a) (Some name) =
      (if routes_for name example_https_routes = [] then None
       else Option.bind (rt_cert_path (last (routes_for name example_https_routes))) (\<lambda>cert.
            Option.bind (rt_key_path (last (routes_for name example_https_routes))) (\<lambda>key.
            case load_certified_key example_tls cert key of Inl _ \<Rightarrow> None | Inr k \<Rightarrow> Some k)))" for name
    using resolve_cert_last_route [OF a] by blast
  ultimately show ?thesis
    using a by (simp add: example_https_routes_def example_https_route_def example_tls_def load_certified_key_def map_err_def)
qed

end
