(* ===== verification/Runtime_Config.thy ===== *)
theory Runtime_Config
  imports Router Security Cache Auth Tls
begin

text \<open>
  The live configuration of \<open>src/src/runtime_config.rs\<close>: how a parsed configuration becomes the
  state a request works with, and how a file is loaded for a reload. The security manager and the
  cache engine are shared objects: a configuration holds references into a store, so that two
  configurations can refer to the same manager.
\<close>

section \<open>Definitions\<close>

record 'c Store =
  st_managers :: "SecurityManager list"
  st_engines :: "'c LruCacheEngine list"

record ('key, 'h, 'b) ActiveConfig =
  ac_generation :: nat
  ac_router :: Router
  ac_tls_acceptor :: "'key TlsAcceptor option"
  ac_logfile :: "string option"
  ac_security :: "SecurityConfig option"
  ac_security_manager :: nat
  ac_auth_provider :: "('h, 'b) ForwardAuthProvider option"
  ac_cache_config :: "CacheConfig option"
  ac_cache_engine :: "nat option"
  ac_global_intercept_errors :: bool

definition alloc_manager :: "SecurityManager \<Rightarrow> 'c Store \<Rightarrow> nat \<times> 'c Store" where
  "alloc_manager m s = (length (st_managers s), s\<lparr>st_managers := st_managers s @ [m]\<rparr>)"

definition alloc_engine :: "'c LruCacheEngine \<Rightarrow> 'c Store \<Rightarrow> nat \<times> 'c Store" where
  "alloc_engine e s = (length (st_engines s), s\<lparr>st_engines := st_engines s @ [e]\<rparr>)"

text \<open>
  What the loading reads of its surroundings: files, the number of processors, TLS material and an
  HTTP client, which there is if the root certificates of the system can be loaded.
\<close>

record ('file, 'cert, 'priv, 'key, 'h, 'b) environment =
  env_read_to_string :: "string \<Rightarrow> string + string"
  env_parallelism :: "nat option"
  env_tls :: "('file, 'cert, 'priv, 'key) tls_ops"
  env_connector :: "('h, 'b) HttpClient option"
  env_open_log :: "string option \<Rightarrow> string \<Rightarrow> string list option"

datatype LoadError =
    ReadFailed string string
  | ParseFailed string ParseError
  | PortChanged nat nat
  | WorkersChanged nat nat
  | TlsFailed ProxyError

text \<open>The texts of the errors; \<open>debug\<close> is the derived \<open>Debug\<close> of \<open>ParseError\<close>.\<close>

fun load_error_text :: "(ParseError \<Rightarrow> string) \<Rightarrow> LoadError \<Rightarrow> string" where
  "load_error_text debug (ReadFailed path e) = ''Failed to read proxy config '' @ [CHR 0x27] @ path @ [CHR 0x27] @ '': '' @ e"
| "load_error_text debug (ParseFailed path e) = ''Failed to parse proxy config '' @ [CHR 0x27] @ path @ [CHR 0x27] @ '': '' @ debug e"
| "load_error_text debug (PortChanged expected found) =
     ''Reload rejected: listen port changed from '' @ show_nat expected @ '' to '' @ show_nat found"
| "load_error_text debug (WorkersChanged expected found) =
     ''Reload rejected: workers changed from '' @ show_nat expected @ '' to '' @ show_nat found"
| "load_error_text debug (TlsFailed e) = ''Failed to initialise TLS: '' @ proxy_error_to_string e"

text \<open>The provider of a configuration, or a panic if there is no client for it.\<close>

definition build_auth_provider ::
  "('h, 'b) HttpClient option \<Rightarrow> SecurityConfig option \<Rightarrow> ('h, 'b) ForwardAuthProvider option outcome" where
  "build_auth_provider connector security =
     (case Option.bind security sec_forward_auth of
        None \<Rightarrow> Returned None
      | Some auth_url \<Rightarrow>
          (case connector of
             None \<Rightarrow> Panicked
           | Some client \<Rightarrow> Returned (Some \<lparr>fa_auth_url = auth_url, fa_client = client\<rparr>)))"

definition build_cache_engine ::
  "('c, 'h) asset_ops \<Rightarrow> CacheConfig option \<Rightarrow> 'c Store \<Rightarrow> nat option \<times> 'c Store" where
  "build_cache_engine aops cache s =
     (case cache of
        None \<Rightarrow> (None, s)
      | Some c \<Rightarrow>
          (if cc_enabled c
           then (let (r, s') = alloc_engine
                   (cache_new aops (cc_max_capacity_bytes c) (cc_max_file_size_bytes c) (cc_default_ttl_sec c)) s
                 in (Some r, s'))
           else (None, s)))"

definition build_active_config ::
  "('file, 'cert, 'priv, 'key, 'h, 'b) environment \<Rightarrow> ('c, 'h) asset_ops \<Rightarrow> Config \<Rightarrow> nat \<Rightarrow> nat option \<Rightarrow>
   'c Store \<Rightarrow> (LoadError + ('key, 'h, 'b) ActiveConfig) outcome \<times> 'c Store" where
  "build_active_config env aops config generation security_manager s =
     (case build_tls_acceptor (env_tls env) (cfg_routes config) of
        Inl e \<Rightarrow> (Returned (Inl (TlsFailed e)), s)
      | Inr tls_acceptor \<Rightarrow>
          (let (manager, s1) = (case security_manager of
                                  Some m \<Rightarrow> (m, s)
                                | None \<Rightarrow> alloc_manager (from_security_config (cfg_security config)) s)
           in case build_auth_provider (env_connector env) (cfg_security config) of
                Panicked \<Rightarrow> (Panicked, s1)
              | Returned auth_provider \<Rightarrow>
                  (let (engine, s2) = build_cache_engine aops (cfg_cache config) s1
                   in (Returned (Inr
                        \<lparr>ac_generation = generation,
                         ac_router = \<lparr>router_routes = cfg_routes config\<rparr>,
                         ac_tls_acceptor = tls_acceptor,
                         ac_logfile = cfg_logfile config,
                         ac_security = cfg_security config,
                         ac_security_manager = manager,
                         ac_auth_provider = auth_provider,
                         ac_cache_config = cfg_cache config,
                         ac_cache_engine = engine,
                         ac_global_intercept_errors = unwrap_or (cfg_intercept_errors config) False\<rparr>), s2))))"

definition load_config_from_path ::
  "('file, 'cert, 'priv, 'key, 'h, 'b) environment \<Rightarrow> string \<Rightarrow> LoadError + Config" where
  "load_config_from_path env path =
     and_then (map_err (ReadFailed path) (env_read_to_string env path)) (\<lambda>contents.
     map_err (ParseFailed path) (parse_proxy_config (env_parallelism env) contents))"

definition load_active_config_from_path ::
  "('file, 'cert, 'priv, 'key, 'h, 'b) environment \<Rightarrow> ('c, 'h) asset_ops \<Rightarrow> string \<Rightarrow> nat \<Rightarrow> nat \<Rightarrow> nat \<Rightarrow>
   nat option \<Rightarrow> 'c Store \<Rightarrow> (LoadError + ('key, 'h, 'b) ActiveConfig) outcome \<times> 'c Store" where
  "load_active_config_from_path env aops path expected_listen_port expected_workers generation security_manager s =
     (case load_config_from_path env path of
        Inl e \<Rightarrow> (Returned (Inl e), s)
      | Inr config \<Rightarrow>
          (if cfg_listen_port config \<noteq> expected_listen_port
           then (Returned (Inl (PortChanged expected_listen_port (cfg_listen_port config))), s)
           else if cfg_workers config \<noteq> expected_workers
           then (Returned (Inl (WorkersChanged expected_workers (cfg_workers config))), s)
           else build_active_config env aops config generation security_manager s))"

text \<open>The shared configuration and its lock.\<close>

record ('key, 'h, 'b) SharedConfig =
  sc_current :: "('key, 'h, 'b) ActiveConfig"
  sc_poisoned :: bool

definition create_config_store :: "('key, 'h, 'b) ActiveConfig \<Rightarrow> ('key, 'h, 'b) SharedConfig" where
  "create_config_store initial = \<lparr>sc_current = initial, sc_poisoned = False\<rparr>"

definition config_load :: "('key, 'h, 'b) SharedConfig \<Rightarrow> ('key, 'h, 'b) ActiveConfig outcome" where
  "config_load shared = (if sc_poisoned shared then Panicked else Returned (sc_current shared))"

definition config_store ::
  "('key, 'h, 'b) ActiveConfig \<Rightarrow> ('key, 'h, 'b) SharedConfig \<Rightarrow> unit outcome \<times> ('key, 'h, 'b) SharedConfig" where
  "config_store config shared =
     (if sc_poisoned shared then (Panicked, shared) else (Returned (), shared\<lparr>sc_current := config\<rparr>))"

section \<open>References\<close>

text \<open>The references of a configuration point into the store.\<close>

definition refs_ok :: "'c Store \<Rightarrow> ('key, 'h, 'b) ActiveConfig \<Rightarrow> bool" where
  "refs_ok s ac \<longleftrightarrow>
     ac_security_manager ac < length (st_managers s) \<and>
     pred_option (\<lambda>r. r < length (st_engines s)) (ac_cache_engine ac)"

text \<open>A store that has all objects of another one, unchanged, and maybe more.\<close>

definition extends :: "'c Store \<Rightarrow> 'c Store \<Rightarrow> bool" where
  "extends s s' \<longleftrightarrow>
     take (length (st_managers s)) (st_managers s') = st_managers s \<and>
     take (length (st_engines s)) (st_engines s') = st_engines s"

lemma extends_refl [simp]: "extends s s"
  by (simp add: extends_def)

lemma extends_managers: "extends s s' \<Longrightarrow> r < length (st_managers s) \<Longrightarrow> st_managers s' ! r = st_managers s ! r"
  by (metis extends_def nth_take)

lemma extends_lengths:
  "extends s s' \<Longrightarrow> length (st_managers s) \<le> length (st_managers s') \<and> length (st_engines s) \<le> length (st_engines s')"
  by (metis extends_def length_take min.absorb_iff1 min.commute)

lemma extends_refs_ok: "extends s s' \<Longrightarrow> refs_ok s ac \<Longrightarrow> refs_ok s' ac"
  using extends_lengths by (cases "ac_cache_engine ac") (fastforce simp: refs_ok_def)+

lemma build_cache_engine_spec:
  "build_cache_engine aops cache s = (r, s') \<Longrightarrow>
   extends s s' \<and> pred_option (\<lambda>r. r < length (st_engines s')) r \<and> st_managers s' = st_managers s \<and>
   (r \<noteq> None \<longleftrightarrow> (\<exists>c. cache = Some c \<and> cc_enabled c))"
  by (auto simp: build_cache_engine_def alloc_engine_def extends_def split: option.splits if_splits)

lemma build_auth_provider_spec:
  "build_auth_provider connector security = Returned p \<Longrightarrow>
   map_option fa_auth_url p = Option.bind security sec_forward_auth"
  by (auto simp: build_auth_provider_def split: option.splits)

text \<open>What a configuration built with a given manager is, and that building adds objects only.\<close>

lemma build_active_config_extends:
  "build_active_config env aops config generation sm s = (r, s') \<Longrightarrow> extends s s'"
  by (auto simp: build_active_config_def alloc_manager_def build_cache_engine_def alloc_engine_def extends_def Let_def
      split: sum.splits option.splits outcome.splits prod.splits if_splits)

lemma build_active_config_spec:
  assumes "build_active_config env aops config generation sm s = (Returned (Inr ac), s')"
    and "pred_option (\<lambda>r. r < length (st_managers s)) sm"
  shows "ac_generation ac = generation" "router_routes (ac_router ac) = cfg_routes config"
    "ac_security ac = cfg_security config" "ac_logfile ac = cfg_logfile config"
    "map_option fa_auth_url (ac_auth_provider ac) = Option.bind (cfg_security config) sec_forward_auth"
    "ac_cache_engine ac \<noteq> None \<longleftrightarrow> (\<exists>c. cfg_cache config = Some c \<and> cc_enabled c)"
    "\<And>m. sm = Some m \<Longrightarrow> ac_security_manager ac = m \<and> st_managers s' = st_managers s"
    "refs_ok s' ac"
  using assms
  by (auto simp: build_active_config_def alloc_manager_def refs_ok_def Let_def extends_def
      dest!: build_cache_engine_spec build_auth_provider_spec
      split: sum.splits option.splits outcome.splits prod.splits)

lemma load_active_config_loaded:
  assumes "load_active_config_from_path env aops path port workers generation sm s = (Returned (Inr ac), s')"
  obtains config where "load_config_from_path env path = Inr config" "cfg_listen_port config = port"
    "cfg_workers config = workers"
    "build_active_config env aops config generation sm s = (Returned (Inr ac), s')"
  using assms by (auto simp: load_active_config_from_path_def split: sum.splits if_splits)

lemma load_active_config_extends:
  "load_active_config_from_path env aops path port workers generation sm s = (r, s') \<Longrightarrow> extends s s'"
  by (auto simp: load_active_config_from_path_def build_active_config_extends split: sum.splits if_splits)

lemma load_config_parses:
  "load_config_from_path env path = Inr config \<Longrightarrow>
   \<exists>contents. parse_proxy_config (env_parallelism env) contents = Inr config"
  by (auto simp: load_config_from_path_def)

section \<open>Properties\<close>

text \<open>
  C28: a configuration loaded for a reload keeps the port and the number of workers, refers to the
  same security manager, whose counters and bans are untouched, whatever the new security block
  says, and gets a cache engine of its own, if any: a new one that holds nothing. All objects of the
  previous configurations stay as they are.
\<close>

theorem reload_keeps_manager:
  assumes "load_active_config_from_path env aops path port workers generation (Some m) s = (Returned (Inr ac), s')"
    and "m < length (st_managers s)"
  shows "ac_security_manager ac = m \<and> st_managers s' = st_managers s \<and> extends s s' \<and> refs_ok s' ac \<and>
    ac_generation ac = generation \<and>
    (\<exists>config. load_config_from_path env path = Inr config \<and> cfg_listen_port config = port \<and>
       cfg_workers config = workers \<and> router_routes (ac_router ac) = cfg_routes config \<and>
       (\<forall>r. ac_cache_engine ac = Some r \<longrightarrow>
          r = length (st_engines s) \<and>
          (\<exists>c. cfg_cache config = Some c \<and> st_engines s' ! r =
             cache_new aops (cc_max_capacity_bytes c) (cc_max_file_size_bytes c) (cc_default_ttl_sec c))))"
proof -
  obtain config where c: "load_config_from_path env path = Inr config" "cfg_listen_port config = port"
    "cfg_workers config = workers"
    "build_active_config env aops config generation (Some m) s = (Returned (Inr ac), s')"
    using assms(1) by (rule load_active_config_loaded)
  have m: "pred_option (\<lambda>r. r < length (st_managers s)) (Some m)" using assms(2) by simp
  have "r = length (st_engines s) \<and> (\<exists>c. cfg_cache config = Some c \<and> st_engines s' ! r =
      cache_new aops (cc_max_capacity_bytes c) (cc_max_file_size_bytes c) (cc_default_ttl_sec c))"
    if "ac_cache_engine ac = Some r" for r
    using c(4) that
    by (auto simp: build_active_config_def build_cache_engine_def alloc_engine_def
        split: sum.splits option.splits outcome.splits if_splits)
  then show ?thesis
    using build_active_config_spec [OF c(4) m] build_active_config_extends [OF c(4)] c(1-3) by blast
qed

text \<open>
  In every configuration loaded from a file, a route that demands authentication has a provider:
  the request handler never meets such a route without one.
\<close>

lemma protected_routes_have_provider:
  assumes "load_active_config_from_path env aops path port workers generation sm s = (Returned (Inr ac), s')"
    and "pred_option (\<lambda>n. 1 \<le> n \<and> n \<le> usize_max) (env_parallelism env)"
    and "pred_option (\<lambda>r. r < length (st_managers s)) sm"
    and "match_route (ac_router ac) host path' = Some m" and "mr_auth_required m"
  shows "ac_auth_provider ac \<noteq> None"
proof -
  obtain config where c: "load_config_from_path env path = Inr config"
    "build_active_config env aops config generation sm s = (Returned (Inr ac), s')"
    using assms(1) by (rule load_active_config_loaded)
  have "config_wf config" using load_config_parses [OF c(1)] parsed_config_wf [OF _ assms(2)] by blast
  moreover have "list_ex rt_auth_required (cfg_routes config)"
    using assms(4,5) build_active_config_spec(2) [OF c(2) assms(3)]
    by (auto simp: match_route_def match_in_find matched_route_def Let_def find_Some_iff list_ex_iff)
  ultimately show ?thesis
    using build_active_config_spec(5) [OF c(2) assms(3)] by (auto simp: config_wf_def)
qed

text \<open>A file with a protected route and a cache, and the configuration loaded from it.\<close>

definition example_auth_text :: string where
  "example_auth_text =
     ''listen 80;'' @ [newline] @ ''route http://a.b {'' @ [newline] @ ''upstream h:80;'' @ [newline] @
     ''auth on;'' @ [newline] @ ''}'' @ [newline] @
     ''security {'' @ [newline] @ ''forward_auth http://auth;'' @ [newline] @ ''}'' @ [newline] @
     ''cache {'' @ [newline] @ ''enabled on;'' @ [newline] @ ''max_capacity 100;'' @ [newline] @ ''max_file_size 10;'' @ [newline] @
     ''ttl 5;'' @ [newline] @ ''}'' @ [newline]"

definition example_auth_cfg :: Config where
  "example_auth_cfg =
     \<lparr>cfg_listen_port = 80,
      cfg_routes = [\<lparr>rt_request_endpoint = ''http://a.b'', rt_forward_endpoint = ''h:80'', rt_auth_required = True,
        rt_cert_path = None, rt_key_path = None, rt_cache = None, rt_intercept_errors = None\<rparr>],
      cfg_workers = 4, cfg_logfile = None,
      cfg_security = Some \<lparr>sec_proxy_protocol = False, sec_trusted_upstream = V4 0 0 0 0, sec_timeout_ms = 200,
        sec_max_tls_failures = 5, sec_ban_duration_sec = 3600, sec_rate_limit_rpm = 300,
        sec_forward_auth = Some ''http://auth'', sec_max_body_size = 10485760, sec_max_header_size = 65536\<rparr>,
      cfg_cache = Some \<lparr>cc_enabled = True, cc_max_capacity_bytes = 100, cc_max_file_size_bytes = 10, cc_default_ttl_sec = 5\<rparr>,
      cfg_intercept_errors = None\<rparr>"

lemma example_auth_lines:
  "config_lines example_auth_text =
     [''listen 80;'', ''route http://a.b {'', ''upstream h:80;'', ''auth on;'', ''}'', ''security {'',
      ''forward_auth http://auth;'', ''}'', ''cache {'', ''enabled on;'', ''max_capacity 100;'', ''max_file_size 10;'',
      ''ttl 5;'', ''}'']"
  by (simp add: example_auth_text_def config_lines_eval)

lemma example_auth_parses: "parse_proxy_config (Some 4) example_auth_text = Inr example_auth_cfg"
  unfolding parse_proxy_config_def example_auth_lines example_auth_cfg_def
  by (simp add: parser_eval)

definition example_env :: "(string, string, string, string, alist_headers, unit) environment" where
  "example_env =
     \<lparr>env_read_to_string = (\<lambda>path. Inr example_auth_text), env_parallelism = Some 4, env_tls = example_tls,
      env_connector = Some (fa_client example_provider), env_open_log = (\<lambda>dir path. Some [])\<rparr>"

definition example_store :: "(string, alist_headers CachedAsset) list_lru Store" where
  "example_store = \<lparr>st_managers = [from_security_config (cfg_security example_auth_cfg)], st_engines = []\<rparr>"

definition example_active :: "(string, alist_headers, unit) ActiveConfig" where
  "example_active =
     \<lparr>ac_generation = 1, ac_router = \<lparr>router_routes = cfg_routes example_auth_cfg\<rparr>, ac_tls_acceptor = None,
      ac_logfile = None, ac_security = cfg_security example_auth_cfg, ac_security_manager = 0,
      ac_auth_provider = Some example_provider, ac_cache_config = cfg_cache example_auth_cfg,
      ac_cache_engine = Some 0, ac_global_intercept_errors = False\<rparr>"

definition example_store' :: "(string, alist_headers CachedAsset) list_lru Store" where
  "example_store' = \<lparr>st_managers = [from_security_config (cfg_security example_auth_cfg)], st_engines = [cache_new list_lru_ops 100 10 5]\<rparr>"

lemma example_load:
  "load_active_config_from_path example_env list_lru_ops ''proxy.conf'' 80 4 1 (Some 0) example_store =
   (Returned (Inr example_active), example_store')"
proof -
  have "load_config_from_path example_env ''proxy.conf'' = Inr example_auth_cfg"
    by (simp add: load_config_from_path_def example_env_def map_err_def example_auth_parses)
  then show ?thesis
    by (simp add: load_active_config_from_path_def build_active_config_def build_tls_acceptor_def https_endpoint_def
        build_auth_provider_def build_cache_engine_def alloc_engine_def example_auth_cfg_def example_env_def
        example_store_def example_store'_def example_active_def example_provider_def str_eval)
qed

theorem reload_keeps_manager_witness:
  "ac_security_manager example_active = 0 \<and> st_managers example_store' = st_managers example_store \<and>
   st_engines example_store' ! 0 = cache_new list_lru_ops 100 10 5"
  using reload_keeps_manager [OF example_load] by (simp add: example_store_def example_store'_def)

end
