(* ===== verification/Error_Pages.thy ===== *)
theory Error_Pages
  imports Http
begin

text \<open>
  The error pages of \<open>src/src/error_pages.rs\<close>: the HTML page and the JSON document, and the choice
  between them by the \<open>Accept\<close> header.
\<close>

section \<open>Definitions\<close>

definition unlines :: "string list \<Rightarrow> string" where
  "unlines ls = concat (map (\<lambda>l. l @ [newline]) ls)"

definition html_style :: "string list" where
  "html_style =
     [''  <style>'',
      ''    * { box-sizing: border-box; margin: 0; padding: 0; }'',
      ''    body {'',
      ''      background-color: #f1f5f9;'',
      ''      background-image: linear-gradient(rgba(15, 23, 42, 0.04) 50%, transparent 50%);'',
      ''      background-size: 100% 4px;'',
      ''      color: #0f172a;'',
      ''      font-family: \"Courier New\", Courier, Monaco, \"Lucida Console\", monospace;'',
      ''      display: flex;'',
      ''      align-items: center;'',
      ''      justify-content: center;'',
      ''      min-height: 100vh;'',
      ''      padding: 20px;'',
      ''    }'',
      ''    .card {'',
      ''      background-color: #ffffff;'',
      ''      border: 4px solid #0f172a;'',
      ''      box-shadow: 8px 8px 0px #0f172a;'',
      ''      padding: 36px 32px;'',
      ''      max-width: 480px;'',
      ''      width: 100%;'',
      ''      text-align: center;'',
      ''    }'',
      ''    .banner {'',
      ''      display: inline-block;'',
      ''      background-color: #0f172a;'',
      ''      color: #38bdf8;'',
      ''      font-size: 11px;'',
      ''      font-weight: 700;'',
      ''      letter-spacing: 2px;'',
      ''      padding: 4px 12px;'',
      ''      margin-bottom: 20px;'',
      ''      text-transform: uppercase;'',
      ''      border: 2px solid #0f172a;'',
      ''    }'',
      ''    .status-code {'',
      ''      font-size: 64px;'',
      ''      font-weight: 900;'',
      ''      line-height: 1;'',
      ''      color: #dc2626;'',
      ''      text-shadow: 3px 3px 0px #0f172a;'',
      ''      margin-bottom: 12px;'',
      ''      letter-spacing: 2px;'',
      ''    }'',
      ''    .status-title {'',
      ''      font-size: 20px;'',
      ''      font-weight: 700;'',
      ''      color: #0f172a;'',
      ''      text-transform: uppercase;'',
      ''      letter-spacing: 1px;'',
      ''      margin-bottom: 16px;'',
      ''    }'',
      ''    .description {'',
      ''      font-size: 13px;'',
      ''      color: #334155;'',
      ''      line-height: 1.6;'',
      ''      margin-bottom: 28px;'',
      ''      font-weight: 600;'',
      ''    }'',
      ''    .pixel-divider {'',
      ''      border-top: 4px dashed #0f172a;'',
      ''      margin-bottom: 20px;'',
      ''    }'',
      ''    .meta {'',
      ''      display: flex;'',
      ''      justify-content: space-between;'',
      ''      gap: 12px;'',
      ''      font-size: 11px;'',
      ''    }'',
      ''    .meta-box {'',
      ''      flex: 1;'',
      ''      background-color: #f8fafc;'',
      ''      border: 2px solid #0f172a;'',
      ''      box-shadow: 3px 3px 0px #0f172a;'',
      ''      padding: 8px 6px;'',
      ''      word-break: break-all;'',
      ''      text-align: left;'',
      ''    }'',
      ''    .meta-label {'',
      ''      display: block;'',
      ''      font-weight: 700;'',
      ''      color: #64748b;'',
      ''      font-size: 9px;'',
      ''      text-transform: uppercase;'',
      ''      letter-spacing: 1px;'',
      ''      margin-bottom: 2px;'',
      ''    }'',
      ''    .meta-value {'',
      ''      font-weight: 700;'',
      ''      color: #0f172a;'',
      ''    }'',
      ''  </style>'']"

definition render_html_error_page :: "('h, 'v) http_ops \<Rightarrow> StatusCode \<Rightarrow> string \<Rightarrow> string \<Rightarrow> string \<Rightarrow> string" where
  "render_html_error_page ops status message client_ip host =
     (let reason = unwrap_or (st_canonical_reason ops status) ''Error'';
          display_host = (if host = [] then ''-'' else host);
          display_ip = (if client_ip = [] then ''-'' else client_ip)
      in unlines
          ([''<!DOCTYPE html>'',
           ''<html lang=\"en\">'',
           ''<head>'',
           ''  <meta charset=\"UTF-8\">'',
           ''  <meta name=\"viewport\" content=\"width=device-width, initial-scale=1.0\">'',
           ''  <title>'' @ show_nat status @ '' '' @ reason @ ''</title>''] @
           html_style @
           [''</head>'',
           ''<body>'',
           ''  <div class=\"card\">'',
           ''    <div class=\"banner\">[ PROXY EXCEPTION ]</div>'',
           ''    <div class=\"status-code\">'' @ show_nat status @ ''</div>'',
           ''    <div class=\"status-title\">'' @ reason @ ''</div>'',
           ''    <div class=\"description\">'' @ message @ ''</div>'',
           ''    <div class=\"pixel-divider\"></div>'',
           ''    <div class=\"meta\">'',
           ''      <div class=\"meta-box\"><span class=\"meta-label\">TARGET HOST</span><span class=\"meta-value\">'' @ display_host @ ''</span></div>'',
           ''      <div class=\"meta-box\"><span class=\"meta-label\">CLIENT IP</span><span class=\"meta-value\">'' @ display_ip @ ''</span></div>'',
           ''    </div>'',
           ''  </div>'',
           ''</body>'',
           ''</html>'']))"

definition wants_json :: "('h, 'v) http_ops \<Rightarrow> 'h option \<Rightarrow> bool" where
  "wants_json ops headers =
     (case Option.bind headers (\<lambda>h. header_str ops h ''accept'') of
        None \<Rightarrow> False
      | Some ct \<Rightarrow> contains ct ''application/json'')"

definition render_json_error :: "('h, 'v) http_ops \<Rightarrow> StatusCode \<Rightarrow> string \<Rightarrow> string \<Rightarrow> string" where
  "render_json_error ops status message host =
     ''{\"status\":'' @ show_nat status @ '',\"error\":\"'' @ unwrap_or (st_canonical_reason ops status) ''Error'' @
     ''\",\"message\":\"'' @ message @ ''\",\"host\":\"'' @ (if host = [] then ''-'' else host) @ ''\"}'' @ [newline]"

definition build_error_response ::
  "('h, 'v) http_ops \<Rightarrow> StatusCode \<Rightarrow> string \<Rightarrow> string \<Rightarrow> string \<Rightarrow> 'h option \<Rightarrow> ('h, 'b) Response" where
  "build_error_response ops status message client_ip host headers =
     (if wants_json ops headers
      then \<lparr>rs_status = status,
            rs_headers = hm_append ops ''content-type'' (hv_from_static ops ''application/json'') (hm_new ops),
            rs_body = Full (utf8 (render_json_error ops status message host))\<rparr>
      else \<lparr>rs_status = status,
            rs_headers = hm_append ops ''content-type'' (hv_from_static ops ''text/html; charset=utf-8'') (hm_new ops),
            rs_body = Full (utf8 (render_html_error_page ops status message client_ip host))\<rparr>)"

section \<open>Lemmas\<close>

lemma contains_self: "contains (a @ x @ b) x"
  by (auto simp: contains_iff)

lemma contains_unlines: "l \<in> set ls \<Longrightarrow> contains l x \<Longrightarrow> contains (unlines ls) x"
  by (auto simp: unlines_def contains_iff dest!: split_list) (metis append.assoc)

lemma contains_row: "a @ x @ b \<in> set ls \<Longrightarrow> contains (unlines ls) x"
  using contains_unlines contains_self by blast

text \<open>The page shows the status, its reason, the message, the host and the address.\<close>

lemma html_error_page_shows:
  "contains (render_html_error_page ops status message ip host) (show_nat status)"
  "contains (render_html_error_page ops status message ip host) (unwrap_or (st_canonical_reason ops status) ''Error'')"
  "contains (render_html_error_page ops status message ip host) message"
  "contains (render_html_error_page ops status message ip host) (if host = [] then ''-'' else host)"
  "contains (render_html_error_page ops status message ip host) (if ip = [] then ''-'' else ip)"
  unfolding render_html_error_page_def Let_def
  by (rule contains_row [of "''    <div class=\"status-code\">''" _ "''</div>''"], simp)
     (rule contains_row [of "''    <div class=\"status-title\">''" _ "''</div>''"], simp,
      rule contains_row [of "''    <div class=\"description\">''" _ "''</div>''"], simp,
      rule contains_row [of "''      <div class=\"meta-box\"><span class=\"meta-label\">TARGET HOST</span><span class=\"meta-value\">''" _ "''</span></div>''"], simp,
      rule contains_row [of "''      <div class=\"meta-box\"><span class=\"meta-label\">CLIENT IP</span><span class=\"meta-value\">''" _ "''</span></div>''"], simp)

section \<open>Properties\<close>

text \<open>
  An error response has the status it is asked for and one content type, which follows the
  \<open>Accept\<close> header: JSON if the header's text contains \<open>application/json\<close>, HTML otherwise, also
  without headers.
\<close>

lemma build_error_response_type:
  assumes "http_crate ops vals"
  shows "rs_status (build_error_response ops status message client_ip host headers) = status \<and>
    header_str ops (rs_headers (build_error_response ops status message client_ip host headers)) ''content-type'' =
      Some (if (\<exists>h accept. headers = Some h \<and> header_str ops h ''accept'' = Some accept \<and>
                  contains accept ''application/json'')
            then ''application/json'' else ''text/html; charset=utf-8'')"
proof -
  have v: "list_all visible_ascii ''application/json''" "list_all visible_ascii ''text/html; charset=utf-8''"
    by (simp_all add: visible_ascii_def)
  have "wants_json ops headers \<longleftrightarrow>
      (\<exists>h accept. headers = Some h \<and> header_str ops h ''accept'' = Some accept \<and> contains accept ''application/json'')"
    by (auto simp: wants_json_def bind_eq_Some_conv split: option.splits)
  then show ?thesis
    using http_crate.to_str_from_static [OF assms v(1)] http_crate.to_str_from_static [OF assms v(2)]
    by (auto simp: build_error_response_def header_str_def http_crate.get_append [OF assms] http_crate.get_new [OF assms])
qed

text \<open>
  The host a client names is copied into the error page and into the JSON document as it is, so
  that markup or quotes in it become part of the document.
\<close>

lemma error_page_reflects_host:
  assumes "host \<noteq> []"
  shows "contains (render_html_error_page ops status message client_ip host) host \<and>
    contains (render_json_error ops status message host) host"
proof -
  have "contains (render_html_error_page ops status message client_ip host) host"
    unfolding render_html_error_page_def Let_def using assms
    by (intro contains_unlines [of "''      <div class=\"meta-box\"><span class=\"meta-label\">TARGET HOST</span><span class=\"meta-value\">'' @ host @ ''</span></div>''"])
       (simp_all only: set_append list.set Un_iff insert_iff if_False contains_self simp_thms)
  moreover have "contains (render_json_error ops status message host) host"
    using assms contains_self [of "''{\"status\":'' @ show_nat status @ '',\"error\":\"'' @ unwrap_or (st_canonical_reason ops status) ''Error'' @ ''\",\"message\":\"'' @ message @ ''\",\"host\":\"''" host "''\"}'' @ [newline]"]
    by (simp add: render_json_error_def)
  ultimately show ?thesis by blast
qed

end
