(* ===== verification/Proxy.thy ===== *)
theory Proxy
  imports Runtime_Config Error_Pages
begin

text \<open>
  The request handler of \<open>src/src/proxy.rs\<close>, in the order of the source: who the client is, the
  security gate, the body limit, the cache lookup, authentication, the request to the upstream, the
  treatment of its answer and the headers added at the end. The handler's effects are its result:
  the answer to the client, the request sent to the upstream, the insertion it spawns and whether it
  starts a tunnel; the objects it shares with other requests are in the store. The HTTP client and
  the reading of a body are arguments. Logging is left out.
\<close>

section \<open>Fixed responses\<close>

definition inject_security_headers :: "('h, 'v) http_ops \<Rightarrow> 'h \<Rightarrow> 'h" where
  "inject_security_headers ops headers =
     hm_insert ops ''x-xss-protection'' (hv_from_static ops ''0'')
       (hm_insert ops ''x-frame-options'' (hv_from_static ops ''DENY'')
         (hm_insert ops ''x-content-type-options'' (hv_from_static ops ''nosniff'')
           (hm_insert ops ''strict-transport-security''
             (hv_from_static ops ''max-age=63072000; includeSubDomains; preload'') headers)))"

definition no_response_444 :: "('h, 'v) http_ops \<Rightarrow> ('h, 'b) Response" where
  "no_response_444 ops =
     \<lparr>rs_status = unwrap_or (st_from_u16 ops 444) 404,
      rs_headers = hm_append ops ''connection'' (hv_from_static ops ''close'') (hm_new ops),
      rs_body = Full []\<rparr>"

definition error_response ::
  "('h, 'v) http_ops \<Rightarrow> StatusCode \<Rightarrow> string \<Rightarrow> string \<Rightarrow> string \<Rightarrow> 'h option \<Rightarrow> ('h, 'b) Response" where
  "error_response ops status message client_ip host headers =
     build_error_response ops status message client_ip host headers"

section \<open>The request\<close>

definition is_upgrade_request :: "('h, 'v) http_ops \<Rightarrow> 'h \<Rightarrow> bool" where
  "is_upgrade_request ops headers =
     (let has_upgrade_header = hm_contains_key ops headers ''upgrade'';
          connection_wants_upgrade =
            (case header_str ops headers ''connection'' of
               None \<Rightarrow> False
             | Some v \<Rightarrow> list_ex (\<lambda>token. eq_ignore_ascii_case (trim token) ''upgrade'') (split_char v CHR '',''))
      in has_upgrade_header \<and> connection_wants_upgrade)"

text \<open>The loop over the headers that can name the client: the first one that holds an address.\<close>

fun forwarded_client_ip :: "('h, 'v) http_ops \<Rightarrow> 'h \<Rightarrow> string list \<Rightarrow> string option" where
  "forwarded_client_ip ops headers [] = None"
| "forwarded_client_ip ops headers (name # names) =
     (case header_str ops headers name of
        None \<Rightarrow> forwarded_client_ip ops headers names
      | Some s \<Rightarrow>
          (let ip_part = (if name = ''x-forwarded-for'' then trim (hd (split_char s CHR '','')) else trim s)
           in if is_some (parse_ip_addr ip_part) then Some ip_part
              else forwarded_client_ip ops headers names))"

definition client_ip_of :: "('h, 'v) http_ops \<Rightarrow> bool \<Rightarrow> SocketAddr \<Rightarrow> 'h \<Rightarrow> string" where
  "client_ip_of ops is_proxy_protocol peer_addr headers =
     (let client_ip = ip_to_string (sa_ip peer_addr)
      in if is_proxy_protocol
         then unwrap_or (forwarded_client_ip ops headers [''cf-connecting-ip'', ''true-client-ip'', ''x-forwarded-for'']) client_ip
         else client_ip)"

section \<open>The security gate\<close>

datatype gate = Dropped | Exceeded nat | Passed

definition with_manager ::
  "nat \<Rightarrow> (SecurityManager \<Rightarrow> 'a outcome \<times> SecurityManager) \<Rightarrow> 'c Store \<Rightarrow> 'a outcome \<times> 'c Store" where
  "with_manager r f s =
     (let (x, m) = f (st_managers s ! r) in (x, s\<lparr>st_managers := (st_managers s)[r := m]\<rparr>))"

text \<open>
  The two checks of a request, each under the lock of the manager. The gate is the first and, if it
  lets the request pass, the second.
\<close>

definition ban_check :: "('key, 'h, 'b) ActiveConfig \<Rightarrow> Instant \<Rightarrow> string \<Rightarrow> 'c Store \<Rightarrow> bool outcome \<times> 'c Store" where
  "ban_check ac t client_ip s =
     (case parse_ip_addr client_ip of
        None \<Rightarrow> (Returned False, s)
      | Some ip_addr \<Rightarrow> with_manager (ac_security_manager ac) (is_blacklisted t ip_addr) s)"

definition rate_check ::
  "('key, 'h, 'b) ActiveConfig \<Rightarrow> Instant \<Rightarrow> string \<Rightarrow> 'c Store \<Rightarrow> (nat + nat) outcome \<times> 'c Store" where
  "rate_check ac t client_ip s =
     (case parse_ip_addr client_ip of
        None \<Rightarrow> (Returned (Inr 0), s)
      | Some ip_addr \<Rightarrow> with_manager (ac_security_manager ac) (check_and_record_request t ip_addr) s)"

definition security_gate ::
  "('key, 'h, 'b) ActiveConfig \<Rightarrow> Instant \<Rightarrow> Instant \<Rightarrow> string \<Rightarrow> 'c Store \<Rightarrow> gate outcome \<times> 'c Store" where
  "security_gate ac t1 t2 client_ip s =
     (case ban_check ac t1 client_ip s of
        (Panicked, s1) \<Rightarrow> (Panicked, s1)
      | (Returned True, s1) \<Rightarrow> (Returned Dropped, s1)
      | (Returned False, s1) \<Rightarrow>
          (case rate_check ac t2 client_ip s1 of
             (Panicked, s2) \<Rightarrow> (Panicked, s2)
           | (Returned (Inl count), s2) \<Rightarrow> (Returned (Exceeded count), s2)
           | (Returned (Inr _), s2) \<Rightarrow> (Returned Passed, s2)))"

definition rate_limited_response :: "('h, 'v) http_ops \<Rightarrow> string \<Rightarrow> string \<Rightarrow> 'h \<Rightarrow> ('h, 'b) Response" where
  "rate_limited_response ops client_ip host headers =
     (let resp = error_response ops 429 ''Request rate limit exceeded. Please wait before retrying.''
                   client_ip host (Some headers)
      in resp\<lparr>rs_headers := hm_insert ops ''retry-after'' (hv_from_static ops ''60'') (rs_headers resp)\<rparr>)"

definition max_body_size_of :: "('key, 'h, 'b) ActiveConfig \<Rightarrow> nat" where
  "max_body_size_of ac = (case ac_security ac of None \<Rightarrow> 10 * 1024 * 1024 | Some s \<Rightarrow> sec_max_body_size s)"

definition payload_too_large :: "('h, 'v) http_ops \<Rightarrow> nat \<Rightarrow> 'h \<Rightarrow> bool" where
  "payload_too_large ops max_body_size headers =
     (case Option.bind (header_str ops headers ''content-length'') parse_usize of
        None \<Rightarrow> False
      | Some cl_val \<Rightarrow> cl_val > max_body_size)"

definition payload_too_large_response :: "('h, 'v) http_ops \<Rightarrow> string \<Rightarrow> string \<Rightarrow> 'h \<Rightarrow> ('h, 'b) Response" where
  "payload_too_large_response ops client_ip host headers =
     error_response ops 413 ''The request payload body exceeds the maximum allowed size limit.''
       client_ip host (Some headers)"

section \<open>The cache\<close>

definition is_cacheable_method :: "string \<Rightarrow> bool" where
  "is_cacheable_method method = (method = ''GET'' \<or> method = ''HEAD'')"

definition cache_key_of :: "string \<Rightarrow> string \<Rightarrow> string" where
  "cache_key_of host path_and_query = host @ '':'' @ path_and_query"

definition cache_engine_of :: "('key, 'h, 'b) ActiveConfig \<Rightarrow> MatchedRoute option \<Rightarrow> string \<Rightarrow> nat option" where
  "cache_engine_of ac matched method =
     (let route_cache_enabled = unwrap_or (Option.bind matched mr_cache) True
      in if route_cache_enabled \<and> is_cacheable_method method then ac_cache_engine ac else None)"

definition cache_lookup ::
  "('c, 'h) asset_ops \<Rightarrow> Instant \<Rightarrow> nat option \<Rightarrow> string \<Rightarrow> 'c Store \<Rightarrow> 'h CachedAsset option \<times> 'c Store" where
  "cache_lookup aops now engine key s =
     (case engine of
        None \<Rightarrow> (None, s)
      | Some r \<Rightarrow>
          (let (cached, e) = cache_get aops now key (st_engines s ! r)
           in (cached, s\<lparr>st_engines := (st_engines s)[r := e]\<rparr>)))"

definition cached_response :: "('h, 'v) http_ops \<Rightarrow> 'h CachedAsset \<Rightarrow> ('h, 'b) Response" where
  "cached_response ops cached =
     \<lparr>rs_status = ca_status cached,
      rs_headers = hm_insert ops ''x-proxy-cache'' (hv_from_static ops ''HIT'') (ca_headers cached),
      rs_body = Full (ca_body cached)\<rparr>"

section \<open>Authentication\<close>

text \<open>The response that ends the request, or the headers granted by the provider.\<close>

definition authorize ::
  "('h, 'v) http_ops \<Rightarrow> ('key, 'h, 'b) ActiveConfig \<Rightarrow> SocketAddr \<Rightarrow> string \<Rightarrow> string \<Rightarrow> MatchedRoute \<Rightarrow>
   ('h, 'b) Request \<Rightarrow> ('h, 'b) Response + 'h" where
  "authorize ops ac peer_addr client_ip host m req =
     (if mr_auth_required m
      then (case ac_auth_provider ac of
              Some auth_provider \<Rightarrow>
                (case authenticate ops auth_provider (socket_addr_to_string peer_addr) client_ip (rq_method req)
                        (rq_uri req) (rq_headers req) of
                   Inr (Success headers) \<Rightarrow> Inr headers
                 | Inr (Denied response) \<Rightarrow> Inl response
                 | Inl e \<Rightarrow> Inl (error_response ops 500 ''An internal authentication error occurred.''
                                client_ip host (Some (rq_headers req))))
            | None \<Rightarrow>
                Inl (error_response ops 500
                  (''Route requires authentication ('' @ [CHR 0x27] @ ''auth on;'' @ [CHR 0x27] @ '') but no '' @
                   [CHR 0x27] @ ''forward_auth'' @ [CHR 0x27] @ '' URL is configured in security block.'')
                  client_ip host (Some (rq_headers req))))
      else Inr (hm_new ops))"

section \<open>The request to the upstream\<close>

definition upstream_uri_text :: "MatchedRoute \<Rightarrow> Uri \<Rightarrow> string" where
  "upstream_uri_text m uri =
     (let rewritten_path_and_query =
            (case uri_query uri of
               Some query \<Rightarrow> mr_rewritten_path m @ ''?'' @ query
             | None \<Rightarrow> mr_rewritten_path m)
      in ''http://'' @ mr_upstream_addr m @ rewritten_path_and_query)"

definition header_value :: "('h, 'v) http_ops \<Rightarrow> string \<Rightarrow> BoxError + 'v" where
  "header_value ops s = ok_or (hv_from_str ops s) (InvalidHeaderValue s)"

definition original_host_of :: "('h, 'v) http_ops \<Rightarrow> ('h, 'b) Request \<Rightarrow> BoxError + 'v option" where
  "original_host_of ops req =
     (case hm_get ops (rq_headers req) ''host'' of
        Some host \<Rightarrow> Inr (Some host)
      | None \<Rightarrow>
          (case uri_authority (rq_uri req) of
             Some authority \<Rightarrow> and_then (header_value ops authority) (\<lambda>val. Inr (Some val))
           | None \<Rightarrow> Inr None))"

fun copy_headers :: "('h, 'v) http_ops \<Rightarrow> (string \<times> 'v) list \<Rightarrow> 'h \<Rightarrow> 'h" where
  "copy_headers ops [] headers = headers"
| "copy_headers ops ((key, value) # kvs) headers =
     copy_headers ops kvs
       (if key \<noteq> ''host'' \<and> \<not> starts_with key '':'' then hm_append ops key value headers else headers)"

fun insert_headers :: "('h, 'v) http_ops \<Rightarrow> (string \<times> 'v) list \<Rightarrow> 'h \<Rightarrow> 'h" where
  "insert_headers ops [] headers = headers"
| "insert_headers ops ((k, v) # kvs) headers = insert_headers ops kvs (hm_insert ops k v headers)"

definition forwarded_for :: "('h, 'v) http_ops \<Rightarrow> string \<Rightarrow> 'h \<Rightarrow> BoxError + 'v" where
  "forwarded_for ops client_ip headers =
     (case hm_get ops headers ''x-forwarded-for'' of
        Some existing \<Rightarrow>
          and_then (ok_or (hv_to_str ops existing) ToStrError) (\<lambda>existing_str.
            header_value ops (existing_str @ '', '' @ client_ip))
      | None \<Rightarrow> header_value ops client_ip)"

definition forwarded_headers ::
  "('h, 'v) http_ops \<Rightarrow> string \<Rightarrow> 'h \<Rightarrow> 'v option \<Rightarrow> 'h \<Rightarrow> BoxError + 'h" where
  "forwarded_headers ops client_ip auth_headers original_host headers =
     (let h1 = copy_headers ops (hm_iter ops headers) (hm_new ops);
          h2 = insert_headers ops (hm_iter ops auth_headers) h1;
          h3 = (case original_host of
                  Some host \<Rightarrow> hm_insert ops ''x-forwarded-host'' host (hm_insert ops ''host'' host h2)
                | None \<Rightarrow> h2);
          h4 = hm_insert ops ''x-forwarded-proto'' (hv_from_static ops ''https'') h3
      in and_then (forwarded_for ops client_ip headers) (\<lambda>xff.
         and_then (header_value ops client_ip) (\<lambda>real_ip.
           Inr (hm_insert ops ''x-real-ip'' real_ip (hm_insert ops ''x-forwarded-for'' xff h4)))))"

definition forward_request ::
  "('h, 'v) http_ops \<Rightarrow> nat \<Rightarrow> string \<Rightarrow> MatchedRoute \<Rightarrow> 'h \<Rightarrow> ('h, 'b) Request \<Rightarrow> BoxError + ('h, 'b) Request" where
  "forward_request ops max_body_size client_ip m auth_headers req =
     (let uri_text = upstream_uri_text m (rq_uri req)
      in and_then (ok_or (uri_parse ops uri_text) (InvalidUri uri_text)) (\<lambda>upstream_uri.
         and_then (original_host_of ops req) (\<lambda>original_host.
         and_then (forwarded_headers ops client_ip auth_headers original_host (rq_headers req)) (\<lambda>headers.
           Inr \<lparr>rq_method = rq_method req, rq_uri = upstream_uri, rq_version = ''HTTP/1.1'',
                rq_headers = headers, rq_body = Limited (rq_body req) max_body_size\<rparr>))))"

section \<open>The answer of the upstream\<close>

text \<open>An insertion into the cache, to be done by a task of its own.\<close>

record 'h insert_task =
  it_engine :: nat
  it_key :: string
  it_status :: StatusCode
  it_headers :: 'h
  it_body :: Bytes

record ('h, 'b) handled =
  hd_result :: "BoxError + ('h, 'b) Response"
  hd_sent :: "('h, 'b) Request option"
  hd_task :: "'h insert_task option"
  hd_tunnel :: bool

definition respond :: "('h, 'b) Response \<Rightarrow> ('h, 'b) handled" where
  "respond resp = \<lparr>hd_result = Inr resp, hd_sent = None, hd_task = None, hd_tunnel = False\<rparr>"

text \<open>Leave the handler with a result, or go on to its end with it.\<close>

datatype 'r flow = Return 'r | Continue 'r

definition is_no_store :: "('h, 'v) http_ops \<Rightarrow> 'h \<Rightarrow> bool" where
  "is_no_store ops headers =
     (let cache_control = unwrap_or (header_str ops headers ''cache-control'') []
      in contains cache_control ''no-store'' \<or> contains cache_control ''private'')"

definition exceeds_max_file_size :: "('h, 'v) http_ops \<Rightarrow> nat option \<Rightarrow> 'h \<Rightarrow> bool" where
  "exceeds_max_file_size ops max_file_size headers =
     (case (Option.bind (header_str ops headers ''content-length'') parse_usize, max_file_size) of
        (Some cl, Some limit) \<Rightarrow> cl > limit
      | _ \<Rightarrow> False)"

definition should_cache ::
  "('h, 'v) http_ops \<Rightarrow> string \<Rightarrow> nat option \<Rightarrow> ('h, 'b) Response \<Rightarrow> bool" where
  "should_cache ops path_and_query max_file_size resp =
     (is_static_asset path_and_query (header_str ops (rs_headers resp) ''content-type'') \<and>
      \<not> is_no_store ops (rs_headers resp) \<and>
      \<not> exceeds_max_file_size ops max_file_size (rs_headers resp) \<and>
      rs_status resp = 200)"

definition mark_cache :: "('h, 'v) http_ops \<Rightarrow> string \<Rightarrow> ('h, 'b) Response \<Rightarrow> ('h, 'b) Response" where
  "mark_cache ops state resp =
     resp\<lparr>rs_headers := hm_insert ops ''x-proxy-cache'' (hv_from_static ops state) (rs_headers resp)\<rparr>"

definition intercepted_response ::
  "('h, 'v) http_ops \<Rightarrow> string \<Rightarrow> string \<Rightarrow> 'h \<Rightarrow> StatusCode \<Rightarrow> ('h, 'b) Response" where
  "intercepted_response ops client_ip host client_headers status =
     (let reason = unwrap_or (st_canonical_reason ops status) ''Error'';
          error_resp = error_response ops status (''Upstream server returned error: '' @ reason)
                         client_ip host (Some client_headers)
      in error_resp\<lparr>rs_headers := inject_security_headers ops (rs_headers error_resp)\<rparr>)"

text \<open>
  \<open>engine\<close> is the engine used for the request, if any, with its limit on the size of a file.
\<close>

definition upstream_response ::
  "('h, 'v) http_ops \<Rightarrow> ('b Body \<Rightarrow> Bytes option) \<Rightarrow> bool \<Rightarrow> string \<Rightarrow> string \<Rightarrow> string \<Rightarrow> (nat \<times> nat) option \<Rightarrow>
   bool \<Rightarrow> ('h, 'b) Request \<Rightarrow> ('h, 'b) Request \<Rightarrow> ('h, 'b) Response \<Rightarrow> ('h, 'b) handled flow" where
  "upstream_response ops collect should_intercept client_ip host path_and_query engine upgrade_requested req sent resp =
     (if rs_status resp = 101 \<and> upgrade_requested
      then Continue \<lparr>hd_result = Inr resp, hd_sent = Some sent, hd_task = None, hd_tunnel = True\<rparr>
      else if should_intercept \<and> (st_is_client_error ops (rs_status resp) \<or> st_is_server_error ops (rs_status resp))
      then Return \<lparr>hd_result = Inr (intercepted_response ops client_ip host (rq_headers req) (rs_status resp)),
                   hd_sent = Some sent, hd_task = None, hd_tunnel = False\<rparr>
      else (case (should_cache ops path_and_query (map_option snd engine) resp, engine) of
              (True, Some (r, _)) \<Rightarrow>
                (case collect (rs_body resp) of
                   Some body_bytes \<Rightarrow>
                     Continue \<lparr>hd_result = Inr (mark_cache ops ''MISS'' (resp\<lparr>rs_body := Full body_bytes\<rparr>)),
                               hd_sent = Some sent,
                               hd_task = Some \<lparr>it_engine = r, it_key = cache_key_of host path_and_query,
                                 it_status = rs_status resp, it_headers = rs_headers resp, it_body = body_bytes\<rparr>,
                               hd_tunnel = False\<rparr>
                 | None \<Rightarrow>
                     Continue \<lparr>hd_result = Inr (resp\<lparr>rs_body := Full []\<rparr>), hd_sent = Some sent, hd_task = None,
                               hd_tunnel = False\<rparr>)
            | _ \<Rightarrow>
                Continue \<lparr>hd_result = Inr (mark_cache ops ''BYPASS'' resp), hd_sent = Some sent, hd_task = None,
                          hd_tunnel = False\<rparr>))"

definition bad_gateway_response :: "('h, 'v) http_ops \<Rightarrow> string \<Rightarrow> string \<Rightarrow> 'h \<Rightarrow> ('h, 'b) Response" where
  "bad_gateway_response ops client_ip host headers =
     error_response ops 502 ''The proxy was unable to connect to the upstream backend server.''
       client_ip host (Some headers)"

section \<open>The handler\<close>

definition handle_route ::
  "('h, 'v) http_ops \<Rightarrow> ('b Body \<Rightarrow> Bytes option) \<Rightarrow> ('h, 'b) HttpClient \<Rightarrow> ('key, 'h, 'b) ActiveConfig \<Rightarrow>
   SocketAddr \<Rightarrow> string \<Rightarrow> string \<Rightarrow> (nat \<times> nat) option \<Rightarrow> MatchedRoute \<Rightarrow> ('h, 'b) Request \<Rightarrow> ('h, 'b) handled flow" where
  "handle_route ops collect client ac peer_addr client_ip host engine m req =
     (case authorize ops ac peer_addr client_ip host m req of
        Inl response \<Rightarrow> Return (respond response)
      | Inr auth_headers \<Rightarrow>
          (let upgrade_requested = is_upgrade_request ops (rq_headers req)
           in case forward_request ops (max_body_size_of ac) client_ip m auth_headers req of
                Inl e \<Rightarrow> Return \<lparr>hd_result = Inl e, hd_sent = None, hd_task = None, hd_tunnel = False\<rparr>
              | Inr final_req \<Rightarrow>
                  (case client final_req of
                     Inr resp \<Rightarrow>
                       upstream_response ops collect (should_intercept_errors m (ac_global_intercept_errors ac))
                         client_ip host (path_and_query_of (rq_uri req)) engine upgrade_requested req final_req resp
                   | Inl e \<Rightarrow>
                       Continue \<lparr>hd_result = Inr (bad_gateway_response ops client_ip host (rq_headers req)),
                                 hd_sent = Some final_req, hd_task = None, hd_tunnel = False\<rparr>)))"

text \<open>The end of the handler: the security headers.\<close>

fun finish :: "('h, 'v) http_ops \<Rightarrow> ('h, 'b) handled flow \<Rightarrow> ('h, 'b) handled" where
  "finish ops (Return r) = r"
| "finish ops (Continue r) =
     (case hd_result r of
        Inl e \<Rightarrow> r
      | Inr resp \<Rightarrow> r\<lparr>hd_result := Inr (resp\<lparr>rs_headers := inject_security_headers ops (rs_headers resp)\<rparr>)\<rparr>)"

text \<open>The part of the handler behind the security gate and the body limit: the lookup in the cache, then the answer.\<close>

definition lookup_request ::
  "('h, 'v) http_ops \<Rightarrow> ('c, 'h) asset_ops \<Rightarrow> ('key, 'h, 'b) ActiveConfig \<Rightarrow> Instant \<Rightarrow> ('h, 'b) Request \<Rightarrow> 'c Store \<Rightarrow>
   'h CachedAsset option \<times> 'c Store" where
  "lookup_request ops aops ac t3 req s =
     (let host = request_host ops (rq_uri req) (rq_headers req);
          path_and_query = path_and_query_of (rq_uri req);
          matched = match_route (ac_router ac) host (uri_path (rq_uri req));
          cache_engine = cache_engine_of ac matched (rq_method req)
      in cache_lookup aops t3 cache_engine (cache_key_of host path_and_query) s)"

definition answer_request ::
  "('h, 'v) http_ops \<Rightarrow> ('b Body \<Rightarrow> Bytes option) \<Rightarrow> ('h, 'b) HttpClient \<Rightarrow> ('key, 'h, 'b) ActiveConfig \<Rightarrow>
   SocketAddr \<Rightarrow> string \<Rightarrow> 'h CachedAsset option \<Rightarrow> ('h, 'b) Request \<Rightarrow> 'c Store \<Rightarrow> ('h, 'b) handled" where
  "answer_request ops collect client ac peer_addr client_ip cached req s =
     (let host = request_host ops (rq_uri req) (rq_headers req);
          matched = match_route (ac_router ac) host (uri_path (rq_uri req));
          cache_engine = cache_engine_of ac matched (rq_method req)
      in case cached of
           Some asset \<Rightarrow> respond (cached_response ops asset)
         | None \<Rightarrow>
             finish ops
               (case matched of
                  Some m \<Rightarrow>
                    handle_route ops collect client ac peer_addr client_ip host
                      (map_option (\<lambda>r. (r, ce_max_file_size_bytes (st_engines s ! r))) cache_engine) m req
                | None \<Rightarrow> Continue (respond (no_response_444 ops))))"

definition serve_request ::
  "('h, 'v) http_ops \<Rightarrow> ('c, 'h) asset_ops \<Rightarrow> ('b Body \<Rightarrow> Bytes option) \<Rightarrow> ('h, 'b) HttpClient \<Rightarrow>
   ('key, 'h, 'b) ActiveConfig \<Rightarrow> SocketAddr \<Rightarrow> string \<Rightarrow> Instant \<Rightarrow> ('h, 'b) Request \<Rightarrow> 'c Store \<Rightarrow>
   ('h, 'b) handled \<times> 'c Store" where
  "serve_request ops aops collect client ac peer_addr client_ip t3 req s =
     (let (cached, s') = lookup_request ops aops ac t3 req s
      in (answer_request ops collect client ac peer_addr client_ip cached req s', s'))"

text \<open>\<open>t1\<close>, \<open>t2\<close> and \<open>t3\<close> are the clock readings of the two security checks and of the cache lookup.\<close>

definition handle_request ::
  "('h, 'v) http_ops \<Rightarrow> ('c, 'h) asset_ops \<Rightarrow> ('b Body \<Rightarrow> Bytes option) \<Rightarrow> ('h, 'b) HttpClient \<Rightarrow>
   ('key, 'h, 'b) ActiveConfig \<Rightarrow> SocketAddr \<Rightarrow> bool \<Rightarrow> Instant \<Rightarrow> Instant \<Rightarrow> Instant \<Rightarrow> ('h, 'b) Request \<Rightarrow> 'c Store \<Rightarrow>
   ('h, 'b) handled outcome \<times> 'c Store" where
  "handle_request ops aops collect client ac peer_addr is_proxy_protocol t1 t2 t3 req s =
     (let client_ip = client_ip_of ops is_proxy_protocol peer_addr (rq_headers req);
          host = request_host ops (rq_uri req) (rq_headers req)
      in case security_gate ac t1 t2 client_ip s of
           (Panicked, s1) \<Rightarrow> (Panicked, s1)
         | (Returned Dropped, s1) \<Rightarrow> (Returned (respond (no_response_444 ops)), s1)
         | (Returned (Exceeded count), s1) \<Rightarrow>
             (Returned (respond (rate_limited_response ops client_ip host (rq_headers req))), s1)
         | (Returned Passed, s1) \<Rightarrow>
             (if payload_too_large ops (max_body_size_of ac) (rq_headers req)
              then (Returned (respond (payload_too_large_response ops client_ip host (rq_headers req))), s1)
              else (let (r, s2) = serve_request ops aops collect client ac peer_addr client_ip t3 req s1
                    in (Returned r, s2))))"

text \<open>The task that inserts a response into the cache.\<close>

definition run_insert_task ::
  "('c, 'h) asset_ops \<Rightarrow> Instant \<Rightarrow> 'h insert_task \<Rightarrow> 'c Store \<Rightarrow> (InsertResult \<times> 'c Store) option" where
  "run_insert_task aops now t s =
     map_option (\<lambda>(r, e). (r, s\<lparr>st_engines := (st_engines s)[it_engine t := e]\<rparr>))
       (cache_insert aops now (it_key t) (it_status t) (it_headers t) (it_body t) None (st_engines s ! it_engine t))"

end
