(* ===== verification/Proxy_Correct.thy ===== *)
theory Proxy_Correct
  imports Proxy
begin

text \<open>
  What the request handler guarantees: which requests reach an upstream and with which headers, what
  the client gets, and what enters the cache.
\<close>

section \<open>The parts of a result\<close>

lemma respond_simps [simp]:
  "hd_result (respond resp) = Inr resp" "hd_sent (respond resp) = None" "hd_task (respond resp) = None"
  "hd_tunnel (respond resp) = False"
  by (simp_all add: respond_def)

lemma finish_simps [simp]:
  "hd_sent (finish ops (Continue r)) = hd_sent r"
  "hd_task (finish ops (Continue r)) = hd_task r"
  "hd_tunnel (finish ops (Continue r)) = hd_tunnel r"
  by (simp_all split: sum.splits)

lemma with_manager_engines: "with_manager r f s = (x, s') \<Longrightarrow> st_engines s' = st_engines s"
  by (auto simp: with_manager_def split: prod.splits)

lemma security_gate_engines: "security_gate ac t1 t2 ip s = (g, s') \<Longrightarrow> st_engines s' = st_engines s"
  by (auto simp: security_gate_def ban_check_def rate_check_def dest!: with_manager_engines
      split: option.splits prod.splits outcome.splits bool.splits sum.splits)

text \<open>Where a forwarded request comes from: the way through the handler up to the client call.\<close>

lemma answer_request_sent:
  assumes "hd_sent (answer_request ops collect client ac peer ip cached req s) = Some fwd"
  obtains m granted where
    "match_route (ac_router ac) (request_host ops (rq_uri req) (rq_headers req)) (uri_path (rq_uri req)) = Some m"
    "authorize ops ac peer ip (request_host ops (rq_uri req) (rq_headers req)) m req = Inr granted"
    "forward_request ops (max_body_size_of ac) ip m granted req = Inr fwd"
    "answer_request ops collect client ac peer ip cached req s =
       finish ops (handle_route ops collect client ac peer ip (request_host ops (rq_uri req) (rq_headers req))
         (map_option (\<lambda>r. (r, ce_max_file_size_bytes (st_engines s ! r))) (cache_engine_of ac (Some m) (rq_method req))) m req)"
proof -
  let ?host = "request_host ops (rq_uri req) (rq_headers req)"
  obtain m where m: "match_route (ac_router ac) ?host (uri_path (rq_uri req)) = Some m"
    and f: "answer_request ops collect client ac peer ip cached req s = finish ops (handle_route ops collect client ac peer ip ?host
       (map_option (\<lambda>r. (r, ce_max_file_size_bytes (st_engines s ! r))) (cache_engine_of ac (Some m) (rq_method req))) m req)"
    using assms by (auto simp: answer_request_def Let_def split: option.splits)
  obtain granted where a: "authorize ops ac peer ip ?host m req = Inr granted"
    using f assms by (auto simp: handle_route_def split: sum.splits)
  moreover have "forward_request ops (max_body_size_of ac) ip m granted req = Inr fwd"
    using f assms a
    by (auto simp: handle_route_def upstream_response_def Let_def split: sum.splits if_splits bool.splits option.splits)
  ultimately show ?thesis using that m f by blast
qed

text \<open>A request of which anything is sent or inserted has passed the gate and the limit and is answered last.\<close>

lemma handle_request_answered:
  assumes "handle_request ops aops collect client ac peer pp t1 t2 t3 req s = (Returned out, s')"
    and "hd_sent out \<noteq> None \<or> hd_task out \<noteq> None"
  obtains s1 cached where
    "security_gate ac t1 t2 (client_ip_of ops pp peer (rq_headers req)) s = (Returned Passed, s1)"
    "\<not> payload_too_large ops (max_body_size_of ac) (rq_headers req)"
    "out = answer_request ops collect client ac peer (client_ip_of ops pp peer (rq_headers req)) cached req s'"
  using assms by (auto simp: handle_request_def serve_request_def Let_def split: prod.splits outcome.splits gate.splits if_splits)

lemma handle_request_sent:
  assumes "handle_request ops aops collect client ac peer pp t1 t2 t3 req s = (Returned out, s')"
    and "hd_sent out = Some fwd"
  obtains s1 m granted where
    "security_gate ac t1 t2 (client_ip_of ops pp peer (rq_headers req)) s = (Returned Passed, s1)"
    "\<not> payload_too_large ops (max_body_size_of ac) (rq_headers req)"
    "match_route (ac_router ac) (request_host ops (rq_uri req) (rq_headers req)) (uri_path (rq_uri req)) = Some m"
    "authorize ops ac peer (client_ip_of ops pp peer (rq_headers req))
       (request_host ops (rq_uri req) (rq_headers req)) m req = Inr granted"
    "forward_request ops (max_body_size_of ac) (client_ip_of ops pp peer (rq_headers req)) m granted req = Inr fwd"
    "out = finish ops (handle_route ops collect client ac peer (client_ip_of ops pp peer (rq_headers req))
       (request_host ops (rq_uri req) (rq_headers req))
       (map_option (\<lambda>r. (r, ce_max_file_size_bytes (st_engines s' ! r))) (cache_engine_of ac (Some m) (rq_method req))) m req)"
proof -
  let ?ip = "client_ip_of ops pp peer (rq_headers req)"
  obtain s1 cached where g: "security_gate ac t1 t2 ?ip s = (Returned Passed, s1)"
    "\<not> payload_too_large ops (max_body_size_of ac) (rq_headers req)"
    and o: "out = answer_request ops collect client ac peer ?ip cached req s'"
    using assms by (rule_tac handle_request_answered [OF assms(1)]) auto
  show ?thesis by (rule answer_request_sent [OF assms(2) [unfolded o]]) (use that g o in auto)
qed

text \<open>The end of a forwarded request: the security headers, and what an insertion holds.\<close>

lemma upstream_response_secured:
  assumes "hd_result (finish ops (upstream_response ops collect icpt ip host pq engine up req sent resp)) = Inr answer"
  shows "\<exists>h. rs_headers answer = inject_security_headers ops h"
proof -
  have [simp]: "\<exists>h'. inject_security_headers ops h = inject_security_headers ops h'" for h by blast
  show ?thesis
    using assms by (auto simp: upstream_response_def intercepted_response_def Let_def
        split: if_splits bool.splits option.splits)
qed

lemma upstream_response_task:
  assumes "hd_task (finish ops (upstream_response ops collect icpt ip host pq engine up req sent resp)) = Some t"
  obtains limit where "engine = Some (it_engine t, limit)" "should_cache ops pq (Some limit) resp"
    "it_key t = cache_key_of host pq" "it_status t = rs_status resp" "it_headers t = rs_headers resp"
    "collect (rs_body resp) = Some (it_body t)"
    "hd_result (finish ops (upstream_response ops collect icpt ip host pq engine up req sent resp)) =
     Inr (let r = mark_cache ops ''MISS'' (resp\<lparr>rs_body := Full (it_body t)\<rparr>)
          in r\<lparr>rs_headers := inject_security_headers ops (rs_headers r)\<rparr>)"
  using assms by (auto simp: upstream_response_def Let_def split: if_splits bool.splits option.splits)

lemma handle_route_sent:
  assumes "authorize ops ac peer ip host m req = Inr granted"
    and "forward_request ops (max_body_size_of ac) ip m granted req = Inr fwd"
  shows "handle_route ops collect client ac peer ip host engine m req =
    (case client fwd of
       Inr resp \<Rightarrow> upstream_response ops collect (should_intercept_errors m (ac_global_intercept_errors ac)) ip host
         (path_and_query_of (rq_uri req)) engine (is_upgrade_request ops (rq_headers req)) req fwd resp
     | Inl e \<Rightarrow> Continue \<lparr>hd_result = Inr (bad_gateway_response ops ip host (rq_headers req)), hd_sent = Some fwd,
         hd_task = None, hd_tunnel = False\<rparr>)"
  using assms by (simp add: handle_route_def)

lemma answer_request_task:
  assumes "hd_task (answer_request ops collect client ac peer ip cached req s) = Some t"
  obtains m fwd resp limit where
    "match_route (ac_router ac) (request_host ops (rq_uri req) (rq_headers req)) (uri_path (rq_uri req)) = Some m"
    "hd_sent (answer_request ops collect client ac peer ip cached req s) = Some fwd" "client fwd = Inr resp"
    "cache_engine_of ac (Some m) (rq_method req) = Some (it_engine t)"
    "should_cache ops (path_and_query_of (rq_uri req)) (Some limit) resp"
    "it_key t = cache_key_of (request_host ops (rq_uri req) (rq_headers req)) (path_and_query_of (rq_uri req))"
    "it_status t = rs_status resp" "it_headers t = rs_headers resp" "collect (rs_body resp) = Some (it_body t)"
    "hd_result (answer_request ops collect client ac peer ip cached req s) =
     Inr (let r = mark_cache ops ''MISS'' (resp\<lparr>rs_body := Full (it_body t)\<rparr>)
          in r\<lparr>rs_headers := inject_security_headers ops (rs_headers r)\<rparr>)"
proof -
  let ?host = "request_host ops (rq_uri req) (rq_headers req)"
  let ?out = "answer_request ops collect client ac peer ip cached req s"
  obtain fwd where s: "hd_sent ?out = Some fwd"
    using assms
    by (auto simp: answer_request_def handle_route_def upstream_response_def Let_def
        split: if_splits option.splits sum.splits bool.splits)
  obtain m granted where
    m: "match_route (ac_router ac) ?host (uri_path (rq_uri req)) = Some m"
    and a: "authorize ops ac peer ip ?host m req = Inr granted"
    and f: "forward_request ops (max_body_size_of ac) ip m granted req = Inr fwd"
    and o: "?out = finish ops (handle_route ops collect client ac peer ip ?host
       (map_option (\<lambda>r. (r, ce_max_file_size_bytes (st_engines s ! r))) (cache_engine_of ac (Some m) (rq_method req))) m req)"
    by (rule answer_request_sent [OF s])
  obtain resp where c: "client fwd = Inr resp"
    using assms unfolding o handle_route_sent [OF a f] by (auto split: sum.splits)
  note T = assms [unfolded o handle_route_sent [OF a f] c sum.case]
  show ?thesis
    by (rule upstream_response_task [OF T])
       (auto simp: o handle_route_sent [OF a f] c simp del: finish.simps intro: that [OF m s c])
qed

lemma handle_request_task:
  assumes "handle_request ops aops collect client ac peer pp t1 t2 t3 req s = (Returned out, s')"
    and "hd_task out = Some t"
  obtains m fwd resp limit where
    "match_route (ac_router ac) (request_host ops (rq_uri req) (rq_headers req)) (uri_path (rq_uri req)) = Some m"
    "hd_sent out = Some fwd" "client fwd = Inr resp"
    "cache_engine_of ac (Some m) (rq_method req) = Some (it_engine t)"
    "should_cache ops (path_and_query_of (rq_uri req)) (Some limit) resp"
    "it_key t = cache_key_of (request_host ops (rq_uri req) (rq_headers req)) (path_and_query_of (rq_uri req))"
    "it_status t = rs_status resp" "it_headers t = rs_headers resp" "collect (rs_body resp) = Some (it_body t)"
    "hd_result out = Inr (let r = mark_cache ops ''MISS'' (resp\<lparr>rs_body := Full (it_body t)\<rparr>)
       in r\<lparr>rs_headers := inject_security_headers ops (rs_headers r)\<rparr>)"
proof -
  obtain cached where o: "out = answer_request ops collect client ac peer (client_ip_of ops pp peer (rq_headers req)) cached req s'"
    using assms by (rule_tac handle_request_answered [OF assms(1)]) auto
  show ?thesis by (rule answer_request_task [OF assms(2) [unfolded o]]) (rule that, simp_all add: o)
qed

section \<open>Headers\<close>

definition proxy_headers :: "string list" where
  "proxy_headers = [''host'', ''x-forwarded-host'', ''x-forwarded-proto'', ''x-forwarded-for'', ''x-real-ip'']"

lemma identity_not_proxy: "identity_header k \<Longrightarrow> k \<notin> set proxy_headers"
  by (auto simp: identity_header_def proxy_headers_def starts_with_def)

text \<open>The values of a name that the proxy does not set itself.\<close>

definition passed_on :: "('h \<Rightarrow> string \<Rightarrow> 'v list) \<Rightarrow> 'h \<Rightarrow> 'h \<Rightarrow> string \<Rightarrow> 'v list" where
  "passed_on vals granted headers k =
     (if vals granted k \<noteq> [] then [last (vals granted k)]
      else if k \<noteq> ''host'' \<and> \<not> starts_with k '':'' then vals headers k else [])"

context http_crate
begin

lemma copy_headers_vals:
  "vals (copy_headers ops kvs h) k =
   vals h k @ (if k \<noteq> ''host'' \<and> \<not> starts_with k '':'' then map snd (filter (\<lambda>e. fst e = k) kvs) else [])"
proof (induction kvs arbitrary: h)
  case (Cons e kvs)
  then show ?case by (cases e) (auto simp: vals_append)
qed simp

lemma insert_headers_vals:
  "vals (insert_headers ops kvs h) k =
   (let vs = map snd (filter (\<lambda>e. fst e = k) kvs) in if vs = [] then vals h k else [last vs])"
proof (induction kvs arbitrary: h)
  case (Cons e kvs)
  then show ?case by (cases e) (auto simp: Let_def vals_insert)
qed simp

lemma passed_on_vals:
  "vals (insert_headers ops (hm_iter ops granted) (copy_headers ops (hm_iter ops headers) (hm_new ops))) k =
   passed_on vals granted headers k"
  by (simp add: insert_headers_vals copy_headers_vals iter vals_new passed_on_def Let_def)

lemma forwarded_headers_vals:
  assumes "forwarded_headers ops client_ip granted original_host headers = Inr h"
  obtains xff real_ip where
    "forwarded_for ops client_ip headers = Inr xff" "hv_from_str ops client_ip = Some real_ip"
    "\<And>k. vals h k =
      (if k = ''x-real-ip'' then [real_ip] else if k = ''x-forwarded-for'' then [xff]
       else if k = ''x-forwarded-proto'' then [hv_from_static ops ''https'']
       else if original_host \<noteq> None \<and> k \<in> set [''host'', ''x-forwarded-host''] then [the original_host]
       else passed_on vals granted headers k)"
proof -
  define h2 where "h2 = insert_headers ops (hm_iter ops granted) (copy_headers ops (hm_iter ops headers) (hm_new ops))"
  define h3 where "h3 = (case original_host of
      Some host \<Rightarrow> hm_insert ops ''x-forwarded-host'' host (hm_insert ops ''host'' host h2) | None \<Rightarrow> h2)"
  have h3: "vals h3 k = (if original_host \<noteq> None \<and> k \<in> set [''host'', ''x-forwarded-host''] then [the original_host]
      else passed_on vals granted headers k)" for k
    by (cases original_host) (simp_all add: h3_def vals_insert h2_def passed_on_vals)
  obtain xff real_ip where x: "forwarded_for ops client_ip headers = Inr xff" "hv_from_str ops client_ip = Some real_ip"
    and h: "h = hm_insert ops ''x-real-ip'' real_ip (hm_insert ops ''x-forwarded-for'' xff
      (hm_insert ops ''x-forwarded-proto'' (hv_from_static ops ''https'') h3))"
    using assms unfolding forwarded_headers_def Let_def h2_def [symmetric] h3_def [symmetric] header_value_def
    by (elim and_then_InrE) (simp only: ok_or_eq_Inr sum.inject)
  show ?thesis by (rule that [OF x]) (simp only: h vals_insert h3 simp_thms)
qed

lemma security_headers:
  "header_str ops (inject_security_headers ops h) ''strict-transport-security'' =
     Some ''max-age=63072000; includeSubDomains; preload''"
  "header_str ops (inject_security_headers ops h) ''x-content-type-options'' = Some ''nosniff''"
  "header_str ops (inject_security_headers ops h) ''x-frame-options'' = Some ''DENY''"
  "header_str ops (inject_security_headers ops h) ''x-xss-protection'' = Some ''0''"
  by (simp_all add: inject_security_headers_def header_str_def get_insert to_str_from_static visible_ascii_def)

lemma authorize_granted:
  fixes ac :: "('key, 'h, 'b) ActiveConfig"
  assumes "authorize ops ac peer client_ip host m req = Inr granted" and "vals granted k \<noteq> []"
  shows "identity_header k \<and> length (vals granted k) = 1"
proof -
  obtain p :: "('h, 'b) ForwardAuthProvider" where "authenticate ops p (socket_addr_to_string peer) client_ip (rq_method req) (rq_uri req) (rq_headers req) =
      Inr (Success granted)"
    using assms vals_new
    by (auto simp: authorize_def split: if_splits option.splits sum.splits AuthResult.splits)
  from forward_auth.success_identity [OF this assms(2)] forward_auth.success_single [OF this, of k] assms(2)
  show ?thesis by (cases "vals granted k") auto
qed

lemma forward_request_headers:
  assumes "forward_request ops limit client_ip m granted req = Inr fwd"
  obtains xff real_ip original_host where
    "forwarded_for ops client_ip (rq_headers req) = Inr xff" "hv_from_str ops client_ip = Some real_ip"
    "original_host_of ops req = Inr original_host"
    "\<And>k. vals (rq_headers fwd) k =
      (if k = ''x-real-ip'' then [real_ip] else if k = ''x-forwarded-for'' then [xff]
       else if k = ''x-forwarded-proto'' then [hv_from_static ops ''https'']
       else if original_host \<noteq> None \<and> k \<in> set [''host'', ''x-forwarded-host''] then [the original_host]
       else passed_on vals granted (rq_headers req) k)"
    "rq_method fwd = rq_method req" "uri_parse ops (upstream_uri_text m (rq_uri req)) = Some (rq_uri fwd)"
    "rq_body fwd = Limited (rq_body req) limit"
proof -
  obtain uri original_host h where u: "uri_parse ops (upstream_uri_text m (rq_uri req)) = Some uri"
    and o: "original_host_of ops req = Inr original_host"
    and h: "forwarded_headers ops client_ip granted original_host (rq_headers req) = Inr h"
    and f: "fwd = \<lparr>rq_method = rq_method req, rq_uri = uri, rq_version = ''HTTP/1.1'', rq_headers = h,
      rq_body = Limited (rq_body req) limit\<rparr>"
    using assms unfolding forward_request_def Let_def
    by (elim and_then_InrE) (simp only: ok_or_eq_Inr sum.inject)
  obtain xff real_ip where
    "forwarded_for ops client_ip (rq_headers req) = Inr xff" "hv_from_str ops client_ip = Some real_ip"
    "\<And>k. vals h k =
      (if k = ''x-real-ip'' then [real_ip] else if k = ''x-forwarded-for'' then [xff]
       else if k = ''x-forwarded-proto'' then [hv_from_static ops ''https'']
       else if original_host \<noteq> None \<and> k \<in> set [''host'', ''x-forwarded-host''] then [the original_host]
       else passed_on vals granted (rq_headers req) k)"
    by (rule forwarded_headers_vals [OF h]) (rule that)
  then show ?thesis using u by (intro that [OF _ _ o]) (simp_all add: f)
qed

lemma forward_request_other:
  assumes "forward_request ops limit client_ip m granted req = Inr fwd" and "k \<notin> set proxy_headers"
  shows "vals (rq_headers fwd) k = passed_on vals granted (rq_headers req) k"
  using assms(2) by (rule_tac forward_request_headers [OF assms(1)]) (simp add: proxy_headers_def)

text \<open>On a protected route the provider has granted the request, and what it granted is what is sent.\<close>

lemma forwarded_granted:
  fixes ac :: "('key, 'h, 'b) ActiveConfig"
  assumes "authorize ops ac peer client_ip host m req = Inr granted"
    and "forward_request ops limit client_ip m granted req = Inr fwd" and "mr_auth_required m"
  shows "\<exists>provider. ac_auth_provider ac = Some provider \<and>
    authenticate ops provider (socket_addr_to_string peer) client_ip (rq_method req) (rq_uri req) (rq_headers req) =
      Inr (Success granted) \<and>
    (\<forall>k. vals granted k \<noteq> [] \<longrightarrow> identity_header k \<and> vals (rq_headers fwd) k = vals granted k)"
proof -
  have "identity_header k \<and> vals (rq_headers fwd) k = vals granted k" if k: "vals granted k \<noteq> []" for k
  proof -
    have i: "identity_header k" "length (vals granted k) = 1" using authorize_granted [OF assms(1) k] by simp_all
    then show ?thesis
      using k forward_request_other [OF assms(2) identity_not_proxy] by (cases "vals granted k") (auto simp: passed_on_def)
  qed
  then show ?thesis
    using assms(1,3) by (auto simp: authorize_def split: option.splits sum.splits AuthResult.splits)
qed

end

section \<open>Properties\<close>

text \<open>
  A request for a route that demands authentication is sent to the upstream only after the
  provider has granted it, and then every header the provider granted, an identity header with one
  value, replaces all values of that name the client sent.
\<close>

lemma protected_route_authenticated:
  fixes ac :: "('key, 'h, 'b) ActiveConfig"
  assumes "http_crate ops vals"
    and "handle_request ops aops collect client ac peer pp t1 t2 t3 req s = (Returned out, s')"
    and "hd_sent out = Some fwd"
    and "match_route (ac_router ac) (request_host ops (rq_uri req) (rq_headers req)) (uri_path (rq_uri req)) = Some m"
    and "mr_auth_required m"
  shows "\<exists>provider granted. ac_auth_provider ac = Some provider \<and>
    authenticate ops provider (socket_addr_to_string peer) (client_ip_of ops pp peer (rq_headers req)) (rq_method req)
      (rq_uri req) (rq_headers req) = Inr (Success granted) \<and>
    (\<forall>k. vals granted k \<noteq> [] \<longrightarrow> identity_header k \<and> vals (rq_headers fwd) k = vals granted k)"
proof -
  let ?ip = "client_ip_of ops pp peer (rq_headers req)"
  let ?host = "request_host ops (rq_uri req) (rq_headers req)"
  obtain granted where "authorize ops ac peer ?ip ?host m req = Inr granted"
    "forward_request ops (max_body_size_of ac) ?ip m granted req = Inr fwd"
    using assms(4) by (rule_tac handle_request_sent [OF assms(2,3)]) auto
  from http_crate.forwarded_granted [OF assms(1) this assms(5)] show ?thesis by blast
qed


text \<open>
  Every answer to a request that was sent to an upstream, also an intercepted one and the one for
  an upstream that cannot be reached, has the four security headers.
\<close>

lemma forwarded_response_secured:
  assumes "http_crate ops vals"
    and "handle_request ops aops collect client ac peer pp t1 t2 t3 req s = (Returned out, s')"
    and "hd_sent out = Some fwd" and "hd_result out = Inr resp"
  shows "header_str ops (rs_headers resp) ''strict-transport-security'' = Some ''max-age=63072000; includeSubDomains; preload'' \<and>
    header_str ops (rs_headers resp) ''x-content-type-options'' = Some ''nosniff'' \<and>
    header_str ops (rs_headers resp) ''x-frame-options'' = Some ''DENY'' \<and>
    header_str ops (rs_headers resp) ''x-xss-protection'' = Some ''0''"
proof -
  obtain m granted engine where
    a: "authorize ops ac peer (client_ip_of ops pp peer (rq_headers req)) (request_host ops (rq_uri req) (rq_headers req)) m req =
      Inr granted"
    and f: "forward_request ops (max_body_size_of ac) (client_ip_of ops pp peer (rq_headers req)) m granted req = Inr fwd"
    and o: "out = finish ops (handle_route ops collect client ac peer (client_ip_of ops pp peer (rq_headers req))
       (request_host ops (rq_uri req) (rq_headers req)) engine m req)"
    by (rule handle_request_sent [OF assms(2,3)]) (rule that)
  have "\<exists>h. rs_headers resp = inject_security_headers ops h"
    using assms(4) upstream_response_secured unfolding o handle_route_sent [OF a f]
    by (cases "client fwd") fastforce+
  then show ?thesis using http_crate.security_headers [OF assms(1)] by auto
qed

text \<open>
  C12: only a complete answer that may be cached enters the cache. If the handler spawns an insertion,
  the method is GET or HEAD, the route does not switch caching off, and the upstream answered this
  very request with status 200, a static asset and a \<open>Cache-Control\<close> that contains neither \<open>no-store\<close>
  nor \<open>private\<close>; what is inserted is the upstream's body and headers under the key of the request, and
  the client gets the same body.
\<close>

theorem cached_only_if_cacheable:
  assumes "handle_request ops aops collect client ac peer pp t1 t2 t3 req s = (Returned out, s')"
    and "hd_task out = Some t"
  shows "\<exists>m fwd resp answer. let host = request_host ops (rq_uri req) (rq_headers req); pq = path_and_query_of (rq_uri req) in
    match_route (ac_router ac) host (uri_path (rq_uri req)) = Some m \<and> mr_cache m \<noteq> Some False \<and>
    rq_method req \<in> {''GET'', ''HEAD''} \<and> ac_cache_engine ac = Some (it_engine t) \<and>
    hd_sent out = Some fwd \<and> client fwd = Inr resp \<and> rs_status resp = 200 \<and>
    is_static_asset pq (header_str ops (rs_headers resp) ''content-type'') \<and>
    (\<forall>c. header_str ops (rs_headers resp) ''cache-control'' = Some c \<longrightarrow> \<not> contains c ''no-store'' \<and> \<not> contains c ''private'') \<and>
    it_key t = host @ '':'' @ pq \<and> it_status t = 200 \<and> it_headers t = rs_headers resp \<and>
    collect (rs_body resp) = Some (it_body t) \<and>
    hd_result out = Inr answer \<and> rs_status answer = 200 \<and> rs_body answer = Full (it_body t)"
proof -
  obtain m fwd resp limit where t:
    "match_route (ac_router ac) (request_host ops (rq_uri req) (rq_headers req)) (uri_path (rq_uri req)) = Some m"
    "hd_sent out = Some fwd" "client fwd = Inr resp"
    "cache_engine_of ac (Some m) (rq_method req) = Some (it_engine t)"
    "should_cache ops (path_and_query_of (rq_uri req)) (Some limit) resp"
    "it_key t = cache_key_of (request_host ops (rq_uri req) (rq_headers req)) (path_and_query_of (rq_uri req))"
    "it_status t = rs_status resp" "it_headers t = rs_headers resp" "collect (rs_body resp) = Some (it_body t)"
    "hd_result out = Inr (let r = mark_cache ops ''MISS'' (resp\<lparr>rs_body := Full (it_body t)\<rparr>)
       in r\<lparr>rs_headers := inject_security_headers ops (rs_headers r)\<rparr>)"
    by (rule handle_request_task [OF assms])
  have "mr_cache m \<noteq> Some False" "rq_method req \<in> {''GET'', ''HEAD''}" "ac_cache_engine ac = Some (it_engine t)"
    using t(4) by (auto simp: cache_engine_of_def is_cacheable_method_def Let_def split: if_splits)
  then show ?thesis
    unfolding Let_def using t
    by (intro exI [of _ m] exI [of _ fwd] exI [of _ resp] exI)
       (auto simp: is_no_store_def cache_key_of_def should_cache_def mark_cache_def Let_def)
qed

text \<open>
  C30: an error status of the upstream is intercepted where the route, or else the configuration, asks
  for it: the client gets the proxy's own page with that status, in the format it accepts, and
  nothing of the upstream's body or headers; nothing is cached and no tunnel is opened.
\<close>

theorem intercepted_errors:
  assumes "http_crate ops vals"
    and "handle_request ops aops collect client ac peer pp t1 t2 t3 req s = (Returned out, s')"
    and "hd_sent out = Some fwd" and "client fwd = Inr resp"
    and "match_route (ac_router ac) (request_host ops (rq_uri req) (rq_headers req)) (uri_path (rq_uri req)) = Some m"
    and "unwrap_or (mr_intercept_errors m) (ac_global_intercept_errors ac)"
    and "400 \<le> rs_status resp" and "rs_status resp < 600"
  shows "\<exists>answer. hd_result out = Inr answer \<and> rs_status answer = rs_status resp \<and>
    rs_body answer = Full (utf8 (let message = ''Upstream server returned error: '' @
          unwrap_or (st_canonical_reason ops (rs_status resp)) ''Error'';
        host = request_host ops (rq_uri req) (rq_headers req)
      in if wants_json ops (Some (rq_headers req)) then render_json_error ops (rs_status resp) message host
         else render_html_error_page ops (rs_status resp) message (client_ip_of ops pp peer (rq_headers req)) host)) \<and>
    hd_task out = None \<and> \<not> hd_tunnel out"
proof -
  obtain granted engine where
    a: "authorize ops ac peer (client_ip_of ops pp peer (rq_headers req)) (request_host ops (rq_uri req) (rq_headers req)) m req =
      Inr granted"
    and f: "forward_request ops (max_body_size_of ac) (client_ip_of ops pp peer (rq_headers req)) m granted req = Inr fwd"
    and o: "out = finish ops (handle_route ops collect client ac peer (client_ip_of ops pp peer (rq_headers req))
       (request_host ops (rq_uri req) (rq_headers req)) engine m req)"
    using assms(5) by (rule_tac handle_request_sent [OF assms(2,3)]) (auto intro: that)
  have "st_is_client_error ops (rs_status resp) \<or> st_is_server_error ops (rs_status resp)"
    using assms(7,8) by (auto simp: http_crate.is_client_error [OF assms(1)] http_crate.is_server_error [OF assms(1)])
  then show ?thesis
    using assms(6,7) unfolding o handle_route_sent [OF a f] assms(4)
    by (simp add: upstream_response_def intercepted_response_def error_response_def build_error_response_def
        should_intercept_errors_def Let_def)
qed

text \<open>
  C34: a fresh entry of the cache is served before any authentication: also on a route that demands it,
  whatever the client sends and whatever the provider would say, the answer is the stored response and
  nothing is asked of the provider or the upstream.
\<close>

theorem cache_hit_unauthenticated:
  assumes "security_gate ac t1 t2 (client_ip_of ops pp peer (rq_headers req)) s = (Returned Passed, s1)"
    and "\<not> payload_too_large ops (max_body_size_of ac) (rq_headers req)"
    and "match_route (ac_router ac) (request_host ops (rq_uri req) (rq_headers req)) (uri_path (rq_uri req)) = Some m"
    and "mr_auth_required m" and "mr_cache m \<noteq> Some False" and "rq_method req \<in> {''GET'', ''HEAD''}"
    and "ac_cache_engine ac = Some r"
    and "cache_get aops t3 (request_host ops (rq_uri req) (rq_headers req) @ '':'' @ path_and_query_of (rq_uri req)) (st_engines s ! r) =
      (Some asset, e)"
  shows "fst (handle_request ops aops collect client ac peer pp t1 t2 t3 req s) = Returned (respond
    \<lparr>rs_status = ca_status asset,
     rs_headers = hm_insert ops ''x-proxy-cache'' (hv_from_static ops ''HIT'') (ca_headers asset),
     rs_body = Full (ca_body asset)\<rparr>)"
proof -
  have "cache_engine_of ac (Some m) (rq_method req) = Some r"
    using assms(5-7) by (cases "mr_cache m") (auto simp: cache_engine_of_def is_cacheable_method_def Let_def)
  then show ?thesis
    using assms(1,2,3,8) security_gate_engines [OF assms(1)]
    by (simp add: handle_request_def serve_request_def lookup_request_def answer_request_def cache_lookup_def cache_key_of_def cached_response_def Let_def)
qed

text \<open>What the gate decides about an address, from the state of the security manager.\<close>

definition verdict :: "SecurityManager \<Rightarrow> Instant \<Rightarrow> Instant \<Rightarrow> IpAddr \<Rightarrow> gate" where
  "verdict sm t1 t2 ip =
     (let n = Suc (length (filter (in_window t2) (unwrap_or (request_tracker sm ip) [])))
      in if \<exists>until. blacklist sm ip = Some until \<and> t1 < until then Dropped
         else if rate_limit_rpm sm \<noteq> 0 \<and> rate_limit_rpm sm < n then Exceeded n else Passed)"

lemma is_blacklisted_step:
  assumes "\<not> sm_poisoned sm" "is_blacklisted t ip sm = (x, sm')"
  shows "x = Returned (\<exists>until. blacklist sm ip = Some until \<and> t < until) \<and> \<not> sm_poisoned sm' \<and>
    request_tracker sm' = request_tracker sm \<and> rate_limit_rpm sm' = rate_limit_rpm sm \<and>
    (x = Returned True \<longrightarrow> sm' = sm)"
  using assms by (auto simp: is_blacklisted_def locked_def split: option.splits if_splits)

lemma check_and_record_step:
  assumes "\<not> sm_poisoned sm" "check_and_record_request t ip sm = (x, sm')"
  shows "\<exists>c. x = Returned (let n = Suc (length (filter (in_window t) (unwrap_or (request_tracker sm ip) [])))
    in if rate_limit_rpm sm \<noteq> 0 \<and> rate_limit_rpm sm < n then Inl n else Inr c)"
  using assms
  by (cases "request_tracker sm ip")
     (auto simp: check_and_record_request_def locked_def cleanup_def retain_recent_def track_def Let_def split: if_splits)

lemma security_gate_verdict:
  assumes "parse_ip_addr client_ip = Some ip" and "sm = st_managers s ! ac_security_manager ac"
    and "\<not> sm_poisoned sm" and "ac_security_manager ac < length (st_managers s)"
  shows "\<exists>s1. security_gate ac t1 t2 client_ip s = (Returned (verdict sm t1 t2 ip), s1) \<and>
    (verdict sm t1 t2 ip = Dropped \<longrightarrow> s1 = s)"
proof -
  obtain x sm1 where b: "is_blacklisted t1 ip sm = (x, sm1)" by fastforce
  note B = is_blacklisted_step [OF assms(3) b]
  obtain y sm2 where c: "check_and_record_request t2 ip sm1 = (y, sm2)" by fastforce
  have "\<not> sm_poisoned sm1" using B by simp
  note C = check_and_record_step [OF this c]
  show ?thesis
  proof (cases "\<exists>until. blacklist sm ip = Some until \<and> t1 < until")
    case True
    then show ?thesis
      using b B assms(1,2) by (simp add: security_gate_def ban_check_def rate_check_def with_manager_def verdict_def Let_def)
  next
    case False
    then have x: "x = Returned False" using B by simp
    let ?n = "Suc (length (filter (in_window t2) (unwrap_or (request_tracker sm ip) [])))"
    obtain n where y: "y = Returned (if rate_limit_rpm sm \<noteq> 0 \<and> rate_limit_rpm sm < ?n then Inl ?n else Inr n)"
      using C B by (auto simp: Let_def)
    have v: "verdict sm t1 t2 ip = (if rate_limit_rpm sm \<noteq> 0 \<and> rate_limit_rpm sm < ?n then Exceeded ?n else Passed)"
      using False by (auto simp: verdict_def Let_def)
    show ?thesis
      unfolding v using b [unfolded x assms(2)] c [unfolded y] assms(1,4)
      by (simp add: security_gate_def ban_check_def rate_check_def with_manager_def split: if_splits)
  qed
qed

lemma forwarded_client_ip_parses: "forwarded_client_ip ops headers names = Some ip \<Longrightarrow> parse_ip_addr ip \<noteq> None"
  by (induction names) (auto simp: Let_def is_some_def split: option.splits if_splits)

lemma client_ip_parses:
  obtains ip where "parse_ip_addr (client_ip_of ops pp peer headers) = Some ip" "\<not> pp \<longrightarrow> ip = sa_ip peer"
  using forwarded_client_ip_parses [of ops headers]
  by (cases pp; cases "forwarded_client_ip ops headers [''cf-connecting-ip'', ''true-client-ip'', ''x-forwarded-for'']")
     (auto simp: client_ip_of_def parse_ip_addr_show simp del: forwarded_client_ip.simps)

text \<open>
  C10: the gate. No request passes unjudged: the text of the client address always names an address, that of
  the peer unless the peer is a trusted proxy. As long as the manager's lock is not poisoned, this address decides: a
  banned one gets an empty 444 answer and changes nothing, one that has used up its requests of the
  last minute gets 429 with \<open>Retry-After: 60\<close>, and in both cases no provider, upstream or cache is
  touched. These answers lack the security headers.
\<close>

theorem gate_blocks:
  assumes "http_crate ops vals"
    and "sm = st_managers s ! ac_security_manager ac"
    and "\<not> sm_poisoned sm" and "ac_security_manager ac < length (st_managers s)"
    and "handle_request ops aops collect client ac peer pp t1 t2 t3 req s = (result, s')"
  shows "\<exists>ip. parse_ip_addr (client_ip_of ops pp peer (rq_headers req)) = Some ip \<and> (\<not> pp \<longrightarrow> ip = sa_ip peer) \<and>
    (verdict sm t1 t2 ip = Dropped \<longrightarrow> s' = s \<and>
      (\<exists>resp. result = Returned (respond resp) \<and> rs_status resp = 444 \<and> rs_body resp = Full [] \<and>
         vals (rs_headers resp) ''x-frame-options'' = [])) \<and>
    (\<forall>n. verdict sm t1 t2 ip = Exceeded n \<longrightarrow> st_engines s' = st_engines s \<and>
      (\<exists>resp. result = Returned (respond resp) \<and> rs_status resp = 429 \<and>
         header_str ops (rs_headers resp) ''retry-after'' = Some ''60'' \<and>
         vals (rs_headers resp) ''x-frame-options'' = []))"
proof -
  obtain ip where ip: "parse_ip_addr (client_ip_of ops pp peer (rq_headers req)) = Some ip" "\<not> pp \<longrightarrow> ip = sa_ip peer"
    by (rule client_ip_parses)
  obtain s1 where g: "security_gate ac t1 t2 (client_ip_of ops pp peer (rq_headers req)) s = (Returned (verdict sm t1 t2 ip), s1)"
    and d: "verdict sm t1 t2 ip = Dropped \<longrightarrow> s1 = s"
    using security_gate_verdict [OF ip(1) assms(2-4)] by blast
  have "hv_to_str ops (hv_from_static ops ''60'') = Some ''60''"
    by (rule http_crate.to_str_from_static [OF assms(1)]) (simp add: visible_ascii_def)
  then show ?thesis
    using assms(5) d ip security_gate_engines [OF g]
    by (auto simp: handle_request_def g no_response_444_def rate_limited_response_def error_response_def Let_def
        build_error_response_def header_str_def http_crate.from_u16 [OF assms(1)] http_crate.get_insert [OF assms(1)]
        http_crate.vals_append [OF assms(1)] http_crate.vals_insert [OF assms(1)] http_crate.vals_new [OF assms(1)])
qed


section \<open>An example\<close>

text \<open>A request for a protected route, granted by the provider and answered with a static asset.\<close>

definition example_peer :: SocketAddr where
  "example_peer = \<lparr>sa_ip = V4 1 2 3 4, sa_port = 5\<rparr>"

definition example_req :: "(alist_headers, unit) Request" where
  "example_req =
     \<lparr>rq_method = ''GET'',
      rq_uri = \<lparr>uri_authority = Some ''a.b'', uri_path = ''/x.js'', uri_path_and_query = Some ''/x.js'', uri_query = None\<rparr>,
      rq_version = ''HTTP/1.1'', rq_headers = [(''remote-user'', ''eve''), (''host'', ''a.b'')], rq_body = Full []\<rparr>"

definition example_client :: "StatusCode \<Rightarrow> (alist_headers, unit) HttpClient" where
  "example_client status = (\<lambda>req. Inr \<lparr>rs_status = status, rs_headers = [(''content-type'', ''text/css'')], rs_body = Incoming ()\<rparr>)"

definition example_collect :: "unit Body \<Rightarrow> Bytes option" where
  "example_collect = (\<lambda>body. Some [1, 2])"

definition example_fwd :: "(alist_headers, unit) Request" where
  "example_fwd =
     \<lparr>rq_method = ''GET'', rq_uri = example_uri, rq_version = ''HTTP/1.1'',
      rq_headers = [(''remote-user'', ''ann''), (''host'', ''a.b''), (''x-forwarded-host'', ''a.b''),
        (''x-forwarded-proto'', ''https''), (''x-forwarded-for'', ''1.2.3.4''), (''x-real-ip'', ''1.2.3.4'')],
      rq_body = Limited (Full []) 10485760\<rparr>"

definition example_matched :: MatchedRoute where
  "example_matched =
     \<lparr>mr_upstream_addr = ''h:80'', mr_rewritten_path = ''/x.js'', mr_auth_required = True, mr_cache = None,
      mr_intercept_errors = None\<rparr>"

definition example_ac :: "bool \<Rightarrow> (string, alist_headers, unit) ActiveConfig" where
  "example_ac intercept = example_active\<lparr>ac_generation := 0, ac_global_intercept_errors := intercept\<rparr>"

definition example_task :: "alist_headers insert_task" where
  "example_task =
     \<lparr>it_engine = 0, it_key = ''a.b:/x.js'', it_status = 200, it_headers = [(''content-type'', ''text/css'')], it_body = [1, 2]\<rparr>"

lemmas example_defs = example_peer_def example_req_def example_client_def example_collect_def example_http_def
  example_uri_def

lemma example_client_ip: "client_ip_of example_http False example_peer (rq_headers example_req) = ''1.2.3.4''"
  by (simp add: client_ip_of_def example_peer_def str_eval)

lemma example_host: "request_host example_http (rq_uri example_req) (rq_headers example_req) = ''a.b''"
  by (simp add: request_host_def example_req_def)

lemma example_route_matched:
  "match_route (ac_router (example_ac icpt)) ''a.b'' (uri_path (rq_uri example_req)) = Some example_matched"
  by (simp add: example_ac_def example_active_def example_auth_cfg_def example_req_def example_matched_def router_eval)

lemma example_authorized:
  "authorize example_http (example_ac icpt) example_peer ''1.2.3.4'' ''a.b'' example_matched example_req = Inr [(''remote-user'', ''ann'')]"
  by (simp add: authorize_def example_matched_def example_ac_def example_active_def example_provider_def authenticate_def
      auth_sub_request_def auth_answer_def described_headers_def credential_headers_def request_host_def
      path_and_query_of_def identity_header_def example_defs http_eval Let_def str_eval)

lemma example_forwarded:
  "forward_request example_http (max_body_size_of (example_ac icpt)) ''1.2.3.4'' example_matched [(''remote-user'', ''ann'')] example_req =
   Inr example_fwd"
  by (simp add: forward_request_def upstream_uri_text_def original_host_of_def forwarded_headers_def forwarded_for_def
      header_value_def max_body_size_of_def example_ac_def example_active_def example_auth_cfg_def example_matched_def example_fwd_def
      example_defs http_eval Let_def str_eval)

lemma example_ac_fields [simp]:
  "ac_security_manager (example_ac icpt) = 0" "ac_cache_engine (example_ac icpt) = Some 0"
  "ac_global_intercept_errors (example_ac icpt) = icpt"
  by (simp_all add: example_ac_def example_active_def)

lemma example_req_fields [simp]:
  "rq_method example_req = ''GET''" "path_and_query_of (rq_uri example_req) = ''/x.js''"
  by (simp_all add: example_req_def path_and_query_of_def)

lemmas manager_eval = security_gate_def ban_check_def rate_check_def with_manager_def is_blacklisted_def check_and_record_request_def locked_def
  cleanup_def retain_recent_def track_def security_default_def security_new_def from_security_config_def example_auth_cfg_def
  DEFAULT_RATE_LIMIT_RPM_def sec_eval

lemma example_ip: "parse_ip_addr ''1.2.3.4'' = Some (V4 1 2 3 4)"
  by (simp add: str_eval)

lemma example_gate:
  "\<exists>s1. security_gate (example_ac icpt) 11 12 ''1.2.3.4'' example_store' = (Returned Passed, s1) \<and>
     st_engines s1 = st_engines example_store' \<and>
     (\<forall>engines. fst (security_gate (example_ac icpt) 21 22 ''1.2.3.4'' (s1\<lparr>st_engines := engines\<rparr>)) = Returned Passed)"
  by (simp add: example_ip example_store'_def manager_eval)

text \<open>The request on an empty cache: it is sent, and for status 200 its answer is to be inserted.\<close>

lemma example_miss: "cache_get list_lru_ops 13 key (cache_new list_lru_ops 100 10 5) = (None, cache_new list_lru_ops 100 10 5)"
  by (simp add: cache_get_def cache_new_def list_lru_ops_def list_lru_get_mut_def)

lemma upstream_response_sent:
  "hd_sent (finish ops (upstream_response ops collect icpt ip host pq engine up req sent resp)) = Some sent"
  by (simp add: upstream_response_def split: bool.splits option.splits)

lemma example_handled:
  "\<exists>out s'. handle_request example_http list_lru_ops example_collect (example_client status) (example_ac icpt) example_peer False
      11 12 13 example_req example_store' = (Returned out, s') \<and>
    hd_sent out = Some example_fwd \<and> st_engines s' = st_engines example_store' \<and>
    (\<forall>engines. fst (security_gate (example_ac icpt) 21 22 ''1.2.3.4'' (s'\<lparr>st_engines := engines\<rparr>)) = Returned Passed) \<and>
    (status = 200 \<longrightarrow> hd_task out = Some example_task)"
proof -
  obtain s1 where g: "security_gate (example_ac icpt) 11 12 ''1.2.3.4'' example_store' = (Returned Passed, s1)"
    and e: "st_engines s1 = st_engines example_store'"
    and g': "\<forall>engines. fst (security_gate (example_ac icpt) 21 22 ''1.2.3.4'' (s1\<lparr>st_engines := engines\<rparr>)) = Returned Passed"
    using example_gate by blast
  have p: "\<not> payload_too_large example_http (max_body_size_of (example_ac icpt)) (rq_headers example_req)"
    by (simp add: payload_too_large_def example_defs http_eval)
  have c: "cache_engine_of (example_ac icpt) (Some example_matched) ''GET'' = Some 0"
    by (simp add: cache_engine_of_def example_matched_def example_req_def is_cacheable_method_def example_ac_def example_active_def)
  have l: "cache_lookup list_lru_ops 13 (Some 0) (cache_key_of ''a.b'' ''/x.js'') s1 = (None, s1)"
    using e by (simp add: cache_lookup_def example_store'_def example_miss)
  let ?engine = "Some (0, ce_max_file_size_bytes (st_engines example_store' ! 0))"
  let ?resp = "\<lparr>rs_status = status, rs_headers = [(''content-type'', ''text/css'')], rs_body = Incoming ()\<rparr> :: (alist_headers, unit) Response"
  let ?out = "finish example_http (upstream_response example_http example_collect
    (should_intercept_errors example_matched (ac_global_intercept_errors (example_ac icpt))) ''1.2.3.4'' ''a.b'' ''/x.js''
    ?engine (is_upgrade_request example_http (rq_headers example_req)) example_req example_fwd ?resp)"
  have h: "handle_request example_http list_lru_ops example_collect (example_client status) (example_ac icpt) example_peer False
      11 12 13 example_req example_store' = (Returned ?out, s1)"
    by (simp add: handle_request_def serve_request_def lookup_request_def answer_request_def example_client_ip example_host g p example_route_matched c l e
        handle_route_sent [OF example_authorized example_forwarded] Let_def example_client_def del: finish.simps)
  have "hd_task ?out = Some example_task" if "status = 200"
    using that
    by (simp add: upstream_response_def should_cache_def is_no_store_def exceeds_max_file_size_def is_static_asset_def
        is_uncacheable_entrypoint_def static_extensions_def cache_key_of_def example_collect_def example_http_def
        example_task_def http_eval Let_def str_eval)
  then show ?thesis using h e g' upstream_response_sent by blast
qed


theorem cached_only_if_cacheable_witness:
  "ac_cache_engine (example_ac False) = Some (it_engine example_task) \<and> it_key example_task = ''a.b'' @ '':'' @ ''/x.js''"
proof -
  obtain out s' where h: "handle_request example_http list_lru_ops example_collect (example_client 200) (example_ac False)
      example_peer False 11 12 13 example_req example_store' = (Returned out, s')" "hd_task out = Some example_task"
    using example_handled by blast
  have "path_and_query_of (rq_uri example_req) = ''/x.js''" by (simp add: path_and_query_of_def example_req_def)
  then show ?thesis using cached_only_if_cacheable [OF h] by (auto simp: example_host Let_def)
qed

theorem intercepted_errors_witness:
  "\<exists>out s' answer. handle_request example_http list_lru_ops example_collect (example_client 503) (example_ac True) example_peer False
      11 12 13 example_req example_store' = (Returned out, s') \<and> hd_result out = Inr answer \<and> rs_status answer = 503"
proof -
  obtain out s' where h: "handle_request example_http list_lru_ops example_collect (example_client 503) (example_ac True)
      example_peer False 11 12 13 example_req example_store' = (Returned out, s')" "hd_sent out = Some example_fwd"
    using example_handled by blast
  let ?resp = "\<lparr>rs_status = 503, rs_headers = [(''content-type'', ''text/css'')], rs_body = Incoming ()\<rparr> :: (alist_headers, unit) Response"
  have c: "example_client 503 example_fwd = Inr ?resp" by (simp add: example_client_def)
  have "match_route (ac_router (example_ac True)) (request_host example_http (rq_uri example_req) (rq_headers example_req))
      (uri_path (rq_uri example_req)) = Some example_matched"
    by (simp add: example_host example_route_matched)
  from intercepted_errors [OF example_http_crate h c this] h(1) show ?thesis
    by (auto simp: example_matched_def example_ac_def)
qed

text \<open>The engine after the insertion.\<close>

definition example_inserted :: "(string, alist_headers CachedAsset) list_lru LruCacheEngine" where
  "example_inserted = snd (the (cache_insert list_lru_ops 20 ''a.b:/x.js'' 200 [(''content-type'', ''text/css'')] [1, 2] None
     (cache_new list_lru_ops 100 10 5)))"

lemma example_insertion:
  "cache_insert list_lru_ops 20 ''a.b:/x.js'' 200 [(''content-type'', ''text/css'')] [1, 2] None (cache_new list_lru_ops 100 10 5) =
   Some (\<lparr>ir_inserted = True, ir_bytes_inserted = 2, ir_bytes_evicted = 0, ir_items_evicted = 0, ir_reason = None\<rparr>, example_inserted)"
  by (simp add: example_inserted_def cache_eval)

lemma example_found:
  "\<exists>e. cache_get list_lru_ops 30 ''a.b:/x.js'' example_inserted =
     (Some (new_asset 20 200 [(''content-type'', ''text/css'')] [1, 2] None (from_secs 5)), e)"
  by (simp add: example_inserted_def cache_eval)

lemma example_payload: "\<not> payload_too_large example_http (max_body_size_of (example_ac icpt)) (rq_headers example_req)"
  by (simp add: payload_too_large_def example_defs http_eval)

theorem cache_hit_unauthenticated_witness:
  "fst (handle_request example_http list_lru_ops example_collect (example_client 200) (example_ac False) example_peer False
      11 12 30 example_req (example_store'\<lparr>st_engines := [example_inserted]\<rparr>)) =
    Returned (respond \<lparr>rs_status = 200,
      rs_headers = hm_insert example_http ''x-proxy-cache'' (hv_from_static example_http ''HIT'') [(''content-type'', ''text/css'')],
      rs_body = Full [1, 2]\<rparr>)"
proof -
  obtain s1 where g: "security_gate (example_ac False) 11 12 (client_ip_of example_http False example_peer (rq_headers example_req))
      (example_store'\<lparr>st_engines := [example_inserted]\<rparr>) = (Returned Passed, s1)"
    by (simp add: example_client_ip example_ip example_store'_def manager_eval)
  have m: "match_route (ac_router (example_ac False)) (request_host example_http (rq_uri example_req) (rq_headers example_req))
      (uri_path (rq_uri example_req)) = Some example_matched"
    by (simp add: example_host example_route_matched)
  obtain e where "cache_get list_lru_ops 30 ''a.b:/x.js'' example_inserted =
      (Some (new_asset 20 200 [(''content-type'', ''text/css'')] [1, 2] None (from_secs 5)), e)"
    using example_found by blast
  then show ?thesis
    using cache_hit_unauthenticated [OF g example_payload m, of 0 list_lru_ops 30 _ e example_collect "example_client 200"]
    by (simp add: example_matched_def example_host new_asset_def)
qed

theorem gate_blocks_witness:
  "\<exists>resp. fst (handle_request example_http list_lru_ops example_collect (example_client 200) (example_ac False) example_peer False
      11 12 13 example_req \<lparr>st_managers = [security_default\<lparr>blacklist := [V4 1 2 3 4 \<mapsto> 100]\<rparr>], st_engines = []\<rparr>) =
    Returned (respond resp) \<and> rs_status resp = 444"
proof -
  let ?s = "\<lparr>st_managers = [security_default\<lparr>blacklist := [V4 1 2 3 4 \<mapsto> 100]\<rparr>], st_engines = []\<rparr>
    :: (string, alist_headers CachedAsset) list_lru Store"
  obtain x s' where h: "handle_request example_http list_lru_ops example_collect (example_client 200) (example_ac False)
      example_peer False 11 12 13 example_req ?s = (x, s')" by fastforce
  have i: "parse_ip_addr (client_ip_of example_http False example_peer (rq_headers example_req)) = Some (V4 1 2 3 4)"
    by (simp add: example_client_ip example_ip)
  have "verdict (st_managers ?s ! ac_security_manager (example_ac False)) 11 12 (V4 1 2 3 4) = Dropped"
    "\<not> sm_poisoned (st_managers ?s ! ac_security_manager (example_ac False))"
    "ac_security_manager (example_ac False) < length (st_managers ?s)"
    by (simp_all add: verdict_def security_default_def security_new_def)
  then show ?thesis using gate_blocks [OF example_http_crate refl _ _ h] h i by auto
qed


end
