(* ===== verification/Proxy_Protocol.thy ===== *)
theory Proxy_Protocol
  imports Config Rust_Time
begin

text \<open>
  The PROXY protocol of \<open>src/src/proxy_protocol.rs\<close>: reading the header of a trusted upstream,
  refusing it from anybody else, and the stream that gives back what was read in advance. A
  connection is what arrives on it and when, counted from its acceptance; where nothing more
  arrives in time the reading is cut off.
\<close>

section \<open>Streams\<close>

datatype read_event = Byte u8 | Eof | ReadError string

type_synonym TcpStream = "(Duration \<times> read_event) list"

text \<open>A future with a deadline.\<close>

datatype 'a timed = Elapsed | Completed 'a

text \<open>A stream with a buffer to read first, and the position in it.\<close>

record 'i ProxyStream =
  ps_inner :: 'i
  ps_buffer :: "(Bytes \<times> nat) option"

definition stream_new :: "'i \<Rightarrow> Bytes option \<Rightarrow> 'i ProxyStream" where
  "stream_new inner buffer = \<lparr>ps_inner = inner, ps_buffer = map_option (\<lambda>bs. (bs, 0)) buffer\<rparr>"

text \<open>
  Read up to \<open>remaining\<close> bytes: from the buffer as long as it lasts, else from the connection, whose
  own \<open>poll_read\<close> is an argument.
\<close>

definition poll_read ::
  "(nat \<Rightarrow> 'i \<Rightarrow> 'r \<times> 'i) \<Rightarrow> nat \<Rightarrow> 'i ProxyStream \<Rightarrow> (Bytes + 'r) \<times> 'i ProxyStream" where
  "poll_read inner_read remaining this =
     (let delegate = (let (r, inner) = inner_read remaining (ps_inner this)
                      in (Inr r, \<lparr>ps_inner = inner, ps_buffer = None\<rparr>))
      in case ps_buffer this of
           None \<Rightarrow> delegate
         | Some (data, position) \<Rightarrow>
             (let n = min remaining (length data - position)
              in if remaining > 0 \<and> n > 0
                 then (Inl (take n (drop position data)),
                       this\<lparr>ps_buffer := (if position + n \<ge> length data then None else Some (data, position + n))\<rparr>)
                 else delegate))"

text \<open>Writing, flushing and closing go to the connection, whose own operations are arguments.\<close>

definition poll_write :: "(Bytes \<Rightarrow> 'i \<Rightarrow> 'r \<times> 'i) \<Rightarrow> Bytes \<Rightarrow> 'i ProxyStream \<Rightarrow> 'r \<times> 'i ProxyStream" where
  "poll_write inner_write buf this =
     (let (r, inner) = inner_write buf (ps_inner this) in (r, this\<lparr>ps_inner := inner\<rparr>))"

definition poll_flush :: "('i \<Rightarrow> 'r \<times> 'i) \<Rightarrow> 'i ProxyStream \<Rightarrow> 'r \<times> 'i ProxyStream" where
  "poll_flush inner_flush this = (let (r, inner) = inner_flush (ps_inner this) in (r, this\<lparr>ps_inner := inner\<rparr>))"

definition poll_shutdown :: "('i \<Rightarrow> 'r \<times> 'i) \<Rightarrow> 'i ProxyStream \<Rightarrow> 'r \<times> 'i ProxyStream" where
  "poll_shutdown inner_shutdown this =
     (let (r, inner) = inner_shutdown (ps_inner this) in (r, this\<lparr>ps_inner := inner\<rparr>))"

section \<open>The header\<close>

text \<open>\<open>&s[a..b]\<close> panics outside of the string. The strings here are given by their bytes.\<close>

definition str_slice :: "nat \<Rightarrow> nat \<Rightarrow> string \<Rightarrow> string outcome" where
  "str_slice a b s = (if a \<le> b \<and> b \<le> length s then Returned (drop a (take b s)) else Panicked)"

definition crlf :: string where "crlf = [CHR 0x0D, CHR 0x0A]"

definition parse_proxy_payload :: "string \<Rightarrow> (IpAddr \<times> nat) option" where
  "parse_proxy_payload payload =
     (case split_char payload CHR '' '' of
        [client, proxy, client_port, proxy_port] \<Rightarrow>
          Option.bind (parse_ipv4_addr client) (\<lambda>client_ip.
          Option.bind (parse_ipv4_addr proxy) (\<lambda>_.
          Option.bind (parse_u16 client_port) (\<lambda>port.
          Option.bind (parse_u16 proxy_port) (\<lambda>_. Some (client_ip, port)))))
      | _ \<Rightarrow> None)"

definition parse_proxy_protocol_v1 :: "string \<Rightarrow> (IpAddr \<times> nat) option outcome" where
  "parse_proxy_protocol_v1 header =
     (if \<not> starts_with header ''PROXY TCP4 '' then Returned None
      else if \<not> ends_with header crlf then Returned None
      else (case str_slice 11 (length header - 2) header of
              Panicked \<Rightarrow> Panicked
            | Returned payload \<Rightarrow> Returned (parse_proxy_payload payload)))"

text \<open>\<open>std::str::from_utf8\<close>: the well-formed byte sequences.\<close>

definition continuation :: "nat \<Rightarrow> nat \<Rightarrow> nat \<Rightarrow> bool" where
  "continuation lo hi b = (lo \<le> b \<and> b \<le> hi)"

fun is_utf8 :: "nat list \<Rightarrow> bool" where
  "is_utf8 [] = True"
| "is_utf8 (a # bs) =
     (if a < 0x80 then is_utf8 bs
      else (case bs of
              [] \<Rightarrow> False
            | b # bs' \<Rightarrow>
                (if 0xC2 \<le> a \<and> a \<le> 0xDF then continuation 0x80 0xBF b \<and> is_utf8 bs'
                 else (case bs' of
                         [] \<Rightarrow> False
                       | c # bs'' \<Rightarrow>
                           (if 0xE0 \<le> a \<and> a \<le> 0xEF
                            then continuation (if a = 0xE0 then 0xA0 else 0x80) (if a = 0xED then 0x9F else 0xBF) b \<and>
                                 continuation 0x80 0xBF c \<and> is_utf8 bs''
                            else (case bs'' of
                                    [] \<Rightarrow> False
                                  | d # bs''' \<Rightarrow>
                                      0xF0 \<le> a \<and> a \<le> 0xF4 \<and>
                                      continuation (if a = 0xF0 then 0x90 else 0x80) (if a = 0xF4 then 0x8F else 0xBF) b \<and>
                                      continuation 0x80 0xBF c \<and> continuation 0x80 0xBF d \<and> is_utf8 bs'''))))))"

definition str_of_bytes :: "Bytes \<Rightarrow> string" where
  "str_of_bytes bs = map (\<lambda>b. char_of (unat b)) bs"

text \<open>The loop that reads the header of a trusted upstream, byte by byte.\<close>

fun read_header :: "Duration \<Rightarrow> Bytes \<Rightarrow> TcpStream \<Rightarrow> (string + Bytes \<times> TcpStream) timed" where
  "read_header deadline header_buf stream =
     (if length header_buf < 107
      then (case stream of
              [] \<Rightarrow> Elapsed
            | (t, ev) # rest \<Rightarrow>
                (if deadline < t then Elapsed
                 else (case ev of
                         ReadError e \<Rightarrow> Completed (Inl e)
                       | Eof \<Rightarrow> Completed (Inl ''EOF before proxy header finished'')
                       | Byte b \<Rightarrow>
                           (if ends_with (str_of_bytes (header_buf @ [b])) crlf
                            then Completed (Inr (header_buf @ [b], rest))
                            else read_header deadline (header_buf @ [b]) rest))))
      else Completed (Inr (header_buf, stream)))"

text \<open>What follows the loop.\<close>

definition header_addr :: "Bytes \<Rightarrow> (string + SocketAddr) outcome" where
  "header_addr header_buf =
     (if \<not> ends_with (str_of_bytes header_buf) crlf
      then Returned (Inl ''Proxy header exceeded max length or missing CRLF'')
      else if \<not> is_utf8 (map unat header_buf) then Returned (Inl ''Proxy header is not valid UTF-8'')
      else (case parse_proxy_protocol_v1 (str_of_bytes header_buf) of
              Panicked \<Rightarrow> Panicked
            | Returned None \<Rightarrow> Returned (Inl ''Failed to parse Proxy Protocol header'')
            | Returned (Some (client_ip, client_port)) \<Rightarrow>
                Returned (Inr \<lparr>sa_ip = client_ip, sa_port = client_port\<rparr>)))"

text \<open>The loop that looks for a header from an untrusted peer. The end of the stream stays there.\<close>

fun peek_prefix :: "Duration \<Rightarrow> Bytes \<Rightarrow> TcpStream \<Rightarrow> (string + Bytes \<times> TcpStream) timed" where
  "peek_prefix deadline header_buf stream =
     (if length header_buf < length ''PROXY''
      then (case stream of
              [] \<Rightarrow> Elapsed
            | (t, ev) # rest \<Rightarrow>
                (if deadline < t then Elapsed
                 else (case ev of
                         ReadError e \<Rightarrow> Completed (Inl e)
                       | Eof \<Rightarrow> Completed (Inr (header_buf, stream))
                       | Byte b \<Rightarrow>
                           (if char_of (unat b) \<noteq> ''PROXY'' ! length header_buf
                            then Completed (Inr (header_buf @ [b], rest))
                            else peek_prefix deadline (header_buf @ [b]) rest))))
      else Completed (Inr (header_buf, stream)))"

definition handle_proxy_protocol ::
  "TcpStream \<Rightarrow> SocketAddr \<Rightarrow> SecurityConfig \<Rightarrow> (string + TcpStream ProxyStream \<times> SocketAddr) outcome" where
  "handle_proxy_protocol stream peer_addr security_config =
     (if \<not> sec_proxy_protocol security_config then Returned (Inr (stream_new stream None, peer_addr))
      else (let is_trusted = (sa_ip peer_addr = sec_trusted_upstream security_config);
                timeout_duration = from_millis (sec_timeout_ms security_config)
            in if is_trusted
               then (case read_header timeout_duration [] stream of
                       Elapsed \<Rightarrow> Returned (Inl ''Timeout reading Proxy Protocol header'')
                     | Completed (Inl err) \<Rightarrow> Returned (Inl err)
                     | Completed (Inr (header_buf, rest)) \<Rightarrow>
                         (case header_addr header_buf of
                            Panicked \<Rightarrow> Panicked
                          | Returned (Inl err) \<Rightarrow> Returned (Inl err)
                          | Returned (Inr client_addr) \<Rightarrow> Returned (Inr (stream_new rest None, client_addr))))
               else (case peek_prefix timeout_duration [] stream of
                       Elapsed \<Rightarrow> Returned (Inl ''Timeout checking for fake Proxy Protocol header'')
                     | Completed (Inl err) \<Rightarrow> Returned (Inl err)
                     | Completed (Inr (header_buf, rest)) \<Rightarrow>
                         (if starts_with (str_of_bytes header_buf) ''PROXY''
                          then Returned (Inl
                            ''Spoofing attempt: Proxy Protocol header injected from untrusted source'')
                          else Returned (Inr (stream_new rest (Some header_buf), peer_addr))))))"

declare read_header.simps [simp del] peek_prefix.simps [simp del] is_utf8.simps [simp del]

section \<open>What a stream holds\<close>

text \<open>The bytes that arrive before the stream ends or fails.\<close>

fun stream_bytes :: "TcpStream \<Rightarrow> Bytes" where
  "stream_bytes ((t, Byte b) # s) = b # stream_bytes s"
| "stream_bytes _ = []"

definition pending :: "TcpStream ProxyStream \<Rightarrow> Bytes" where
  "pending ps = (case ps_buffer ps of None \<Rightarrow> [] | Some (data, pos) \<Rightarrow> drop pos data) @ stream_bytes (ps_inner ps)"

lemma str_of_bytes_append [simp]: "str_of_bytes (a @ b) = str_of_bytes a @ str_of_bytes b"
  by (simp add: str_of_bytes_def)

lemma length_str_of_bytes [simp]: "length (str_of_bytes bs) = length bs"
  by (simp add: str_of_bytes_def)

lemma read_header_consumes:
  "read_header deadline buf stream = Completed (Inr (hdr, rest)) \<Longrightarrow> length buf \<le> 107 \<Longrightarrow>
   buf @ stream_bytes stream = hdr @ stream_bytes rest \<and> length hdr \<le> 107"
proof (induction stream arbitrary: buf)
  case Nil
  then show ?case by (subst (asm) read_header.simps) (auto split: if_splits)
next
  case (Cons e s)
  obtain t ev where e: "e = (t, ev)" by fastforce
  show ?case
    using Cons.prems Cons.IH [of "buf @ [case ev of Byte b \<Rightarrow> b]"]
    by (subst (asm) read_header.simps) (auto simp: e split: if_splits read_event.splits)
qed

lemma starts_with_nth: "starts_with s p \<Longrightarrow> n < length p \<Longrightarrow> s ! n = p ! n"
  by (auto simp: starts_with_iff nth_append)

lemma peek_prefix_full: "5 \<le> length buf \<Longrightarrow> peek_prefix deadline buf stream = Completed (Inr (buf, stream))"
  by (subst peek_prefix.simps) simp

lemma peek_prefix_step:
  "length buf < 5 \<Longrightarrow> peek_prefix deadline buf ((t, ev) # s) =
   (if deadline < t then Elapsed
    else (case ev of
            ReadError e \<Rightarrow> Completed (Inl e)
          | Eof \<Rightarrow> Completed (Inr (buf, (t, ev) # s))
          | Byte b \<Rightarrow>
              (if char_of (unat b) \<noteq> ''PROXY'' ! length buf then Completed (Inr (buf @ [b], s))
               else peek_prefix deadline (buf @ [b]) s)))"
  by (subst peek_prefix.simps) (simp del: nth_Cons)

text \<open>The bytes looked at are given back, and they show whether the stream starts with the keyword.\<close>

lemma peek_prefix_keeps:
  "peek_prefix deadline buf stream = Completed (Inr (hdr, rest)) \<Longrightarrow> str_of_bytes buf = take (length buf) ''PROXY'' \<Longrightarrow>
   buf @ stream_bytes stream = hdr @ stream_bytes rest \<and>
   (starts_with (str_of_bytes (buf @ stream_bytes stream)) ''PROXY'' \<longrightarrow> starts_with (str_of_bytes hdr) ''PROXY'')"
proof (induction stream arbitrary: buf)
  case Nil
  then show ?case by (subst (asm) peek_prefix.simps) (auto split: if_splits)
next
  case (Cons e s)
  obtain t ev where e: "e = (t, ev)" by fastforce
  show ?case
  proof (cases "length buf < 5")
    case False
    then have "str_of_bytes buf = ''PROXY''" using Cons.prems(2) by (simp add: take_all del: take_Suc_Cons)
    then show ?thesis using Cons.prems(1) False by (auto simp: peek_prefix_full starts_with_iff)
  next
    case True
    note step = Cons.prems(1) [unfolded e peek_prefix_step [OF True]]
    show ?thesis
    proof (cases "\<exists>b. ev = Byte b")
      case False
      then show ?thesis using step by (cases ev) (auto simp: e split: if_splits)
    next
      case byte: True
      then obtain b where b: "ev = Byte b" by blast
      show ?thesis
      proof (cases "char_of (unat b) = ''PROXY'' ! length buf")
        case eq: True
        have "take (Suc (length buf)) ''PROXY'' = take (length buf) ''PROXY'' @ [''PROXY'' ! length buf]"
          by (rule take_Suc_conv_app_nth) (use True in simp)
        then have "str_of_bytes (buf @ [b]) = take (length (buf @ [b])) ''PROXY''"
          using Cons.prems(2) eq by (simp add: str_of_bytes_def)
        then show ?thesis
          using step eq Cons.IH [of "buf @ [b]"] by (simp add: e b split: if_splits)
      next
        case False
        then have "\<not> starts_with (str_of_bytes (buf @ b # stream_bytes s)) ''PROXY''"
          using True starts_with_nth [of "str_of_bytes (buf @ b # stream_bytes s)" "''PROXY''" "length buf"]
          by (auto simp: str_of_bytes_def nth_append)
        then show ?thesis using step False by (auto simp: e b split: if_splits)
      qed
    qed
  qed
qed

section \<open>The header is read back\<close>

lemma parse_proxy_protocol_no_panic: "parse_proxy_protocol_v1 header \<noteq> Panicked"
proof (cases "starts_with header ''PROXY TCP4 '' \<and> ends_with header crlf")
  case True
  then obtain t u where t: "header = ''PROXY TCP4 '' @ t" and u: "header = u @ crlf"
    unfolding starts_with_iff ends_with_iff by blast
  have "last header = CHR 0x0A" "last (butlast header) = CHR 0x0D" by (simp_all add: u crlf_def butlast_append)
  then have "2 \<le> length t"
    by (cases t rule: rev_cases; cases "butlast t" rule: rev_cases) (auto simp: t butlast_append)
  then show ?thesis by (simp add: parse_proxy_protocol_v1_def str_slice_def t)
qed (auto simp: parse_proxy_protocol_v1_def)

lemma header_addr_no_panic: "header_addr buf \<noteq> Panicked"
  using parse_proxy_protocol_no_panic by (auto simp: header_addr_def split: outcome.splits option.splits)

lemma read_header_done:
  assumes "length buf + length todo \<le> 107" and "todo \<noteq> []" and "list_all (\<lambda>t. t \<le> deadline) ts"
    and "length ts = length todo" and "ends_with (str_of_bytes (buf @ todo)) crlf"
    and "\<And>n. n < length todo \<Longrightarrow> \<not> ends_with (str_of_bytes (buf @ take n todo)) crlf"
  shows "read_header deadline buf (zip ts (map Byte todo) @ rest) = Completed (Inr (buf @ todo, rest))"
  using assms
proof (induction todo arbitrary: buf ts)
  case (Cons b todo)
  obtain t ts' where ts: "ts = t # ts'" using Cons.prems(4) by (cases ts) auto
  show ?case
  proof (cases "todo = []")
    case True
    then show ?thesis
      using Cons.prems by (subst read_header.simps) (simp add: ts)
  next
    case False
    have "\<not> ends_with (str_of_bytes (buf @ [b])) crlf" using Cons.prems(6) [of 1] False by simp
    moreover have "read_header deadline (buf @ [b]) (zip ts' (map Byte todo) @ rest) = Completed (Inr ((buf @ [b]) @ todo, rest))"
    proof (rule Cons.IH)
      fix n
      assume "n < length todo"
      then show "\<not> ends_with (str_of_bytes ((buf @ [b]) @ take n todo)) crlf" using Cons.prems(6) [of "Suc n"] by simp
    qed (use Cons.prems False in \<open>simp_all add: ts\<close>)
    ultimately show ?thesis
      using Cons.prems(1,3) by (subst read_header.simps) (simp add: ts)
  qed
qed simp

definition byte_of_char :: "char \<Rightarrow> u8" where
  "byte_of_char c = of_nat (of_char c)"

lemma unat_byte_of_char: "unat (byte_of_char c) = of_char c"
proof -
  have "(of_char c :: nat) < 256" by simp
  then show ?thesis by (simp add: byte_of_char_def unat_of_nat take_bit_eq_mod)
qed

lemma char_of_byte [simp]: "char_of (unat (byte_of_char c)) = c"
  by (simp add: unat_byte_of_char)

lemma str_of_bytes_chars [simp]: "str_of_bytes (map byte_of_char s) = s"
  by (simp add: str_of_bytes_def comp_def)

text \<open>The header of a connection, as a proxy writes it.\<close>

definition header_text :: "IpAddr \<Rightarrow> IpAddr \<Rightarrow> nat \<Rightarrow> nat \<Rightarrow> string" where
  "header_text client proxy client_port proxy_port =
     ''PROXY TCP4 '' @ ip_to_string client @ '' '' @ ip_to_string proxy @ '' '' @ show_nat client_port @ '' '' @
     show_nat proxy_port @ crlf"

lemma digit_plain: "list_all is_ascii_digit s \<Longrightarrow> list_all (\<lambda>c. c \<noteq> CHR '' '' \<and> c \<noteq> CHR 0x0A \<and> of_char c < (128 :: nat)) s"
  by (auto simp: list_all_iff is_ascii_digit_def Let_def)

lemma show_nat_plain: "list_all (\<lambda>c. c \<noteq> CHR '' '' \<and> c \<noteq> CHR 0x0A \<and> of_char c < (128 :: nat)) (show_nat n)"
  by (rule digit_plain [OF show_nat_digits])

lemma ip_plain: "list_all (\<lambda>c. c \<noteq> CHR '' '' \<and> c \<noteq> CHR 0x0A \<and> of_char c < (128 :: nat)) (ip_to_string (V4 a b c d))"
  using show_nat_plain by (simp add: show_v4_def)

lemma show_port_length: "n \<le> u16_max \<Longrightarrow> length (show_nat n) \<le> 5"
  by (simp add: show_nat.simps)

lemma is_utf8_ascii: "list_all (\<lambda>n. n < 128) ns \<Longrightarrow> is_utf8 ns"
  by (induction ns) (simp_all add: is_utf8.simps)

lemma split_char_append: "list_all (\<lambda>c. c \<noteq> d) a \<Longrightarrow> split_char (a @ d # b) d = a # split_char b d"
  by (simp add: split_char_def split_on_append list_all_iff)

lemma split_char_no: "list_all (\<lambda>c. c \<noteq> d) a \<Longrightarrow> split_char a d = [a]"
  by (simp add: split_char_def split_on_no list_all_iff)

text \<open>The part of the header between the keyword and the line end.\<close>

definition header_payload :: "IpAddr \<Rightarrow> IpAddr \<Rightarrow> nat \<Rightarrow> nat \<Rightarrow> string" where
  "header_payload client proxy client_port proxy_port =
     ip_to_string client @ CHR '' '' # ip_to_string proxy @ CHR '' '' # show_nat client_port @ CHR '' '' # show_nat proxy_port"

lemma header_text_payload: "header_text client proxy p q = ''PROXY TCP4 '' @ header_payload client proxy p q @ crlf"
  by (simp add: header_text_def header_payload_def)

lemma payload_parsed:
  assumes "client = V4 a b c d" "proxy = V4 a' b' c' d'" "p \<le> u16_max" "q \<le> u16_max"
  shows "parse_proxy_payload (header_payload client proxy p q) = Some (client, p)"
proof -
  have ns: "list_all (\<lambda>c. c \<noteq> CHR '' '') (ip_to_string client)" "list_all (\<lambda>c. c \<noteq> CHR '' '') (ip_to_string proxy)"
    "list_all (\<lambda>c. c \<noteq> CHR '' '') (show_nat p)" "list_all (\<lambda>c. c \<noteq> CHR '' '') (show_nat q)"
    using ip_plain show_nat_plain unfolding assms(1,2) by (simp_all add: list_all_iff del: ip_to_string.simps)
  have "split_char (header_payload client proxy p q) CHR '' '' = [ip_to_string client, ip_to_string proxy, show_nat p, show_nat q]"
    unfolding header_payload_def by (simp only: split_char_append [OF ns(1)] split_char_append [OF ns(2)]
        split_char_append [OF ns(3)] split_char_no [OF ns(4)])
  then show ?thesis
    using assms(3,4)
    by (simp add: parse_proxy_payload_def assms(1,2) parse_ipv4_addr_show parse_uint_show_nat del: ip_to_string.simps)
qed

lemma header_text_addr:
  assumes "client = V4 a b c d" "proxy = V4 a' b' c' d'" "p \<le> u16_max" "q \<le> u16_max"
  shows "header_addr (map byte_of_char (header_text client proxy p q)) = Returned (Inr \<lparr>sa_ip = client, sa_port = p\<rparr>)"
proof -
  let ?pl = "header_payload client proxy p q"
  have "list_all (\<lambda>c. of_char c < (128 :: nat)) ?pl"
    using ip_plain show_nat_plain unfolding assms(1,2) header_payload_def
    by (simp add: list_all_iff ball_Un del: ip_to_string.simps)
  then have "is_utf8 (map unat (map byte_of_char (header_text client proxy p q)))"
    by (intro is_utf8_ascii) (simp add: header_text_payload crlf_def unat_byte_of_char list_all_iff)
  moreover have "str_slice 11 (length (header_text client proxy p q) - 2) (header_text client proxy p q) = Returned ?pl"
    by (simp add: str_slice_def header_text_payload crlf_def)
  moreover have "starts_with (header_text client proxy p q) ''PROXY TCP4 ''" "ends_with (header_text client proxy p q) crlf"
    unfolding header_text_payload starts_with_iff ends_with_iff by (blast, metis append.assoc)
  ultimately show ?thesis
    by (simp add: header_addr_def parse_proxy_protocol_v1_def payload_parsed [OF assms])
qed

lemma header_text_length:
  assumes "client = V4 a b c d" "proxy = V4 a' b' c' d'" "p \<le> u16_max" "q \<le> u16_max"
  shows "length (header_text client proxy p q) \<le> 107"
proof -
  have "length (ip_to_string (V4 w x y z)) \<le> 15" for w x y z
    using show_v4_length [of "unat w" "unat x" "unat y" "unat z"] by (simp add: unat_u8_le)
  from this [of a b c d] this [of a' b' c' d'] show ?thesis
    using show_port_length [OF assms(3)] show_port_length [OF assms(4)]
    by (simp add: header_text_def assms(1,2) crlf_def del: ip_to_string.simps)
qed

lemma header_text_read:
  assumes "client = V4 a b c d" "proxy = V4 a' b' c' d'" "p \<le> u16_max" "q \<le> u16_max"
    and "list_all (\<lambda>t. t \<le> deadline) ts" "length ts = length (header_text client proxy p q)"
  shows "read_header deadline [] (zip ts (map Byte (map byte_of_char (header_text client proxy p q))) @ rest) =
    Completed (Inr (map byte_of_char (header_text client proxy p q), rest))"
proof -
  let ?h = "header_text client proxy p q"
  have "\<not> ends_with (take n ?h) crlf" if "n < length ?h" for n
  proof
    assume "ends_with (take n ?h) crlf"
    then have "CHR 0x0A \<in> set (take n ?h)" by (auto simp: ends_with_iff crlf_def)
    moreover have "take n ?h = take n (butlast ?h)" using that by (simp add: take_butlast)
    moreover have "CHR 0x0A \<notin> set (butlast ?h)"
      using ip_plain show_nat_plain unfolding assms(1,2) header_text_def crlf_def
      by (simp add: butlast_append list_all_iff del: ip_to_string.simps) metis
    ultimately show False by (metis in_set_takeD)
  qed
  moreover have "ends_with ?h crlf" unfolding header_text_payload ends_with_iff by (metis append.assoc)
  moreover have "?h \<noteq> []" by (simp add: header_text_def)
  ultimately show ?thesis
    using read_header_done [of "[]" "map byte_of_char ?h" deadline ts rest] assms(5,6) header_text_length [OF assms(1-4)]
    by (simp add: take_map)
qed

section \<open>Properties\<close>

lemma untrusted_pending:
  assumes "sec_proxy_protocol sec" and "sa_ip peer \<noteq> sec_trusted_upstream sec"
    and "handle_proxy_protocol stream peer sec = Returned (Inr (ps, addr))"
  shows "addr = peer \<and> pending ps = stream_bytes stream \<and> \<not> starts_with (str_of_bytes (stream_bytes stream)) ''PROXY''"
proof -
  obtain hdr rest where p: "peek_prefix (from_millis (sec_timeout_ms sec)) [] stream = Completed (Inr (hdr, rest))"
    and h: "\<not> starts_with (str_of_bytes hdr) ''PROXY''" "ps = stream_new rest (Some hdr)" "addr = peer"
    using assms by (auto simp: handle_proxy_protocol_def split: timed.splits sum.splits if_splits)
  from peek_prefix_keeps [OF p] h show ?thesis by (auto simp: str_of_bytes_def pending_def stream_new_def)
qed

text \<open>
  C21: the handling of a new connection never panics. With the protocol switched on, a connection from
  any peer but the trusted upstream is let through only if it does not start with \<open>PROXY\<close>; it keeps
  the address of the peer, and every byte that was read in advance is still to be read, before the
  rest of the stream.
\<close>

theorem untrusted_peer_keeps_address:
  "handle_proxy_protocol stream peer sec \<noteq> Panicked \<and>
   (sec_proxy_protocol sec \<and> sa_ip peer \<noteq> sec_trusted_upstream sec \<and>
    handle_proxy_protocol stream peer sec = Returned (Inr (ps, addr)) \<longrightarrow>
      addr = peer \<and> pending ps = stream_bytes stream \<and>
      \<not> starts_with (str_of_bytes (stream_bytes stream)) ''PROXY'')"
proof -
  have "handle_proxy_protocol stream peer sec \<noteq> Panicked"
    using header_addr_no_panic
    by (auto simp: handle_proxy_protocol_def Let_def split: timed.splits sum.splits outcome.splits)
  then show ?thesis using untrusted_pending by blast
qed

text \<open>
  C22: the header that a proxy writes for an IPv4 connection is read back: sent by the trusted upstream
  within the time limit, in pieces of any size, it gives the client's address and port, and the
  stream continues with the first byte after it.
\<close>

theorem proxy_header_roundtrip:
  assumes "sec_proxy_protocol sec" and "sa_ip peer = sec_trusted_upstream sec"
    and "client = V4 a b c d" and "proxy = V4 a' b' c' d'" and "p \<le> u16_max" and "q \<le> u16_max"
    and "length ts = length (header_text client proxy p q)"
    and "list_all (\<lambda>t. t \<le> from_millis (sec_timeout_ms sec)) ts"
  shows "handle_proxy_protocol (zip ts (map Byte (map byte_of_char (header_text client proxy p q))) @ rest) peer sec =
    Returned (Inr (stream_new rest None, \<lparr>sa_ip = client, sa_port = p\<rparr>))"
  using header_text_read [OF assms(3-6,8,7)] header_text_addr [OF assms(3-6)] assms(1,2)
  by (simp add: handle_proxy_protocol_def)

text \<open>
  One read: as long as there is room in the reader's buffer, every read takes the next buffered bytes,
  at least one and at most as many as there is room, and the connection itself is read only when the
  buffer is used up.
\<close>

lemma poll_read_replays:
  assumes "remaining > 0" and "poll_read inner_read remaining ps = (r, ps')"
  shows "case r of
      Inl bs \<Rightarrow> bs \<noteq> [] \<and> length bs \<le> remaining \<and> pending ps = bs @ pending ps' \<and> ps_inner ps' = ps_inner ps
    | Inr x \<Rightarrow> pending ps = stream_bytes (ps_inner ps) \<and> inner_read remaining (ps_inner ps) = (x, ps_inner ps') \<and>
        ps_buffer ps' = None"
proof (cases "ps_buffer ps")
  case None
  then show ?thesis using assms by (auto simp: poll_read_def pending_def split: prod.splits)
next
  case (Some b)
  obtain data pos where b: "b = (data, pos)" by fastforce
  let ?n = "min remaining (length data - pos)"
  have n: "drop pos data = take ?n (drop pos data) @ drop (pos + ?n) data"
    by (metis add.commute append_take_drop_id drop_drop)
  show ?thesis
  proof (cases "pos < length data")
    case True
    then have "r = Inl (take ?n (drop pos data))" "ps' = ps\<lparr>ps_buffer := (if length data \<le> pos + ?n then None else Some (data, pos + ?n))\<rparr>"
      using assms Some by (auto simp: poll_read_def b Let_def)
    then show ?thesis
      using True assms(1) Some n by (auto simp: pending_def b simp del: take_drop)
  next
    case False
    then show ?thesis using assms Some by (auto simp: poll_read_def pending_def b Let_def split: prod.splits)
  qed
qed

text \<open>A user of the stream reads, with room for some bytes, writes, flushes and closes in any order.\<close>

datatype stream_use = ReadUpTo nat | WriteOut Bytes | FlushOut | ShutDown

record ('i, 'r, 'w) stream_ops =
  so_read :: "nat \<Rightarrow> 'i \<Rightarrow> 'r \<times> 'i"
  so_write :: "Bytes \<Rightarrow> 'i \<Rightarrow> 'w \<times> 'i"
  so_flush :: "'i \<Rightarrow> 'w \<times> 'i"
  so_shutdown :: "'i \<Rightarrow> 'w \<times> 'i"

text \<open>The bytes read in all, where \<open>got\<close> are those of one read of the connection, and the stream left.\<close>

fun use_stream ::
  "('i, 'r, 'w) stream_ops \<Rightarrow> ('r \<Rightarrow> Bytes) \<Rightarrow> stream_use list \<Rightarrow> 'i ProxyStream \<Rightarrow> Bytes \<times> 'i ProxyStream" where
  "use_stream io got [] ps = ([], ps)"
| "use_stream io got (ReadUpTo n # us) ps =
     (let (r, ps1) = poll_read (so_read io) n ps; (bs, ps2) = use_stream io got us ps1
      in (case_sum id got r @ bs, ps2))"
| "use_stream io got (WriteOut buf # us) ps = use_stream io got us (snd (poll_write (so_write io) buf ps))"
| "use_stream io got (FlushOut # us) ps = use_stream io got us (snd (poll_flush (so_flush io) ps))"
| "use_stream io got (ShutDown # us) ps = use_stream io got us (snd (poll_shutdown (so_shutdown io) ps))"

text \<open>What the connection itself promises: reads take its bytes in order, the rest leaves them alone.\<close>

locale byte_stream =
  fixes io :: "(TcpStream, 'r, 'w) stream_ops" and got :: "'r \<Rightarrow> Bytes"
  assumes read_bytes: "so_read io n i = (r, i') \<Longrightarrow> stream_bytes i = got r @ stream_bytes i'"
    and write_bytes: "stream_bytes (snd (so_write io buf i)) = stream_bytes i"
    and flush_bytes: "stream_bytes (snd (so_flush io i)) = stream_bytes i"
    and shutdown_bytes: "stream_bytes (snd (so_shutdown io i)) = stream_bytes i"
begin

lemma poll_read_pending:
  assumes "n > 0" and "poll_read (so_read io) n ps = (r, ps')"
  shows "pending ps = case_sum id got r @ pending ps'"
proof (cases r)
  case (Inr x)
  then show ?thesis
    using poll_read_replays [OF assms] read_bytes by (auto simp: pending_def)
qed (use poll_read_replays [OF assms] in simp)

lemma poll_output_pending:
  "pending (snd (poll_write (so_write io) buf ps)) = pending ps"
  "pending (snd (poll_flush (so_flush io) ps)) = pending ps"
  "pending (snd (poll_shutdown (so_shutdown io) ps)) = pending ps"
  using write_bytes [of buf "ps_inner ps"] flush_bytes [of "ps_inner ps"] shutdown_bytes [of "ps_inner ps"]
  by (auto simp: poll_write_def poll_flush_def poll_shutdown_def pending_def split: prod.splits)

lemma use_stream_pending:
  assumes "list_all (\<lambda>u. u \<noteq> ReadUpTo 0) us" and "use_stream io got us ps = (bs, ps')"
  shows "pending ps = bs @ pending ps'"
  using assms
proof (induction us arbitrary: ps bs)
  case (Cons u us)
  show ?case
  proof (cases u)
    case (ReadUpTo n)
    obtain r ps1 where r: "poll_read (so_read io) n ps = (r, ps1)" by fastforce
    obtain bs1 ps2 where b: "use_stream io got us ps1 = (bs1, ps2)" by fastforce
    have "n > 0" using Cons.prems(1) ReadUpTo by auto
    from poll_read_pending [OF this r] Cons.IH [of ps1 bs1] Cons.prems ReadUpTo r b show ?thesis by auto
  next
    case (WriteOut buf)
    then show ?thesis using Cons poll_output_pending(1) [of buf ps] by fastforce
  next
    case FlushOut
    then show ?thesis using Cons poll_output_pending(2) [of ps] by fastforce
  next
    case ShutDown
    then show ?thesis using Cons poll_output_pending(3) [of ps] by fastforce
  qed
qed simp

end


text \<open>A connection that hands out the bytes that have arrived and takes everything it is given.\<close>

fun tcp_read :: "nat \<Rightarrow> TcpStream \<Rightarrow> Bytes \<times> TcpStream" where
  "tcp_read (Suc n) ((t, Byte b) # s) = (let (bs, s') = tcp_read n s in (b # bs, s'))"
| "tcp_read n s = ([], s)"

definition tcp_io :: "(TcpStream, Bytes, unit) stream_ops" where
  "tcp_io = \<lparr>so_read = tcp_read, so_write = (\<lambda>buf s. ((), s)), so_flush = (\<lambda>s. ((), s)), so_shutdown = (\<lambda>s. ((), s))\<rparr>"

lemma tcp_read_bytes: "tcp_read n s = (bs, s') \<Longrightarrow> stream_bytes s = bs @ stream_bytes s'"
  by (induction n s arbitrary: bs rule: tcp_read.induct) (auto split: prod.splits)

interpretation tcp: byte_stream tcp_io id
  by unfold_locales (auto simp: tcp_io_def tcp_read_bytes)

lemma tcp_byte_stream: "byte_stream tcp_io id"
  by unfold_locales

text \<open>A read without room, however, throws the buffered bytes away.\<close>

lemma poll_read_empty_loses:
  "poll_read inner_read 0 ps = (r, ps') \<Longrightarrow> ps_buffer ps' = None"
  by (auto simp: poll_read_def Let_def split: option.splits prod.splits)

section \<open>Examples\<close>

definition example_pp :: SecurityConfig where
  "example_pp =
     \<lparr>sec_proxy_protocol = True, sec_trusted_upstream = V4 10 0 0 1, sec_timeout_ms = 200, sec_max_tls_failures = 5,
      sec_ban_duration_sec = 3600, sec_rate_limit_rpm = 300, sec_forward_auth = None, sec_max_body_size = 1, sec_max_header_size = 1\<rparr>"

theorem untrusted_peer_keeps_address_witness:
  "pending (stream_new [(7, Eof)] (Some [byte_of_char CHR ''P'', byte_of_char CHR ''G''])) = stream_bytes [(5, Byte (byte_of_char CHR ''P'')), (6, Byte (byte_of_char CHR ''G'')), (7, Eof)]"
proof -
  have "handle_proxy_protocol [(5, Byte (byte_of_char CHR ''P'')), (6, Byte (byte_of_char CHR ''G'')), (7, Eof)] \<lparr>sa_ip = V4 1 2 3 4, sa_port = 5\<rparr> example_pp =
      Returned (Inr (stream_new [(7, Eof)] (Some [byte_of_char CHR ''P'', byte_of_char CHR ''G'']), \<lparr>sa_ip = V4 1 2 3 4, sa_port = 5\<rparr>))"
    by (simp add: handle_proxy_protocol_def example_pp_def from_millis_def peek_prefix.simps str_of_bytes_def
        starts_with_def)
  then show ?thesis
    using untrusted_peer_keeps_address [of "[(5, Byte (byte_of_char CHR ''P'')), (6, Byte (byte_of_char CHR ''G'')), (7, Eof)]" "\<lparr>sa_ip = V4 1 2 3 4, sa_port = 5\<rparr>" example_pp]
    by (simp add: example_pp_def)
qed


theorem proxy_header_roundtrip_witness:
  "handle_proxy_protocol
     (zip (replicate 37 9) (map Byte (map byte_of_char (header_text (V4 1 2 3 4) (V4 5 6 7 8) 12345 80))) @ [(9, Byte 71)])
     \<lparr>sa_ip = V4 10 0 0 1, sa_port = 7\<rparr> example_pp =
   Returned (Inr (stream_new [(9, Byte 71)] None, \<lparr>sa_ip = V4 1 2 3 4, sa_port = 12345\<rparr>))"
proof (rule proxy_header_roundtrip [OF _ _ refl refl])
  show "length (replicate 37 9) = length (header_text (V4 1 2 3 4) (V4 5 6 7 8) 12345 80)"
    by (simp add: header_text_def show_v4_def show_nat.simps crlf_def)
qed (simp_all add: example_pp_def from_millis_def list_all_iff)

end
