(* ===== verification/Log.thy ===== *)
theory Log
  imports Rust_Str
begin

text \<open>
  The log of \<open>src/src/log.rs\<close>: the format of a line, the output of a line on standard output and in
  the log file, and the switch of the log file. The clock, the name of the thread and the file system are
  arguments; what has been written is a list of lines. A line that the log file does not take is
  lost without notice.
\<close>

section \<open>Lines\<close>

datatype LogLevel = INFO | ERROR | WARN | DEBUG

fun level_to_string :: "LogLevel \<Rightarrow> string" where
  "level_to_string INFO = ''INFO''"
| "level_to_string ERROR = ''ERROR''"
| "level_to_string WARN = ''WARN''"
| "level_to_string DEBUG = ''DEBUG''"

definition log_line :: "string \<Rightarrow> string option \<Rightarrow> LogLevel \<Rightarrow> string \<Rightarrow> (string \<times> string) list \<Rightarrow> string" where
  "log_line timestamp thread level event kv =
     ''['' @ timestamp @ ''] ['' @ level_to_string level @ ''] ['' @ unwrap_or thread ''unknown-thread'' @
     ''] event='' @ event @ concat (map (\<lambda>(k, v). '' '' @ k @ ''='' @ v) kv)"

section \<open>Output\<close>

text \<open>The open log file and what it holds.\<close>

record log_file =
  lf_path :: string
  lf_lines :: "string list"

text \<open>Standard output, which may be broken, for instance a pipe without a reader, and the log file.\<close>

record log_state =
  lg_stdout :: "string list"
  lg_broken :: bool
  lg_file :: "log_file option"

text \<open>\<open>println!\<close> panics if the line cannot be written.\<close>

definition println :: "string \<Rightarrow> log_state \<Rightarrow> unit outcome \<times> log_state" where
  "println line st =
     (if lg_broken st then (Panicked, st) else (Returned (), st\<lparr>lg_stdout := lg_stdout st @ [line]\<rparr>))"

definition log_event ::
  "string \<Rightarrow> string option \<Rightarrow> LogLevel \<Rightarrow> string \<Rightarrow> (string \<times> string) list \<Rightarrow> log_state \<Rightarrow> unit outcome \<times> log_state" where
  "log_event timestamp thread level event kv st =
     (let line = log_line timestamp thread level event kv
      in case println line st of
           (Panicked, st1) \<Rightarrow> (Panicked, st1)
         | (Returned _, st1) \<Rightarrow>
             (Returned (), st1\<lparr>lg_file := map_option (\<lambda>f. f\<lparr>lf_lines := lf_lines f @ [line]\<rparr>) (lg_file st1)\<rparr>))"

section \<open>The log file\<close>

text \<open>
  \<open>Path::parent\<close>: the path without its last component. Empty components and dots count only
  as the first component of a relative path.
\<close>

definition path_component :: "string \<Rightarrow> bool" where
  "path_component seg \<longleftrightarrow> seg \<noteq> [] \<and> seg \<noteq> ''.''"

definition trim_back :: "string list \<Rightarrow> string list" where
  "trim_back segs = rev (dropWhile (\<lambda>seg. \<not> path_component seg) (rev segs))"

fun join_path :: "string list \<Rightarrow> string" where
  "join_path [] = []"
| "join_path [seg] = seg"
| "join_path (seg # segs) = seg @ ''/'' @ join_path segs"

definition path_parent :: "string \<Rightarrow> string option" where
  "path_parent p =
     (let has_root = starts_with p ''/'';
          cur_dir = (p = ''.'' \<or> starts_with p ''./'');
          n = (if has_root \<or> cur_dir then 1 else 0);
          segs = trim_back (split_char (drop n p) CHR ''/'')
      in if segs = [] then (if cur_dir then Some [] else None)
         else Some (take n p @ join_path (trim_back (butlast segs))))"

text \<open>
  Open the file of the path for appending, or close the current one. \<open>open_log dir p\<close> gives the lines of
  the file \<open>p\<close>, or nothing if it cannot be opened, after the attempt to create the directory \<open>dir\<close>.
\<close>

definition update_log_file ::
  "(string option \<Rightarrow> string \<Rightarrow> string list option) \<Rightarrow> string option \<Rightarrow> log_file option \<Rightarrow> log_file option outcome" where
  "update_log_file open_log path log =
     (case path of
        None \<Rightarrow> Returned None
      | Some p \<Rightarrow>
          (case open_log (path_parent p) p of
             None \<Rightarrow> Panicked
           | Some ls \<Rightarrow> Returned (Some \<lparr>lf_path = p, lf_lines = ls\<rparr>)))"

section \<open>Records\<close>

text \<open>The arguments of a call of one of the macros \<open>log_info\<close>, \<open>log_error\<close>, \<open>log_warn\<close> and \<open>log_debug\<close>.\<close>

record log_record =
  lr_level :: LogLevel
  lr_event :: string
  lr_fields :: "(string \<times> string) list"

definition rec_of :: "LogLevel \<Rightarrow> string \<Rightarrow> (string \<times> string) list \<Rightarrow> log_record" where
  "rec_of level event kv = \<lparr>lr_level = level, lr_event = event, lr_fields = kv\<rparr>"

lemma rec_of_simps [simp]:
  "lr_level (rec_of l e kv) = l" "lr_event (rec_of l e kv) = e" "lr_fields (rec_of l e kv) = kv"
  by (simp_all add: rec_of_def)

definition record_line :: "string option \<Rightarrow> string \<times> log_record \<Rightarrow> string" where
  "record_line thread r = log_line (fst r) thread (lr_level (snd r)) (lr_event (snd r)) (lr_fields (snd r))"

text \<open>The records of a task, each with its own time, up to the first that cannot be written.\<close>

fun write_records :: "string option \<Rightarrow> (string \<times> log_record) list \<Rightarrow> log_state \<Rightarrow> unit outcome \<times> log_state" where
  "write_records thread [] st = (Returned (), st)"
| "write_records thread ((timestamp, r) # rs) st =
     (case log_event timestamp thread (lr_level r) (lr_event r) (lr_fields r) st of
        (Panicked, st1) \<Rightarrow> (Panicked, st1)
      | (Returned _, st1) \<Rightarrow> write_records thread rs st1)"

lemma write_records_lines:
  assumes "\<not> lg_broken st"
  shows "write_records thread rs st =
    (Returned (), st\<lparr>lg_stdout := lg_stdout st @ map (record_line thread) rs,
       lg_file := map_option (\<lambda>f. f\<lparr>lf_lines := lf_lines f @ map (record_line thread) rs\<rparr>) (lg_file st)\<rparr>)"
  using assms
proof (induction rs arbitrary: st)
  case Nil
  then show ?case by (cases "lg_file st") simp_all
next
  case (Cons r rs)
  then show ?case
    by (cases r) (simp add: log_event_def println_def record_line_def Let_def option.map_comp comp_def)
qed

lemma write_records_broken:
  "lg_broken st \<Longrightarrow> write_records thread rs st = (if rs = [] then Returned () else Panicked, st)"
  by (cases "(thread, rs, st)" rule: write_records.cases) (simp_all add: log_event_def println_def Let_def)

text \<open>The parent of a file in a directory is the directory.\<close>

lemma join_path_Cons: "segs \<noteq> [] \<Longrightarrow> join_path (seg # segs) = seg @ CHR ''/'' # join_path segs"
  by (cases segs) simp_all

lemma join_path_split: "join_path (split_char s CHR ''/'') = s"
proof (induction s)
  case (Cons c s)
  then show ?case
    by (cases "split_char s CHR ''/''"; cases "tl (split_char s CHR ''/'') = []")
       (auto simp: split_char_def join_path_Cons)
qed (simp add: split_char_def)

lemma trim_back_last: "segs \<noteq> [] \<Longrightarrow> path_component (last segs) \<Longrightarrow> trim_back segs = segs"
  by (cases segs rule: rev_cases) (simp_all add: trim_back_def)

lemma path_parent_file:
  assumes "path_component name" and "CHR ''/'' \<notin> set name" and "path_component (last (split_char dir CHR ''/''))"
  shows "path_parent (''/'' @ dir @ ''/'' @ name) = Some (''/'' @ dir)"
proof -
  have "split_char (dir @ CHR ''/'' # name) CHR ''/'' = split_char dir CHR ''/'' @ [name]"
    using assms(2) split_on_no [of name "\<lambda>d. d = CHR ''/''"] by (auto simp: split_char_def split_on_sep)
  then show ?thesis
    using assms(1,3) by (simp add: path_parent_def starts_with_def trim_back_last join_path_split)
qed

end
