(* ===== verification/Server.thy ===== *)
theory Server
  imports Proxy_Correct Proxy_Protocol Log
begin

text \<open>
  The running server: \<open>src/src/server.rs\<close> and \<open>src/src/worker.rs\<close>. The workers, the connections they
  serve, the tasks spawned for the cache and the thread that reloads the configuration share one
  state; each piece of a task between two points where other tasks can intervene is a step. The steps of
  all connections, requests, tasks and reloads interleave in any order. Which worker accepts a connection makes no
  difference to the shared state, so connections are kept in one list.
\<close>

section \<open>Connections\<close>

text \<open>The limits given to the HTTP implementation for a connection.\<close>

record serve_limits =
  sl_http1_buf :: nat
  sl_http2_header_list :: nat

text \<open>The stages of the task of a connection: what it has still to do.\<close>

datatype stage =
    Accepted TcpStream
  | Resolved "TcpStream ProxyStream" SocketAddr bool
  | Handshaking "TcpStream ProxyStream" SocketAddr bool
  | Serving SocketAddr bool serve_limits
  | Closed

record ('key, 'h, 'b) connection =
  cn_peer :: SocketAddr
  cn_config :: "('key, 'h, 'b) ActiveConfig"
  cn_stage :: stage

text \<open>
  The limits come from the configuration of the moment. \<open>max_buf_size\<close> panics below a minimum, which
  is an argument.
\<close>

definition max_header_size_of :: "('key, 'h, 'b) ActiveConfig \<Rightarrow> nat" where
  "max_header_size_of ac = (case ac_security ac of None \<Rightarrow> 64 * 1024 | Some s \<Rightarrow> sec_max_header_size s)"

definition serve_connection ::
  "nat \<Rightarrow> ('key, 'h, 'b) SharedConfig \<Rightarrow> SocketAddr \<Rightarrow> bool \<Rightarrow> stage outcome" where
  "serve_connection min_buf shared peer_addr is_proxy_protocol =
     (case config_load shared of
        Panicked \<Rightarrow> Panicked
      | Returned ac \<Rightarrow>
          (let max_header_size = max_header_size_of ac
           in if max_header_size < min_buf then Panicked
              else Returned (Serving peer_addr is_proxy_protocol
                     \<lparr>sl_http1_buf = max_header_size, sl_http2_header_list = as_u32 max_header_size\<rparr>)))"

text \<open>A task that panics is gone.\<close>

definition stage_of :: "stage outcome \<Rightarrow> stage" where
  "stage_of r = (case r of Panicked \<Rightarrow> Closed | Returned st \<Rightarrow> st)"

text \<open>The first part: the ban of the peer, then the PROXY protocol.\<close>

definition resolve_peer :: "TcpStream \<Rightarrow> SocketAddr \<Rightarrow> SecurityConfig option \<Rightarrow> stage" where
  "resolve_peer stream peer_addr security_config =
     (case security_config of
        Some sec \<Rightarrow>
          (case handle_proxy_protocol stream peer_addr sec of
             Returned (Inr (ps, addr)) \<Rightarrow> Resolved ps addr (sa_ip peer_addr = sec_trusted_upstream sec)
           | Returned (Inl err) \<Rightarrow> Closed
           | Panicked \<Rightarrow> Closed)
      | None \<Rightarrow> Resolved (stream_new stream None) peer_addr False)"

definition check_peer ::
  "Instant \<Rightarrow> TcpStream \<Rightarrow> ('key, 'h, 'b) connection \<Rightarrow> 'c Store \<Rightarrow> stage \<times> 'c Store" where
  "check_peer t stream conn s =
     (case with_manager (ac_security_manager (cn_config conn)) (is_blacklisted t (sa_ip (cn_peer conn))) s of
        (Panicked, s1) \<Rightarrow> (Closed, s1)
      | (Returned True, s1) \<Rightarrow> (Closed, s1)
      | (Returned False, s1) \<Rightarrow> (resolve_peer stream (cn_peer conn) (ac_security (cn_config conn)), s1))"

text \<open>The second part: the ban of the resolved address, then TLS if it is configured.\<close>

definition check_resolved ::
  "nat \<Rightarrow> ('key, 'h, 'b) SharedConfig \<Rightarrow> Instant \<Rightarrow> TcpStream ProxyStream \<Rightarrow> SocketAddr \<Rightarrow> bool \<Rightarrow>
   ('key, 'h, 'b) connection \<Rightarrow> 'c Store \<Rightarrow> stage \<times> 'c Store" where
  "check_resolved min_buf shared t ps resolved_addr is_proxy_protocol conn s =
     (case with_manager (ac_security_manager (cn_config conn)) (is_blacklisted t (sa_ip resolved_addr)) s of
        (Panicked, s1) \<Rightarrow> (Closed, s1)
      | (Returned True, s1) \<Rightarrow> (Closed, s1)
      | (Returned False, s1) \<Rightarrow>
          (case ac_tls_acceptor (cn_config conn) of
             Some acceptor \<Rightarrow> (Handshaking ps resolved_addr is_proxy_protocol, s1)
           | None \<Rightarrow> (stage_of (serve_connection min_buf shared resolved_addr is_proxy_protocol), s1)))"

text \<open>The third part: the end of the handshake, which succeeds or not.\<close>

definition finish_handshake ::
  "nat \<Rightarrow> ('key, 'h, 'b) SharedConfig \<Rightarrow> Instant \<Rightarrow> bool \<Rightarrow> SocketAddr \<Rightarrow> bool \<Rightarrow> ('key, 'h, 'b) connection \<Rightarrow>
   'c Store \<Rightarrow> stage \<times> 'c Store" where
  "finish_handshake min_buf shared t ok resolved_addr is_proxy_protocol conn s =
     (if ok then (stage_of (serve_connection min_buf shared resolved_addr is_proxy_protocol), s)
      else (let (_, s1) = with_manager (ac_security_manager (cn_config conn)) (record_tls_failure t (sa_ip resolved_addr)) s
            in (Closed, s1)))"

section \<open>Requests\<close>

text \<open>
  The stages of the handler of a request: between two of them it holds no lock, so other tasks can
  run. It waits for the upstream after the cache lookup only, and there it can be dropped with its
  connection.
\<close>

datatype ('h, 'b) request_stage =
    Arrived
  | Unbanned
  | Admitted
  | Looked "'h CachedAsset option"
  | Answered "('h, 'b) handled outcome"
  | Abandoned

record ('key, 'h, 'b) request_task =
  rk_config :: "('key, 'h, 'b) ActiveConfig"
  rk_peer :: SocketAddr
  rk_proxied :: bool
  rk_request :: "('h, 'b) Request"
  rk_stage :: "('h, 'b) request_stage"

fun request_open :: "('h, 'b) request_stage \<Rightarrow> bool" where
  "request_open (Answered r) = False"
| "request_open Abandoned = False"
| "request_open st = True"

definition rk_client_ip :: "('h, 'v) http_ops \<Rightarrow> ('key, 'h, 'b) request_task \<Rightarrow> string" where
  "rk_client_ip ops k = client_ip_of ops (rk_proxied k) (rk_peer k) (rq_headers (rk_request k))"

text \<open>The next piece of the handler, at the clock reading \<open>t\<close>.\<close>

definition request_next ::
  "('h, 'v) http_ops \<Rightarrow> ('c, 'h) asset_ops \<Rightarrow> ('b Body \<Rightarrow> Bytes option) \<Rightarrow> ('h, 'b) HttpClient \<Rightarrow> Instant \<Rightarrow>
   ('key, 'h, 'b) request_task \<Rightarrow> 'c Store \<Rightarrow> ('h, 'b) request_stage \<times> 'c Store" where
  "request_next ops aops collect client t k s =
     (let ac = rk_config k; req = rk_request k; client_ip = rk_client_ip ops k;
          host = request_host ops (rq_uri req) (rq_headers req)
      in case rk_stage k of
           Arrived \<Rightarrow>
             (case ban_check ac t client_ip s of
                (Panicked, s1) \<Rightarrow> (Answered Panicked, s1)
              | (Returned True, s1) \<Rightarrow> (Answered (Returned (respond (no_response_444 ops))), s1)
              | (Returned False, s1) \<Rightarrow> (Unbanned, s1))
         | Unbanned \<Rightarrow>
             (case rate_check ac t client_ip s of
                (Panicked, s1) \<Rightarrow> (Answered Panicked, s1)
              | (Returned (Inl count), s1) \<Rightarrow>
                  (Answered (Returned (respond (rate_limited_response ops client_ip host (rq_headers req)))), s1)
              | (Returned (Inr _), s1) \<Rightarrow> (Admitted, s1))
         | Admitted \<Rightarrow>
             (if payload_too_large ops (max_body_size_of ac) (rq_headers req)
              then (Answered (Returned (respond (payload_too_large_response ops client_ip host (rq_headers req)))), s)
              else (let (cached, s1) = lookup_request ops aops ac t req s in (Looked cached, s1)))
         | Looked cached \<Rightarrow>
             (Answered (Returned (answer_request ops collect client ac (rk_peer k) client_ip cached req s)), s)
         | st \<Rightarrow> (st, s))"

section \<open>The server\<close>

record ('key, 'c, 'h, 'b) Server =
  sv_port :: nat
  sv_config_path :: string
  sv_shared :: "('key, 'h, 'b) SharedConfig"
  sv_workers :: nat
  sv_store :: "'c Store"
  sv_log :: "log_file option"
  sv_generation :: nat
  sv_reloading :: bool
  sv_conns :: "('key, 'h, 'b) connection list"
  sv_requests :: "('key, 'h, 'b) request_task list"
  sv_tasks :: "'h insert_task list"

definition server_new ::
  "('file, 'cert, 'priv, 'key, 'h, 'b) environment \<Rightarrow> ('c, 'h) asset_ops \<Rightarrow> Config \<Rightarrow> string \<Rightarrow>
   (LoadError + ('key, 'c, 'h, 'b) Server) outcome" where
  "server_new env aops config config_path =
     (case build_active_config env aops config 0 None \<lparr>st_managers = [], st_engines = []\<rparr> of
        (Panicked, s) \<Rightarrow> Panicked
      | (Returned (Inl e), s) \<Rightarrow> Returned (Inl e)
      | (Returned (Inr ac), s) \<Rightarrow>
          (case update_log_file (env_open_log env) (ac_logfile ac) None of
             Panicked \<Rightarrow> Panicked
           | Returned log \<Rightarrow>
               Returned (Inr
                 \<lparr>sv_port = cfg_listen_port config, sv_config_path = config_path,
                  sv_shared = create_config_store ac, sv_workers = cfg_workers config, sv_store = s,
                  sv_log = log, sv_generation = 0, sv_reloading = True, sv_conns = [], sv_requests = [], sv_tasks = []\<rparr>)))"

text \<open>
  One round of the reload thread, for one signal. A panic ends the thread, and with it all later
  reloads.
\<close>

definition reload ::
  "('file, 'cert, 'priv, 'key, 'h, 'b) environment \<Rightarrow> ('c, 'h) asset_ops \<Rightarrow> ('key, 'c, 'h, 'b) Server \<Rightarrow>
   ('key, 'c, 'h, 'b) Server" where
  "reload env aops sv =
     (case config_load (sv_shared sv) of
        Panicked \<Rightarrow> sv\<lparr>sv_reloading := False\<rparr>
      | Returned current \<Rightarrow>
          (case load_active_config_from_path env aops (sv_config_path sv) (sv_port sv) (sv_workers sv)
                  (usize_add (sv_generation sv) 1) (Some (ac_security_manager current)) (sv_store sv) of
             (Panicked, s) \<Rightarrow> sv\<lparr>sv_store := s, sv_reloading := False\<rparr>
           | (Returned (Inl error), s) \<Rightarrow> sv\<lparr>sv_store := s\<rparr>
           | (Returned (Inr ac), s) \<Rightarrow>
               (case update_log_file (env_open_log env) (ac_logfile ac) (sv_log sv) of
                  Panicked \<Rightarrow> sv\<lparr>sv_store := s, sv_reloading := False\<rparr>
                | Returned log \<Rightarrow>
                    (case config_store ac (sv_shared sv) of
                       (Panicked, shared) \<Rightarrow>
                         sv\<lparr>sv_store := s, sv_log := log, sv_generation := ac_generation ac, sv_reloading := False\<rparr>
                     | (Returned _, shared) \<Rightarrow>
                         sv\<lparr>sv_store := s, sv_log := log, sv_generation := ac_generation ac, sv_shared := shared\<rparr>))))"

definition accept_connection ::
  "SocketAddr \<Rightarrow> TcpStream \<Rightarrow> ('key, 'h, 'b) ActiveConfig \<Rightarrow> ('key, 'c, 'h, 'b) Server \<Rightarrow> ('key, 'c, 'h, 'b) Server" where
  "accept_connection peer_addr stream active_config sv =
     sv\<lparr>sv_conns := sv_conns sv @ [\<lparr>cn_peer = peer_addr, cn_config = active_config, cn_stage = Accepted stream\<rparr>]\<rparr>"

definition set_stage :: "nat \<Rightarrow> stage \<times> 'c Store \<Rightarrow> ('key, 'c, 'h, 'b) Server \<Rightarrow> ('key, 'c, 'h, 'b) Server" where
  "set_stage i r sv =
     sv\<lparr>sv_store := snd r, sv_conns := (sv_conns sv)[i := (sv_conns sv ! i)\<lparr>cn_stage := fst r\<rparr>]\<rparr>"

definition begin_request ::
  "SocketAddr \<Rightarrow> bool \<Rightarrow> ('key, 'h, 'b) ActiveConfig \<Rightarrow> ('h, 'b) Request \<Rightarrow> ('key, 'c, 'h, 'b) Server \<Rightarrow>
   ('key, 'c, 'h, 'b) Server" where
  "begin_request peer_addr is_proxy_protocol active_config req sv =
     sv\<lparr>sv_requests := sv_requests sv @
       [\<lparr>rk_config = active_config, rk_peer = peer_addr, rk_proxied = is_proxy_protocol, rk_request = req, rk_stage = Arrived\<rparr>]\<rparr>"

text \<open>An answer can leave an insertion to be done.\<close>

fun spawned :: "('h, 'b) request_stage \<Rightarrow> 'h insert_task list" where
  "spawned (Answered (Returned out)) = (case hd_task out of None \<Rightarrow> [] | Some t \<Rightarrow> [t])"
| "spawned st = []"

definition set_request ::
  "nat \<Rightarrow> ('h, 'b) request_stage \<times> 'c Store \<Rightarrow> ('key, 'c, 'h, 'b) Server \<Rightarrow> ('key, 'c, 'h, 'b) Server" where
  "set_request j r sv =
     sv\<lparr>sv_store := snd r, sv_requests := (sv_requests sv)[j := (sv_requests sv ! j)\<lparr>rk_stage := fst r\<rparr>],
        sv_tasks := sv_tasks sv @ spawned (fst r)\<rparr>"

text \<open>
  The steps. \<open>envs\<close> are the surroundings a reload may meet: the files as they are at that time. The
  clock readings, the bytes of a connection, the outcome of a handshake, a request and what the
  upstream answers are arbitrary in every step.
\<close>

inductive server_step ::
  "('file, 'cert, 'priv, 'key, 'h, 'b) environment set \<Rightarrow> ('h, 'v) http_ops \<Rightarrow> ('c, 'h) asset_ops \<Rightarrow> nat \<Rightarrow>
   ('key, 'c, 'h, 'b) Server \<Rightarrow> ('key, 'c, 'h, 'b) Server \<Rightarrow> bool"
  for envs ops aops min_buf where
  step_reload: "env \<in> envs \<Longrightarrow> sv_reloading sv \<Longrightarrow> server_step envs ops aops min_buf sv (reload env aops sv)"
| step_accept: "config_load (sv_shared sv) = Returned ac \<Longrightarrow>
    server_step envs ops aops min_buf sv (accept_connection peer stream ac sv)"
| step_check_peer: "i < length (sv_conns sv) \<Longrightarrow> cn_stage (sv_conns sv ! i) = Accepted stream \<Longrightarrow>
    server_step envs ops aops min_buf sv (set_stage i (check_peer t stream (sv_conns sv ! i) (sv_store sv)) sv)"
| step_check_resolved: "i < length (sv_conns sv) \<Longrightarrow> cn_stage (sv_conns sv ! i) = Resolved ps addr pp \<Longrightarrow>
    server_step envs ops aops min_buf sv
      (set_stage i (check_resolved min_buf (sv_shared sv) t ps addr pp (sv_conns sv ! i) (sv_store sv)) sv)"
| step_handshake: "i < length (sv_conns sv) \<Longrightarrow> cn_stage (sv_conns sv ! i) = Handshaking ps addr pp \<Longrightarrow>
    server_step envs ops aops min_buf sv
      (set_stage i (finish_handshake min_buf (sv_shared sv) t ok addr pp (sv_conns sv ! i) (sv_store sv)) sv)"
| step_request: "i < length (sv_conns sv) \<Longrightarrow> cn_stage (sv_conns sv ! i) = Serving addr pp limits \<Longrightarrow>
    config_load (sv_shared sv) = Returned ac \<Longrightarrow>
    server_step envs ops aops min_buf sv (begin_request addr pp ac req sv)"
| step_request_next: "j < length (sv_requests sv) \<Longrightarrow> request_open (rk_stage (sv_requests sv ! j)) \<Longrightarrow>
    server_step envs ops aops min_buf sv
      (set_request j (request_next ops aops collect client t (sv_requests sv ! j) (sv_store sv)) sv)"
| step_abandon: "j < length (sv_requests sv) \<Longrightarrow> rk_stage (sv_requests sv ! j) = Looked cached \<Longrightarrow>
    server_step envs ops aops min_buf sv (set_request j (Abandoned, sv_store sv) sv)"
| step_insert: "task \<in> set (sv_tasks sv) \<Longrightarrow> run_insert_task aops now task (sv_store sv) = Some (r, s) \<Longrightarrow>
    server_step envs ops aops min_buf sv (sv\<lparr>sv_store := s, sv_tasks := remove1 task (sv_tasks sv)\<rparr>)"
| step_close: "i < length (sv_conns sv) \<Longrightarrow>
    server_step envs ops aops min_buf sv (set_stage i (Closed, sv_store sv) sv)"

text \<open>The states of a server started from a configuration file.\<close>

inductive server_reachable ::
  "('file, 'cert, 'priv, 'key, 'h, 'b) environment set \<Rightarrow> ('h, 'v) http_ops \<Rightarrow> ('c, 'h) asset_ops \<Rightarrow> nat \<Rightarrow>
   ('key, 'c, 'h, 'b) Server \<Rightarrow> bool"
  for envs ops aops min_buf where
  reach_start: "env \<in> envs \<Longrightarrow> load_config_from_path env path = Inr config \<Longrightarrow>
    server_new env aops config path = Returned (Inr sv) \<Longrightarrow> server_reachable envs ops aops min_buf sv"
| reach_step: "server_reachable envs ops aops min_buf sv \<Longrightarrow> server_step envs ops aops min_buf sv sv' \<Longrightarrow>
    server_reachable envs ops aops min_buf sv'"

section \<open>Invariant\<close>

text \<open>
  A configuration is fit for the store: its references are valid, its manager is the one manager there
  is, and it has a provider if a route demands one.
\<close>

definition config_ok :: "'c Store \<Rightarrow> ('key, 'h, 'b) ActiveConfig \<Rightarrow> bool" where
  "config_ok s ac \<longleftrightarrow>
     refs_ok s ac \<and> ac_security_manager ac = 0 \<and>
     (list_ex rt_auth_required (router_routes (ac_router ac)) \<longrightarrow> ac_auth_provider ac \<noteq> None)"

definition engines_ok :: "('c \<Rightarrow> bool) \<Rightarrow> ('c \<Rightarrow> (string \<times> 'h CachedAsset) list) \<Rightarrow> 'c Store \<Rightarrow> bool" where
  "engines_ok valid entries s \<longleftrightarrow> list_all (\<lambda>e. fits_usize e \<longrightarrow> cache_inv valid entries e) (st_engines s)"

definition server_inv ::
  "('c \<Rightarrow> bool) \<Rightarrow> ('c \<Rightarrow> (string \<times> 'h CachedAsset) list) \<Rightarrow> ('key, 'c, 'h, 'b) Server \<Rightarrow> bool" where
  "server_inv valid entries sv \<longleftrightarrow>
     \<not> sc_poisoned (sv_shared sv) \<and> length (st_managers (sv_store sv)) = 1 \<and>
     config_ok (sv_store sv) (sc_current (sv_shared sv)) \<and>
     list_all (\<lambda>conn. config_ok (sv_store sv) (cn_config conn)) (sv_conns sv) \<and>
     list_all (\<lambda>k. config_ok (sv_store sv) (rk_config k)) (sv_requests sv) \<and>
     list_all (\<lambda>t. it_engine t < length (st_engines (sv_store sv))) (sv_tasks sv) \<and>
     engines_ok valid entries (sv_store sv) \<and>
     sv_generation sv = ac_generation (sc_current (sv_shared sv))"

text \<open>How steps change the store: the managers stay in number, engines are only added.\<close>

definition grows :: "'c Store \<Rightarrow> 'c Store \<Rightarrow> bool" where
  "grows s s' \<longleftrightarrow>
     length (st_managers s') = length (st_managers s) \<and> length (st_engines s) \<le> length (st_engines s')"

lemma grows_refl [simp]: "grows s s"
  by (simp add: grows_def)

lemma grows_trans: "grows s s' \<Longrightarrow> grows s' s'' \<Longrightarrow> grows s s''"
  by (auto simp: grows_def)

lemma grows_config_ok: "grows s s' \<Longrightarrow> config_ok s ac \<Longrightarrow> config_ok s' ac"
  by (cases "ac_cache_engine ac") (auto simp: grows_def config_ok_def refs_ok_def)

lemma with_manager_grows: "with_manager r f s = (x, s') \<Longrightarrow> grows s s' \<and> st_engines s' = st_engines s"
  by (auto simp: with_manager_def grows_def split: prod.splits)

lemma ban_check_grows: "ban_check ac t ip s = (x, s') \<Longrightarrow> grows s s' \<and> st_engines s' = st_engines s"
  by (auto simp: ban_check_def dest!: with_manager_grows split: option.splits)

lemma rate_check_grows: "rate_check ac t ip s = (x, s') \<Longrightarrow> grows s s' \<and> st_engines s' = st_engines s"
  by (auto simp: rate_check_def dest!: with_manager_grows split: option.splits)

lemma engines_ok_update:
  "engines_ok valid entries s \<Longrightarrow> (fits_usize e \<longrightarrow> cache_inv valid entries e) \<Longrightarrow>
   engines_ok valid entries (s\<lparr>st_engines := (st_engines s)[r := e]\<rparr>)"
  by (auto simp: engines_ok_def list_all_iff dest!: set_update_subset_insert [THEN subsetD])

context asset_cache
begin

lemma cache_lookup_ok:
  assumes "cache_lookup ops now engine key s = (x, s')" and "engines_ok valid entries s"
    and "pred_option (\<lambda>r. r < length (st_engines s)) engine"
  shows "grows s s' \<and> engines_ok valid entries s'"
proof (cases engine)
  case None
  then show ?thesis using assms by (simp add: cache_lookup_def)
next
  case (Some r)
  obtain y e where g: "cache_get ops now key (st_engines s ! r) = (y, e)" by fastforce
  have "fits_usize (st_engines s ! r) \<longrightarrow> cache_inv valid entries (st_engines s ! r)"
    using assms(2,3) Some by (simp add: engines_ok_def list_all_length)
  moreover have "fits_usize e \<longleftrightarrow> fits_usize (st_engines s ! r)"
    using g by (auto simp: cache_get_def fits_usize_def Let_def split: prod.splits option.splits if_splits)
  ultimately have "fits_usize e \<longrightarrow> cache_inv valid entries e" using get_spec [OF _ g] by blast
  then show ?thesis
    using engines_ok_update [OF assms(2)] assms(1) Some g by (auto simp: cache_lookup_def grows_def)
qed

lemma run_insert_task_ok:
  assumes "run_insert_task ops now t s = Some (r, s')" and "engines_ok valid entries s"
    and "it_engine t < length (st_engines s)"
  shows "grows s s' \<and> engines_ok valid entries s'"
proof -
  let ?e = "st_engines s ! it_engine t"
  obtain e where i: "cache_insert ops now (it_key t) (it_status t) (it_headers t) (it_body t) None ?e = Some (r, e)"
    and s': "s' = s\<lparr>st_engines := (st_engines s)[it_engine t := e]\<rparr>"
    using assms(1) by (auto simp: run_insert_task_def)
  have "fits_usize e \<longleftrightarrow> fits_usize ?e"
    using i by (auto simp: cache_insert_def store_asset_def fits_usize_def Let_def split: if_splits prod.splits)
  moreover have "fits_usize ?e \<longrightarrow> cache_inv valid entries ?e"
    using assms(2,3) by (simp add: engines_ok_def list_all_length)
  ultimately have "fits_usize e \<longrightarrow> cache_inv valid entries e" using insert_spec [OF _ _ i] by blast
  then show ?thesis using engines_ok_update [OF assms(2)] by (simp add: s' grows_def)
qed

lemma lookup_request_ok:
  assumes "lookup_request hops ops ac t req s = (x, s')" and "engines_ok valid entries s" and "config_ok s ac"
  shows "grows s s' \<and> engines_ok valid entries s'"
  using assms(1,3) unfolding lookup_request_def Let_def
  by (elim cache_lookup_ok [OF _ assms(2)]) (auto simp: cache_engine_of_def config_ok_def refs_ok_def Let_def)

lemma request_next_ok:
  assumes "request_next hops ops collect client t k s = (st, s')"
    and "engines_ok valid entries s" and "config_ok s (rk_config k)"
  shows "grows s s' \<and> engines_ok valid entries s'"
proof (cases "rk_stage k")
  case Arrived
  then show ?thesis
    using assms(1,2) by (auto simp: request_next_def Let_def engines_ok_def dest!: ban_check_grows
        split: prod.splits outcome.splits bool.splits)
next
  case Unbanned
  then show ?thesis
    using assms(1,2) by (auto simp: request_next_def Let_def engines_ok_def dest!: rate_check_grows
        split: prod.splits outcome.splits sum.splits)
next
  case Admitted
  then show ?thesis
    using assms by (auto simp: request_next_def Let_def dest: lookup_request_ok split: prod.splits if_splits)
qed (use assms in \<open>auto simp: request_next_def Let_def\<close>)

end

lemma request_next_answer:
  assumes "request_next ops aops collect client t k s = (Answered (Returned out), s')" and "request_open (rk_stage k)"
    and "hd_sent out \<noteq> None \<or> hd_task out \<noteq> None"
  obtains cached where "out = answer_request ops collect client (rk_config k) (rk_peer k) (rk_client_ip ops k) cached (rk_request k) s"
    "s' = s"
proof (cases "rk_stage k")
  case (Looked cached)
  then show ?thesis using assms(1) by (intro that [of cached]) (auto simp: request_next_def Let_def)
next
  case Arrived
  then show ?thesis
    using assms(1,3) by (auto simp: request_next_def Let_def split: prod.splits outcome.splits bool.splits)
next
  case Unbanned
  then show ?thesis
    using assms(1,3) by (auto simp: request_next_def Let_def split: prod.splits outcome.splits sum.splits)
next
  case Admitted
  then show ?thesis
    using assms(1,3) by (auto simp: request_next_def Let_def split: prod.splits if_splits)
qed (use assms(2) in simp_all)

lemma request_next_spawned:
  assumes "request_next ops aops collect client t k s = (st, s')" and "request_open (rk_stage k)"
    and "config_ok s (rk_config k)" and "task \<in> set (spawned st)"
  shows "it_engine task < length (st_engines s)"
proof -
  obtain out where st: "st = Answered (Returned out)" and task: "hd_task out = Some task"
    using assms(4) by (cases st rule: spawned.cases) (auto split: option.splits)
  obtain cached where o: "out = answer_request ops collect client (rk_config k) (rk_peer k) (rk_client_ip ops k) cached (rk_request k) s"
    using task by (rule_tac request_next_answer [OF assms(1) [unfolded st] assms(2)]) auto
  have "ac_cache_engine (rk_config k) = Some (it_engine task)"
    by (rule answer_request_task [OF task [unfolded o]]) (auto simp: cache_engine_of_def Let_def split: if_splits)
  then show ?thesis using assms(3) by (simp add: config_ok_def refs_ok_def)
qed

lemma built_provider:
  assumes "build_active_config env aops config generation sm s = (Returned (Inr ac), s')"
    and "pred_option (\<lambda>r. r < length (st_managers s)) sm" and "config_wf config"
  shows "list_ex rt_auth_required (router_routes (ac_router ac)) \<longrightarrow> ac_auth_provider ac \<noteq> None"
  using assms(3) build_active_config_spec(2,5) [OF assms(1,2)] by (auto simp: config_wf_def)

lemma build_active_config_managers:
  "build_active_config env aops config generation (Some m) s = (r, s') \<Longrightarrow> st_managers s' = st_managers s"
  by (auto simp: build_active_config_def dest!: build_cache_engine_spec
      split: sum.splits outcome.splits prod.splits)

lemma build_active_config_new_manager:
  "build_active_config env aops config generation None s = (Returned (Inr ac), s') \<Longrightarrow>
   ac_security_manager ac = length (st_managers s) \<and> length (st_managers s') = Suc (length (st_managers s))"
  by (auto simp: build_active_config_def alloc_manager_def Let_def dest!: build_cache_engine_spec
      split: sum.splits outcome.splits prod.splits)

lemma load_active_config_managers:
  "load_active_config_from_path env aops path port workers generation (Some m) s = (r, s') \<Longrightarrow> st_managers s' = st_managers s"
  by (auto simp: load_active_config_from_path_def build_active_config_managers split: sum.splits if_splits)

context asset_cache
begin

lemma build_active_config_engines:
  "build_active_config env ops config generation sm s = (r, s') \<Longrightarrow> engines_ok valid entries s \<Longrightarrow> engines_ok valid entries s'"
  by (auto simp: build_active_config_def alloc_manager_def build_cache_engine_def alloc_engine_def engines_ok_def new_inv Let_def
      split: sum.splits option.splits outcome.splits if_splits)

lemma load_active_config_engines:
  "load_active_config_from_path env ops path port workers generation sm s = (r, s') \<Longrightarrow> engines_ok valid entries s \<Longrightarrow>
   engines_ok valid entries s'"
  by (auto simp: load_active_config_from_path_def build_active_config_engines split: sum.splits if_splits)

lemma server_new_inv:
  assumes "load_config_from_path env path = Inr config" and "server_new env ops config path = Returned (Inr sv)"
    and "pred_option (\<lambda>n. 1 \<le> n \<and> n \<le> usize_max) (env_parallelism env)"
  shows "server_inv valid entries sv"
proof -
  let ?s = "\<lparr>st_managers = [], st_engines = []\<rparr>"
  obtain ac s log where b: "build_active_config env ops config 0 None ?s = (Returned (Inr ac), s)"
    and sv: "sv = \<lparr>sv_port = cfg_listen_port config, sv_config_path = path, sv_shared = create_config_store ac,
      sv_workers = cfg_workers config, sv_store = s, sv_log = log, sv_generation = 0, sv_reloading = True, sv_conns = [], sv_requests = [], sv_tasks = []\<rparr>"
    using assms(2) by (auto simp: server_new_def split: prod.splits outcome.splits sum.splits)
  have "config_wf config" using load_config_parses [OF assms(1)] parsed_config_wf [OF _ assms(3)] by blast
  then have "config_ok s ac"
    using build_active_config_spec(8) [OF b] built_provider [OF b] build_active_config_new_manager [OF b] by (simp add: config_ok_def)
  moreover have "engines_ok valid entries s" using build_active_config_engines [OF b] by (simp add: engines_ok_def)
  ultimately show ?thesis
    using build_active_config_new_manager [OF b] build_active_config_spec(1) [OF b]
    by (simp add: server_inv_def sv create_config_store_def)
qed

lemma reload_inv:
  assumes "server_inv valid entries sv" and "pred_option (\<lambda>n. 1 \<le> n \<and> n \<le> usize_max) (env_parallelism env)"
  shows "server_inv valid entries (reload env ops sv)"
proof -
  obtain r s where l: "load_active_config_from_path env ops (sv_config_path sv) (sv_port sv) (sv_workers sv)
      (usize_add (sv_generation sv) 1) (Some (ac_security_manager (sc_current (sv_shared sv)))) (sv_store sv) = (r, s)"
    by fastforce
  have np: "\<not> sc_poisoned (sv_shared sv)" and m: "ac_security_manager (sc_current (sv_shared sv)) = 0"
    using assms(1) by (simp_all add: server_inv_def config_ok_def)
  have g: "grows (sv_store sv) s" "st_managers s = st_managers (sv_store sv)" "engines_ok valid entries s"
    using load_active_config_extends [OF l] load_active_config_managers [OF l] load_active_config_engines [OF l] assms(1)
    by (auto simp: grows_def server_inv_def dest!: extends_lengths)
  then have keep: "server_inv valid entries (sv\<lparr>sv_store := s, sv_reloading := b\<rparr>)" for b
    using assms(1) grows_config_ok [OF g(1)] by (auto simp: server_inv_def list_all_iff grows_def)
  have new: "config_ok s ac \<and> ac_generation ac = usize_add (sv_generation sv) 1" if r: "r = Returned (Inr ac)" for ac
  proof -
    obtain config where c: "load_config_from_path env (sv_config_path sv) = Inr config"
      "build_active_config env ops config (usize_add (sv_generation sv) 1) (Some 0) (sv_store sv) = (Returned (Inr ac), s)"
      using l unfolding r m by (rule load_active_config_loaded)
    have p: "pred_option (\<lambda>r. r < length (st_managers (sv_store sv))) (Some 0)" using assms(1) by (simp add: server_inv_def)
    have "config_wf config" using load_config_parses [OF c(1)] parsed_config_wf [OF _ assms(2)] by blast
    then show ?thesis
      using build_active_config_spec(1,7,8) [OF c(2) p] built_provider [OF c(2) p] by (simp add: config_ok_def)
  qed
  have eq: "reload env ops sv = (case r of
      Panicked \<Rightarrow> sv\<lparr>sv_store := s, sv_reloading := False\<rparr>
    | Returned (Inl _) \<Rightarrow> sv\<lparr>sv_store := s\<rparr>
    | Returned (Inr ac) \<Rightarrow> (case update_log_file (env_open_log env) (ac_logfile ac) (sv_log sv) of
          Panicked \<Rightarrow> sv\<lparr>sv_store := s, sv_reloading := False\<rparr>
        | Returned log \<Rightarrow> sv\<lparr>sv_store := s, sv_log := log, sv_generation := ac_generation ac,
            sv_shared := (sv_shared sv)\<lparr>sc_current := ac\<rparr>\<rparr>))"
    using np by (simp add: reload_def config_load_def config_store_def l [unfolded One_nat_def] split: outcome.splits sum.splits)
  have "server_inv valid entries (sv\<lparr>sv_store := s, sv_log := log, sv_generation := ac_generation ac,
      sv_shared := (sv_shared sv)\<lparr>sc_current := ac\<rparr>\<rparr>)" if "r = Returned (Inr ac)" for ac log
    using keep [of "sv_reloading sv"] new [OF that] by (simp add: server_inv_def)
  then show ?thesis
    unfolding eq using keep [of False] keep [of "sv_reloading sv"] by (simp split: outcome.splits sum.splits)
qed

end

lemma conn_steps_grow:
  "grows s (snd (check_peer t stream conn s)) \<and> st_engines (snd (check_peer t stream conn s)) = st_engines s"
  "grows s (snd (check_resolved min_buf shared t ps addr pp conn s)) \<and>
   st_engines (snd (check_resolved min_buf shared t ps addr pp conn s)) = st_engines s"
  "grows s (snd (finish_handshake min_buf shared t ok addr pp conn s)) \<and>
   st_engines (snd (finish_handshake min_buf shared t ok addr pp conn s)) = st_engines s"
  by (auto simp: check_peer_def check_resolved_def finish_handshake_def dest!: with_manager_grows
      split: prod.splits outcome.splits bool.splits option.splits)

text \<open>The invariant when the store grows, the engines stay well-formed and connections keep their configuration.\<close>

lemma server_inv_store:
  assumes "server_inv valid entries sv" and "grows (sv_store sv) s" and "engines_ok valid entries s"
    and "list_all (\<lambda>conn. config_ok (sv_store sv) (cn_config conn)) conns"
    and "list_all (\<lambda>k. config_ok (sv_store sv) (rk_config k)) requests"
    and "list_all (\<lambda>t. it_engine t < length (st_engines s)) tasks"
  shows "server_inv valid entries (sv\<lparr>sv_store := s, sv_conns := conns, sv_requests := requests, sv_tasks := tasks\<rparr>)"
  using assms grows_config_ok [OF assms(2)] by (auto simp: server_inv_def list_all_iff grows_def)

lemma server_inv_configs:
  assumes "server_inv valid entries sv"
  shows "list_all (\<lambda>conn. config_ok (sv_store sv) (cn_config conn)) (sv_conns sv)"
    and "list_all (\<lambda>k. config_ok (sv_store sv) (rk_config k)) (sv_requests sv)"
    and "engines_ok valid entries (sv_store sv)"
  using assms by (simp_all add: server_inv_def)

lemma server_inv_tasks:
  "server_inv valid entries sv \<Longrightarrow> grows (sv_store sv) s \<Longrightarrow> set ts \<subseteq> set (sv_tasks sv) \<Longrightarrow>
   list_all (\<lambda>t. it_engine t < length (st_engines s)) ts"
  by (fastforce simp: server_inv_def list_all_iff grows_def)

lemma set_stage_inv:
  assumes "server_inv valid entries sv" and "grows (sv_store sv) (snd r) \<and> st_engines (snd r) = st_engines (sv_store sv)"
  shows "server_inv valid entries (set_stage i r sv)"
proof -
  note c = server_inv_configs [OF assms(1)]
  have "list_all (\<lambda>conn. config_ok (sv_store sv) (cn_config conn)) ((sv_conns sv)[i := (sv_conns sv ! i)\<lparr>cn_stage := fst r\<rparr>])"
    using c(1) by (cases "i < length (sv_conns sv)") (auto simp: list_all_length nth_list_update)
  from server_inv_store [OF assms(1) _ _ this c(2) server_inv_tasks [OF assms(1) _ subset_refl]] assms(2) c(3)
  show ?thesis by (simp add: set_stage_def engines_ok_def)
qed

lemma set_request_inv:
  assumes "server_inv valid entries sv" and "grows (sv_store sv) (snd r) \<and> engines_ok valid entries (snd r)"
    and "\<And>task. task \<in> set (spawned (fst r)) \<Longrightarrow> it_engine task < length (st_engines (sv_store sv))"
  shows "server_inv valid entries (set_request j r sv)"
proof -
  note c = server_inv_configs [OF assms(1)]
  have k: "list_all (\<lambda>k. config_ok (sv_store sv) (rk_config k)) ((sv_requests sv)[j := (sv_requests sv ! j)\<lparr>rk_stage := fst r\<rparr>])"
    using c(2) by (cases "j < length (sv_requests sv)") (auto simp: list_all_length nth_list_update)
  have "list_all (\<lambda>t. it_engine t < length (st_engines (snd r))) (sv_tasks sv @ spawned (fst r))"
    using server_inv_tasks [OF assms(1) _ subset_refl] assms(2,3) by (fastforce simp: list_all_iff grows_def)
  from server_inv_store [OF assms(1) _ _ c(1) k this] assms(2) show ?thesis by (simp add: set_request_def)
qed

context asset_cache
begin

lemma server_step_inv:
  assumes "server_step envs hops ops min_buf sv sv'" and "server_inv valid entries sv"
    and "\<And>env. env \<in> envs \<Longrightarrow> pred_option (\<lambda>n. 1 \<le> n \<and> n \<le> usize_max) (env_parallelism env)"
  shows "server_inv valid entries sv'"
  using assms(1)
proof cases
  case (step_reload env)
  then show ?thesis using reload_inv [OF assms(2) assms(3) [OF step_reload(2)]] by simp
next
  case (step_accept ac peer stream)
  then show ?thesis using assms(2) by (auto simp: accept_connection_def server_inv_def config_load_def)
next
  case (step_check_peer i stream t)
  then show ?thesis using set_stage_inv [OF assms(2) conn_steps_grow(1)] by simp
next
  case (step_check_resolved i ps addr pp t)
  then show ?thesis using set_stage_inv [OF assms(2) conn_steps_grow(2)] by simp
next
  case (step_handshake i ps addr pp t ok)
  then show ?thesis using set_stage_inv [OF assms(2) conn_steps_grow(3)] by simp
next
  case (step_request i addr pp limits ac req)
  then show ?thesis using assms(2) by (auto simp: begin_request_def server_inv_def config_load_def split: if_splits)
next
  case (step_request_next j collect client t)
  have c: "config_ok (sv_store sv) (rk_config (sv_requests sv ! j))"
    using server_inv_configs(2) [OF assms(2)] step_request_next(2) by (simp add: list_all_length)
  obtain st s where n: "request_next hops ops collect client t (sv_requests sv ! j) (sv_store sv) = (st, s)" by fastforce
  show ?thesis
    unfolding step_request_next(1) n
    using request_next_ok [OF n server_inv_configs(3) [OF assms(2)] c] request_next_spawned [OF n step_request_next(3) c]
    by (intro set_request_inv [OF assms(2)]) auto
next
  case (step_abandon j cached)
  then show ?thesis
    using set_request_inv [OF assms(2), of "(Abandoned, sv_store sv)"] server_inv_configs(3) [OF assms(2)] by simp
next
  case (step_insert task now r s)
  note c = server_inv_configs [OF assms(2)]
  have "it_engine task < length (st_engines (sv_store sv))"
    using assms(2) step_insert(2) by (auto simp: server_inv_def list_all_iff)
  note I = run_insert_task_ok [OF step_insert(3) c(3) this]
  have "set (remove1 task (sv_tasks sv)) \<subseteq> set (sv_tasks sv)" by (rule set_remove1_subset)
  from server_inv_store [OF assms(2) _ _ c(1,2) server_inv_tasks [OF assms(2) _ this]] I show ?thesis
    by (simp add: step_insert(1))
next
  case (step_close i)
  then show ?thesis using set_stage_inv [OF assms(2)] by simp
qed

end

context asset_cache
begin

lemma reachable_inv:
  assumes "server_reachable envs hops ops min_buf sv"
    and "\<And>env. env \<in> envs \<Longrightarrow> pred_option (\<lambda>n. 1 \<le> n \<and> n \<le> usize_max) (env_parallelism env)"
  shows "server_inv valid entries sv"
  using assms(1)
proof induction
  case (reach_start env path config sv)
  then show ?case using server_new_inv assms(2) by blast
next
  case (reach_step sv sv')
  then show ?case using server_step_inv assms(2) by blast
qed

end

text \<open>How far a connection is from being served or closed.\<close>

fun stage_rank :: "stage \<Rightarrow> nat" where
  "stage_rank (Accepted stream) = 3"
| "stage_rank (Resolved ps addr pp) = 2"
| "stage_rank (Handshaking ps addr pp) = 1"
| "stage_rank (Serving addr pp limits) = 0"
| "stage_rank Closed = 0"

lemma serve_rank [simp]: "stage_rank (stage_of (serve_connection min_buf shared addr pp)) = 0"
  by (simp add: stage_of_def serve_connection_def Let_def split: outcome.splits)

lemma resolve_peer_rank: "stage_rank (resolve_peer stream peer sec) < 3"
  by (simp add: resolve_peer_def split: option.splits outcome.splits sum.splits prod.splits)

lemma conn_steps_rank:
  "stage_rank (fst (check_peer t stream conn s)) < 3"
  "stage_rank (fst (check_resolved min_buf shared t ps addr pp conn s)) < 2"
  "stage_rank (fst (finish_handshake min_buf shared t ok addr pp conn s)) < 1"
  using resolve_peer_rank
  by (auto simp: check_peer_def check_resolved_def finish_handshake_def
      split: prod.splits outcome.splits bool.splits option.splits)

lemma set_stage_conns [simp]:
  "length (sv_conns (set_stage i r sv)) = length (sv_conns sv)"
  "i < length (sv_conns sv) \<Longrightarrow> cn_stage (sv_conns (set_stage i r sv) ! i) = fst r"
  "j \<noteq> i \<Longrightarrow> sv_conns (set_stage i r sv) ! j = sv_conns sv ! j"
  by (simp_all add: set_stage_def)

lemma set_stage_rank:
  "stage_rank (fst r) \<le> stage_rank (cn_stage (sv_conns sv ! j)) \<Longrightarrow> i < length (sv_conns sv) \<Longrightarrow>
   stage_rank (cn_stage (sv_conns (set_stage j r sv) ! i)) \<le> stage_rank (cn_stage (sv_conns sv ! i))"
  by (cases "i = j") simp_all

lemma reload_conns [simp]: "sv_conns (reload env aops sv) = sv_conns sv" "sv_requests (reload env aops sv) = sv_requests sv"
  by (simp_all add: reload_def split: outcome.splits sum.splits prod.splits)

lemma server_step_rank:
  assumes "server_step envs ops aops min_buf sv sv'" and "i < length (sv_conns sv)"
  shows "i < length (sv_conns sv') \<and> stage_rank (cn_stage (sv_conns sv' ! i)) \<le> stage_rank (cn_stage (sv_conns sv ! i))"
  using assms(1)
proof cases
  case (step_check_peer j stream t)
  then show ?thesis
    using assms(2) conn_steps_rank(1) [of t stream "sv_conns sv ! j" "sv_store sv"] by (simp add: set_stage_rank)
next
  case (step_check_resolved j ps addr pp t)
  then show ?thesis
    using assms(2) conn_steps_rank(2) [of min_buf "sv_shared sv" t ps addr pp "sv_conns sv ! j" "sv_store sv"]
    by (simp add: set_stage_rank)
next
  case (step_handshake j ps addr pp t ok)
  then show ?thesis
    using assms(2) conn_steps_rank(3) [of min_buf "sv_shared sv" t ok addr pp "sv_conns sv ! j" "sv_store sv"]
    by (simp add: set_stage_rank)
next
  case (step_close j)
  then show ?thesis using assms(2) by (simp add: set_stage_rank)
qed (use assms(2) in \<open>simp_all add: accept_connection_def begin_request_def set_request_def nth_append\<close>)

section \<open>Requests, one piece after the other\<close>

lemma set_request_twice:
  "spawned (fst r) = [] \<Longrightarrow> set_request j r' (set_request j r sv) = set_request j r' sv" if "j < length (sv_requests sv)"
  using that by (simp add: set_request_def)

lemma set_request_simps [simp]:
  "sv_store (set_request j r sv) = snd r" "length (sv_requests (set_request j r sv)) = length (sv_requests sv)"
  "j < length (sv_requests sv) \<Longrightarrow> sv_requests (set_request j r sv) ! j = (sv_requests sv ! j)\<lparr>rk_stage := fst r\<rparr>"
  by (simp_all add: set_request_def)

text \<open>One more piece of a request that has already come to some stage.\<close>

lemma request_piece:
  assumes "(server_step envs ops aops min_buf)\<^sup>*\<^sup>* sv (set_request j (st, s) sv)" and "j < length (sv_requests sv)"
    and "request_open st" and "request_next ops aops collect client t ((sv_requests sv ! j)\<lparr>rk_stage := st\<rparr>) s = r"
  shows "(server_step envs ops aops min_buf)\<^sup>*\<^sup>* sv (set_request j r sv)"
proof -
  have "spawned st = []" using assms(3) by (cases st) simp_all
  then have "server_step envs ops aops min_buf (set_request j (st, s) sv) (set_request j r sv)"
    using step_request_next [of j "set_request j (st, s) sv" envs ops aops min_buf collect client t] assms(2-4)
    by (simp add: set_request_twice)
  with assms(1) show ?thesis by simp
qed

text \<open>The pieces of a request at the clock readings of a list. An answered request stays as it is.\<close>

fun request_run ::
  "('h, 'v) http_ops \<Rightarrow> ('c, 'h) asset_ops \<Rightarrow> ('b Body \<Rightarrow> Bytes option) \<Rightarrow> ('h, 'b) HttpClient \<Rightarrow>
   ('key, 'h, 'b) request_task \<Rightarrow> Instant list \<Rightarrow> ('h, 'b) request_stage \<times> 'c Store \<Rightarrow> ('h, 'b) request_stage \<times> 'c Store" where
  "request_run ops aops collect client k [] r = r"
| "request_run ops aops collect client k (t # ts) r =
     request_run ops aops collect client k ts (request_next ops aops collect client t (k\<lparr>rk_stage := fst r\<rparr>) (snd r))"

lemma request_next_settled: "\<not> request_open st \<Longrightarrow> request_next ops aops collect client t (k\<lparr>rk_stage := st\<rparr>) s = (st, s)"
  by (cases st) (simp_all add: request_next_def)

lemma request_run_steps:
  assumes "j < length (sv_requests sv)" and "(server_step envs ops aops min_buf)\<^sup>*\<^sup>* sv (set_request j r sv)"
  shows "(server_step envs ops aops min_buf)\<^sup>*\<^sup>* sv
    (set_request j (request_run ops aops collect client (sv_requests sv ! j) ts r) sv)"
  using assms(2)
proof (induction ts arbitrary: r)
  case (Cons t ts)
  have "(server_step envs ops aops min_buf)\<^sup>*\<^sup>* sv
      (set_request j (request_next ops aops collect client t ((sv_requests sv ! j)\<lparr>rk_stage := fst r\<rparr>) (snd r)) sv)"
  proof (cases "request_open (fst r)")
    case True
    then show ?thesis using request_piece [of envs ops aops min_buf sv j "fst r" "snd r"] Cons.prems assms(1) by simp
  next
    case False
    then show ?thesis using Cons.prems by (simp add: request_next_settled)
  qed
  then show ?case by (simp add: Cons.IH)
qed simp

lemma request_run_handle:
  "request_run ops aops collect client k [t1, t2, t3, t4] (Arrived, s) =
   map_prod Answered id
     (handle_request ops aops collect client (rk_config k) (rk_peer k) (rk_proxied k) t1 t2 t3 (rk_request k) s)"
proof -
  let ?ip = "client_ip_of ops (rk_proxied k) (rk_peer k) (rq_headers (rk_request k))"
  obtain b s1 where b: "ban_check (rk_config k) t1 ?ip s = (b, s1)" by fastforce
  obtain x s2 where x: "rate_check (rk_config k) t2 ?ip s1 = (x, s2)" by fastforce
  obtain cached s3 where l: "lookup_request ops aops (rk_config k) t3 (rk_request k) s2 = (cached, s3)" by fastforce
  have settled: "request_next ops aops collect client t (k\<lparr>rk_stage := Answered r\<rparr>) s = (Answered r, s)" for t r s
    by (simp add: request_next_settled)
  have first: "request_next ops aops collect client t1 (k\<lparr>rk_stage := Arrived\<rparr>) s =
      (case b of Panicked \<Rightarrow> Answered Panicked | Returned True \<Rightarrow> Answered (Returned (respond (no_response_444 ops)))
       | Returned False \<Rightarrow> Unbanned, s1)"
    by (simp add: request_next_def rk_client_ip_def b split: outcome.splits bool.splits)
  have second: "request_next ops aops collect client t2 (k\<lparr>rk_stage := Unbanned\<rparr>) s1 =
      (case x of Panicked \<Rightarrow> Answered Panicked
       | Returned (Inl n) \<Rightarrow> Answered (Returned (respond (rate_limited_response ops ?ip
           (request_host ops (rq_uri (rk_request k)) (rq_headers (rk_request k))) (rq_headers (rk_request k)))))
       | Returned (Inr n) \<Rightarrow> Admitted, s2)"
    by (simp add: request_next_def rk_client_ip_def x Let_def split: outcome.splits sum.splits)
  show ?thesis
    by (auto simp: first second settled handle_request_def security_gate_def serve_request_def Let_def b x l
        request_next_def [of _ _ _ _ _ "k\<lparr>rk_stage := Admitted\<rparr>"] request_next_def [of _ _ _ _ _ "k\<lparr>rk_stage := Looked _\<rparr>"]
        rk_client_ip_def split: outcome.splits bool.splits sum.splits)
qed

lemma arrived_run_steps:
  assumes "j < length (sv_requests sv)" and "rk_stage (sv_requests sv ! j) = Arrived"
  shows "(server_step envs ops aops min_buf)\<^sup>*\<^sup>* sv
    (set_request j (request_run ops aops collect client (sv_requests sv ! j) ts (Arrived, sv_store sv)) sv)"
proof -
  have "(sv_requests sv ! j)\<lparr>rk_stage := Arrived\<rparr> = sv_requests sv ! j" using assms(2) by (cases "sv_requests sv ! j") simp
  then have "set_request j (Arrived, sv_store sv) sv = sv"
    using assms(1) by (simp add: set_request_def list_update_same_conv)
  then show ?thesis by (intro request_run_steps [OF assms(1)]) simp
qed

lemma arrived_request_steps:
  assumes "j < length (sv_requests sv)" and "sv_requests sv ! j = k" and "rk_stage k = Arrived"
    and "handle_request ops aops collect client (rk_config k) (rk_peer k) (rk_proxied k) t1 t2 t3 (rk_request k) (sv_store sv) = (r, s)"
  shows "(server_step envs ops aops min_buf)\<^sup>*\<^sup>* sv (set_request j (Answered r, s) sv)"
  using arrived_run_steps [of j sv envs ops aops min_buf collect client "[t1, t2, t3, t3]"] assms(1-3)
  by (simp only: request_run_handle assms(2,4)) simp

text \<open>What was sent upstream for a request was authorized, in every reachable state.\<close>

definition sent_authorized :: "('h, 'v) http_ops \<Rightarrow> ('key, 'h, 'b) request_task \<Rightarrow> bool" where
  "sent_authorized ops k \<longleftrightarrow>
     (\<forall>out fwd. rk_stage k = Answered (Returned out) \<longrightarrow> hd_sent out = Some fwd \<longrightarrow>
        (\<exists>m granted.
           match_route (ac_router (rk_config k)) (request_host ops (rq_uri (rk_request k)) (rq_headers (rk_request k)))
             (uri_path (rq_uri (rk_request k))) = Some m \<and>
           authorize ops (rk_config k) (rk_peer k) (rk_client_ip ops k)
             (request_host ops (rq_uri (rk_request k)) (rq_headers (rk_request k))) m (rk_request k) = Inr granted \<and>
           forward_request ops (max_body_size_of (rk_config k)) (rk_client_ip ops k) m granted (rk_request k) = Inr fwd))"

lemma rk_client_ip_stage [simp]: "rk_client_ip ops (k\<lparr>rk_stage := st\<rparr>) = rk_client_ip ops k"
  by (simp add: rk_client_ip_def)

lemma request_next_authorized:
  assumes "request_next ops aops collect client t k s = (st, s')" and "request_open (rk_stage k)"
  shows "sent_authorized ops (k\<lparr>rk_stage := st\<rparr>)"
  unfolding sent_authorized_def
proof (intro allI impI)
  fix out fwd
  assume st: "rk_stage (k\<lparr>rk_stage := st\<rparr>) = Answered (Returned out)" and fwd: "hd_sent out = Some fwd"
  obtain cached where o: "out = answer_request ops collect client (rk_config k) (rk_peer k) (rk_client_ip ops k) cached (rk_request k) s"
    using st fwd assms by (rule_tac request_next_answer [of ops aops collect client t k s out s']) auto
  show "\<exists>m granted.
      match_route (ac_router (rk_config (k\<lparr>rk_stage := st\<rparr>)))
        (request_host ops (rq_uri (rk_request (k\<lparr>rk_stage := st\<rparr>))) (rq_headers (rk_request (k\<lparr>rk_stage := st\<rparr>))))
        (uri_path (rq_uri (rk_request (k\<lparr>rk_stage := st\<rparr>)))) = Some m \<and>
      authorize ops (rk_config (k\<lparr>rk_stage := st\<rparr>)) (rk_peer (k\<lparr>rk_stage := st\<rparr>)) (rk_client_ip ops (k\<lparr>rk_stage := st\<rparr>))
        (request_host ops (rq_uri (rk_request (k\<lparr>rk_stage := st\<rparr>))) (rq_headers (rk_request (k\<lparr>rk_stage := st\<rparr>)))) m
        (rk_request (k\<lparr>rk_stage := st\<rparr>)) = Inr granted \<and>
      forward_request ops (max_body_size_of (rk_config (k\<lparr>rk_stage := st\<rparr>))) (rk_client_ip ops (k\<lparr>rk_stage := st\<rparr>)) m granted
        (rk_request (k\<lparr>rk_stage := st\<rparr>)) = Inr fwd"
    by (rule answer_request_sent [OF fwd [unfolded o]]) auto
qed

text \<open>What holds of requests that arrive or are dropped and of the result of every piece holds of all requests.\<close>

lemma server_step_requests:
  assumes "server_step envs ops aops min_buf sv sv'" and "list_all Q (sv_requests sv)"
    and "\<And>k. rk_stage k = Arrived \<Longrightarrow> Q k" and "\<And>k. rk_stage k = Abandoned \<Longrightarrow> Q k"
    and "\<And>collect client t k s st s'. request_next ops aops collect client t k s = (st, s') \<Longrightarrow> request_open (rk_stage k) \<Longrightarrow>
      Q (k\<lparr>rk_stage := st\<rparr>)"
  shows "list_all Q (sv_requests sv')"
  using assms(1)
proof cases
  case (step_request i addr pp limits ac req)
  then show ?thesis using assms(2,3) by (simp add: begin_request_def)
next
  case (step_request_next j collect client t)
  obtain st s where n: "request_next ops aops collect client t (sv_requests sv ! j) (sv_store sv) = (st, s)" by fastforce
  show ?thesis
    using assms(2) assms(5) [OF n step_request_next(3)] step_request_next(2)
    unfolding step_request_next(1) n by (auto simp: set_request_def list_all_length nth_list_update)
next
  case (step_abandon j cached)
  then show ?thesis
    using assms(2,4) by (auto simp: set_request_def list_all_length nth_list_update)
qed (use assms(2) in \<open>simp_all add: accept_connection_def set_stage_def\<close>)

lemma reachable_requests:
  assumes "server_reachable envs ops aops min_buf sv"
    and "\<And>k. rk_stage k = Arrived \<Longrightarrow> Q k" and "\<And>k. rk_stage k = Abandoned \<Longrightarrow> Q k"
    and "\<And>collect client t k s st s'. request_next ops aops collect client t k s = (st, s') \<Longrightarrow> request_open (rk_stage k) \<Longrightarrow>
      Q (k\<lparr>rk_stage := st\<rparr>)"
  shows "list_all Q (sv_requests sv)"
  using assms(1)
proof induction
  case (reach_start env path config sv)
  then show ?case by (auto simp: server_new_def split: prod.splits outcome.splits sum.splits)
next
  case (reach_step sv sv')
  show ?case by (rule server_step_requests [OF reach_step(2,3)]) (fact assms(2-4))+
qed

lemma reachable_authorized:
  assumes "server_reachable envs ops aops min_buf sv"
  shows "list_all (sent_authorized ops) (sv_requests sv)"
proof (rule reachable_requests [OF assms])
  show "sent_authorized ops (k\<lparr>rk_stage := st\<rparr>)"
    if "request_next ops aops collect client t k s = (st, s')" "request_open (rk_stage k)" for collect client t k s st s'
    using that by (rule request_next_authorized)
qed (simp_all add: sent_authorized_def)

text \<open>How many pieces of a request are left.\<close>

fun request_rank :: "('h, 'b) request_stage \<Rightarrow> nat" where
  "request_rank Arrived = 4"
| "request_rank Unbanned = 3"
| "request_rank Admitted = 2"
| "request_rank (Looked cached) = 1"
| "request_rank (Answered r) = 0"
| "request_rank Abandoned = 0"

lemma request_rank_open: "request_rank st = 0 \<longleftrightarrow> \<not> request_open st"
  by (cases st) simp_all

lemma request_next_rank:
  assumes "request_open (rk_stage k)"
  shows "request_rank (fst (request_next ops aops collect client t k s)) < request_rank (rk_stage k)"
  using assms
  by (cases "rk_stage k") (auto simp: request_next_def Let_def split: prod.splits outcome.splits bool.splits sum.splits)

lemma set_request_rank:
  "request_rank (fst r) \<le> request_rank (rk_stage (sv_requests sv ! j)) \<Longrightarrow> i < length (sv_requests sv) \<Longrightarrow>
   request_rank (rk_stage (sv_requests (set_request j r sv) ! i)) \<le> request_rank (rk_stage (sv_requests sv ! i))"
  by (cases "i = j") (simp_all add: set_request_def)

lemma server_step_request_rank:
  assumes "server_step envs ops aops min_buf sv sv'" and "i < length (sv_requests sv)"
  shows "i < length (sv_requests sv') \<and> request_rank (rk_stage (sv_requests sv' ! i)) \<le> request_rank (rk_stage (sv_requests sv ! i))"
  using assms(1)
proof cases
  case (step_request_next j collect client t)
  then show ?thesis
    using assms(2) request_next_rank [OF step_request_next(3), of ops aops collect client t "sv_store sv"]
    by (simp add: set_request_rank)
next
  case (step_abandon j cached)
  then show ?thesis using assms(2) by (simp add: set_request_rank)
qed (use assms(2) in \<open>simp_all add: accept_connection_def begin_request_def set_stage_def nth_append\<close>)

text \<open>A step may move a request on; its configuration and what it asks for stay.\<close>

lemma server_step_request_kept:
  assumes "server_step envs ops aops min_buf sv sv'" and "i < length (sv_requests sv)"
  shows "sv_requests sv' ! i = (sv_requests sv ! i)\<lparr>rk_stage := rk_stage (sv_requests sv' ! i)\<rparr>"
  using assms(1)
proof cases
  case (step_request_next j collect client t)
  then show ?thesis by (cases "i = j") (simp_all add: set_request_def)
next
  case (step_abandon j cached)
  then show ?thesis by (cases "i = j") (simp_all add: set_request_def)
next
  case (step_reload env)
  then show ?thesis by (simp add: reload_def split: outcome.splits sum.splits prod.splits)
qed (use assms(2) in \<open>simp_all add: accept_connection_def begin_request_def set_stage_def nth_append\<close>)

lemma request_rank_bound: "request_rank st \<le> 4"
  by (cases st) simp_all

lemma request_run_rank:
  "request_rank (fst (request_run ops aops collect client k ts r)) \<le> request_rank (fst r) - length ts"
proof (induction ts arbitrary: r)
  case (Cons t ts)
  let ?r = "request_next ops aops collect client t (k\<lparr>rk_stage := fst r\<rparr>) (snd r)"
  have "request_rank (fst ?r) \<le> request_rank (fst r) - 1"
  proof (cases "request_open (fst r)")
    case True
    then show ?thesis using request_next_rank [of "k\<lparr>rk_stage := fst r\<rparr>" ops aops collect client t "snd r"] by simp
  next
    case False
    then show ?thesis using request_rank_open [of "fst r"] by (simp add: request_next_settled)
  qed
  then show ?case using Cons [of ?r] by simp
qed simp

section \<open>Properties\<close>

text \<open>
  C15: in every state the server can reach, through any interleaving of connections, requests, cache
  insertions and reloads, every reference of every configuration in use and of every pending
  insertion is valid, there is one security manager, shared by all configurations, every
  configuration with a protected route has a provider, the configuration's lock is not poisoned, the
  reload thread's generation is that of the configuration, and every cache whose doubled capacity
  fits \<open>usize\<close> satisfies the invariant of the cache.
\<close>

theorem server_reachable_inv:
  assumes "asset_cache aops valid entries capacity"
    and "\<forall>env\<in>envs. pred_option (\<lambda>n. 1 \<le> n \<and> n \<le> usize_max) (env_parallelism env)"
    and "server_reachable envs ops aops min_buf sv"
  shows "server_inv valid entries sv"
  using asset_cache.reachable_inv [OF assms(1,3)] assms(2) by blast



text \<open>
  C1: at any time, whatever was interleaved with it, an answered request for a route that demands
  authentication was sent upstream only if the provider of the configuration it was taken under granted it,
  and then with the headers the provider granted.
\<close>

theorem served_requests_authenticated:
  fixes k :: "('key, 'h, 'b) request_task"
  assumes "http_crate ops vals" and "server_reachable envs ops aops min_buf sv" and "k \<in> set (sv_requests sv)"
    and "rk_stage k = Answered (Returned out)" and "hd_sent out = Some fwd"
    and "match_route (ac_router (rk_config k)) (request_host ops (rq_uri (rk_request k)) (rq_headers (rk_request k)))
      (uri_path (rq_uri (rk_request k))) = Some m"
    and "mr_auth_required m"
  shows "\<exists>provider granted. ac_auth_provider (rk_config k) = Some provider \<and>
    authenticate ops provider (socket_addr_to_string (rk_peer k)) (rk_client_ip ops k) (rq_method (rk_request k))
      (rq_uri (rk_request k)) (rq_headers (rk_request k)) = Inr (Success granted) \<and>
    (\<forall>h. vals granted h \<noteq> [] \<longrightarrow> identity_header h \<and> vals (rq_headers fwd) h = vals granted h)"
proof -
  have "sent_authorized ops k" using reachable_authorized [OF assms(2)] assms(3) by (simp add: list_all_iff)
  then obtain granted where "authorize ops (rk_config k) (rk_peer k) (rk_client_ip ops k)
      (request_host ops (rq_uri (rk_request k)) (rq_headers (rk_request k))) m (rk_request k) = Inr granted"
    "forward_request ops (max_body_size_of (rk_config k)) (rk_client_ip ops k) m granted (rk_request k) = Inr fwd"
    using assms(4-6) unfolding sent_authorized_def by auto
  from http_crate.forwarded_granted [OF assms(1) this assms(7)] show ?thesis by blast
qed


text \<open>
  C39: a reload whose log file cannot be opened ends the reload thread: the new configuration is not
  taken over, and from then on no step changes the configuration.
\<close>

theorem reload_thread_dies:
  assumes "load_active_config_from_path env aops (sv_config_path sv) (sv_port sv) (sv_workers sv)
      (usize_add (sv_generation sv) 1) (Some (ac_security_manager (sc_current (sv_shared sv)))) (sv_store sv) =
      (Returned (Inr ac), s)"
    and "ac_logfile ac = Some file" and "env_open_log env (path_parent file) file = None" and "\<not> sc_poisoned (sv_shared sv)"
    and "(server_step envs ops aops min_buf)\<^sup>*\<^sup>* (reload env aops sv) sv'"
  shows "sv_shared sv' = sv_shared sv \<and> \<not> sv_reloading sv'"
  using assms(5)
proof induction
  case base
  then show ?case
    using assms(1-4) by (simp add: reload_def config_load_def update_log_file_def)
next
  case (step sv1 sv2)
  from step(2) have "sv_shared sv2 = sv_shared sv1 \<and> \<not> sv_reloading sv2"
    using step(3) by cases (auto simp: accept_connection_def set_stage_def begin_request_def set_request_def)
  then show ?case using step(3) by simp
qed

section \<open>Examples\<close>

definition example_server :: "(string, (string, alist_headers CachedAsset) list_lru, alist_headers, unit) Server" where
  "example_server =
     \<lparr>sv_port = 80, sv_config_path = ''proxy.conf'', sv_shared = create_config_store (example_active\<lparr>ac_generation := 0\<rparr>),
      sv_workers = 4, sv_store = \<lparr>st_managers = [from_security_config (cfg_security example_auth_cfg)],
        st_engines = [cache_new list_lru_ops 100 10 5]\<rparr>,
      sv_log = None, sv_generation = 0, sv_reloading = True, sv_conns = [], sv_requests = [], sv_tasks = []\<rparr>"

lemma example_started:
  "load_config_from_path example_env ''proxy.conf'' = Inr example_auth_cfg"
  "server_new example_env list_lru_ops example_auth_cfg ''proxy.conf'' = Returned (Inr example_server)"
proof -
  show "load_config_from_path example_env ''proxy.conf'' = Inr example_auth_cfg"
    by (simp add: load_config_from_path_def example_env_def map_err_def example_auth_parses)
  show "server_new example_env list_lru_ops example_auth_cfg ''proxy.conf'' = Returned (Inr example_server)"
    by (simp add: server_new_def build_active_config_def build_tls_acceptor_def https_endpoint_def alloc_manager_def
        build_auth_provider_def build_cache_engine_def alloc_engine_def example_auth_cfg_def example_env_def
        example_server_def example_active_def example_provider_def update_log_file_def str_eval)
qed

theorem server_reachable_inv_witness: "server_inv list_lru_valid ll_entries example_server"
proof (rule server_reachable_inv [OF list_asset_cache])
  show "server_reachable {example_env} example_http list_lru_ops 8192 example_server"
    by (rule reach_start [OF _ example_started]) simp
qed (simp add: example_env_def)


text \<open>A connection to the example server is accepted, let in and served; a request arrives on it and is handled.\<close>

definition example_at :: "stage \<Rightarrow> (string, (string, alist_headers CachedAsset) list_lru, alist_headers, unit) Server" where
  "example_at st = example_server\<lparr>sv_conns := [\<lparr>cn_peer = example_peer, cn_config = example_ac False, cn_stage = st\<rparr>]\<rparr>"

lemma example_at_fields [simp]:
  "length (sv_conns (example_at st)) = 1"
  "sv_conns (example_at st) ! 0 = \<lparr>cn_peer = example_peer, cn_config = example_ac False, cn_stage = st\<rparr>"
  by (simp_all add: example_at_def)

definition example_served :: "(string, (string, alist_headers CachedAsset) list_lru, alist_headers, unit) Server" where
  "example_served = example_at (Serving example_peer False \<lparr>sl_http1_buf = 65536, sl_http2_header_list = 65536\<rparr>)"

lemma example_server_config: "config_load (sv_shared example_server) = Returned (example_ac False)"
  by (simp add: example_server_def create_config_store_def config_load_def example_ac_def example_active_def)

lemma example_at_steps:
  "accept_connection example_peer [] (example_ac False) example_server = example_at (Accepted [])"
  "set_stage 0 (check_peer 2 [] (sv_conns (example_at (Accepted [])) ! 0) (sv_store (example_at (Accepted []))))
     (example_at (Accepted [])) = example_at (Resolved (stream_new [] None) example_peer False)"
  "set_stage 0 (check_resolved 8192 (sv_shared (example_at (Resolved ps example_peer False))) 3 ps example_peer False
       (sv_conns (example_at (Resolved ps example_peer False)) ! 0) (sv_store (example_at (Resolved ps example_peer False))))
     (example_at (Resolved ps example_peer False)) = example_served"
proof -
  show "accept_connection example_peer [] (example_ac False) example_server = example_at (Accepted [])"
    by (simp add: accept_connection_def example_server_def example_at_def)
  show "set_stage 0 (check_peer 2 [] (sv_conns (example_at (Accepted [])) ! 0) (sv_store (example_at (Accepted []))))
     (example_at (Accepted [])) = example_at (Resolved (stream_new [] None) example_peer False)"
    by (simp add: example_at_def example_server_def set_stage_def check_peer_def resolve_peer_def with_manager_def is_blacklisted_def
        locked_def from_security_config_def security_new_def handle_proxy_protocol_def example_ac_def example_active_def
        example_auth_cfg_def example_peer_def)
  show "set_stage 0 (check_resolved 8192 (sv_shared (example_at (Resolved ps example_peer False))) 3 ps example_peer False
       (sv_conns (example_at (Resolved ps example_peer False)) ! 0) (sv_store (example_at (Resolved ps example_peer False))))
     (example_at (Resolved ps example_peer False)) = example_served"
    by (simp add: example_served_def example_at_def example_server_def set_stage_def check_resolved_def with_manager_def
        is_blacklisted_def locked_def from_security_config_def security_new_def serve_connection_def stage_of_def config_load_def
        create_config_store_def max_header_size_of_def as_u32_def example_ac_def example_active_def example_auth_cfg_def Let_def)
qed

lemma example_let_in: "server_reachable {example_env} example_http list_lru_ops 8192 example_served"
proof -
  note steps = reach_step [where envs = "{example_env}" and ops = example_http and aops = list_lru_ops and min_buf = 8192]
  have "server_reachable {example_env} example_http list_lru_ops 8192 example_server"
    by (rule reach_start [OF _ example_started]) simp
  from steps [OF this step_accept [OF example_server_config, of _ _ _ _ example_peer "[]"]]
  have "server_reachable {example_env} example_http list_lru_ops 8192 (example_at (Accepted []))"
    by (simp add: example_at_steps)
  from steps [OF this step_check_peer [of 0 _ "[]" _ _ _ _ 2]]
  have "server_reachable {example_env} example_http list_lru_ops 8192 (example_at (Resolved (stream_new [] None) example_peer False))"
    by (simp add: example_at_steps del: example_at_fields(2)) simp
  from steps [OF this step_check_resolved [of 0 _ "stream_new [] None" example_peer False _ _ _ _ 3]]
  show ?thesis by (simp add: example_at_steps del: example_at_fields(2)) simp
qed

definition example_arrived :: "(string, (string, alist_headers CachedAsset) list_lru, alist_headers, unit) Server" where
  "example_arrived = begin_request example_peer False (example_ac False) example_req example_served"

definition example_arrival :: "(string, alist_headers, unit) request_task" where
  "example_arrival = \<lparr>rk_config = example_ac False, rk_peer = example_peer, rk_proxied = False, rk_request = example_req, rk_stage = Arrived\<rparr>"

lemma example_arrived_reachable: "server_reachable {example_env} example_http list_lru_ops 8192 example_arrived"
  unfolding example_arrived_def
  by (rule reach_step [OF example_let_in step_request [of 0]])
     (simp_all add: example_served_def example_at_def example_server_config)

lemma example_arrived_fields [simp]:
  "sv_requests example_arrived = [example_arrival]" "sv_store example_arrived = example_store'"
  by (simp_all add: example_arrived_def begin_request_def example_served_def example_at_def example_server_def example_arrival_def example_store'_def)

lemma example_arrival_fields [simp]:
  "rk_config example_arrival = example_ac False" "rk_peer example_arrival = example_peer" "\<not> rk_proxied example_arrival"
  "rk_request example_arrival = example_req" "rk_stage example_arrival = Arrived"
  by (simp_all add: example_arrival_def)


lemma reachable_steps:
  "(server_step envs ops aops min_buf)\<^sup>*\<^sup>* sv sv' \<Longrightarrow> server_reachable envs ops aops min_buf sv \<Longrightarrow>
   server_reachable envs ops aops min_buf sv'"
  by (induction rule: rtranclp_induct) (auto intro: reach_step)


theorem served_requests_authenticated_witness:
  "\<exists>provider granted. ac_auth_provider (example_ac False) = Some provider \<and>
     authenticate example_http provider (socket_addr_to_string example_peer) (rk_client_ip example_http example_arrival)
       (rq_method example_req) (rq_uri example_req) (rq_headers example_req) = Inr (Success granted)"
proof -
  obtain out s where h: "handle_request example_http list_lru_ops example_collect (example_client 200) (example_ac False)
      example_peer False 11 12 13 example_req example_store' = (Returned out, s)" "hd_sent out = Some example_fwd"
    using example_handled by blast
  let ?k = "example_arrival\<lparr>rk_stage := Answered (Returned out)\<rparr>"
  have "(server_step {example_env} example_http list_lru_ops 8192)\<^sup>*\<^sup>* example_arrived
      (set_request 0 (Answered (Returned out), s) example_arrived)"
    by (rule arrived_request_steps [of _ _ example_arrival]) (use h(1) in auto)
  then have r: "server_reachable {example_env} example_http list_lru_ops 8192
      (set_request 0 (Answered (Returned out), s) example_arrived)"
    by (rule reachable_steps) (rule example_arrived_reachable)
  show ?thesis
    using served_requests_authenticated [OF example_http_crate r, of ?k out example_fwd example_matched] h(2)
    by (auto simp: set_request_def example_host example_route_matched example_matched_def)
qed

text \<open>A file that names a log file, met where no log file can be opened.\<close>

definition example_log_text :: string where
  "example_log_text =
     ''listen 80;'' @ [newline] @ ''logfile /l;'' @ [newline] @ ''route http://a.b {'' @ [newline] @
     ''upstream h:80;'' @ [newline] @ ''}'' @ [newline]"

definition example_log_cfg :: Config where
  "example_log_cfg =
     \<lparr>cfg_listen_port = 80,
      cfg_routes = [\<lparr>rt_request_endpoint = ''http://a.b'', rt_forward_endpoint = ''h:80'', rt_auth_required = False,
        rt_cert_path = None, rt_key_path = None, rt_cache = None, rt_intercept_errors = None\<rparr>],
      cfg_workers = 4, cfg_logfile = Some ''/l'', cfg_security = None, cfg_cache = None, cfg_intercept_errors = None\<rparr>"

lemma example_log_lines:
  "config_lines example_log_text = [''listen 80;'', ''logfile /l;'', ''route http://a.b {'', ''upstream h:80;'', ''}'']"
  by (simp add: example_log_text_def config_lines_eval)

lemma example_log_parses: "parse_proxy_config (Some 4) example_log_text = Inr example_log_cfg"
  unfolding parse_proxy_config_def example_log_lines example_log_cfg_def
  by (simp add: parser_eval)

definition example_log_env :: "(string, string, string, string, alist_headers, unit) environment" where
  "example_log_env = example_env\<lparr>env_read_to_string := (\<lambda>path. Inr example_log_text), env_open_log := (\<lambda>dir path. None)\<rparr>"

theorem reload_thread_dies_witness:
  "sv_shared (reload example_log_env list_lru_ops example_server) = sv_shared example_server \<and>
   \<not> sv_reloading (reload example_log_env list_lru_ops example_server)"
proof -
  have "load_config_from_path example_log_env ''proxy.conf'' = Inr example_log_cfg"
    by (simp add: load_config_from_path_def example_log_env_def example_env_def map_err_def example_log_parses)
  then obtain ac s where l: "load_active_config_from_path example_log_env list_lru_ops (sv_config_path example_server)
      (sv_port example_server) (sv_workers example_server) (usize_add (sv_generation example_server) 1)
      (Some (ac_security_manager (sc_current (sv_shared example_server)))) (sv_store example_server) = (Returned (Inr ac), s)"
    and f: "ac_logfile ac = Some ''/l''"
    by (simp add: load_active_config_from_path_def build_active_config_def build_tls_acceptor_def https_endpoint_def
        build_auth_provider_def build_cache_engine_def example_log_cfg_def example_server_def str_eval)
  show ?thesis
    using reload_thread_dies [OF l f, where envs = "{example_env}" and ops = example_http and min_buf = 8192]
    by (simp add: example_log_env_def example_server_def create_config_store_def)
qed

end
