(* ===== verification/Server_History.thy ===== *)
theory Server_History
  imports Server
begin

text \<open>
  Where things come from: every entry of a cache was given to some client as the answer to a request
  before, and every configuration in use was read from the configuration file. The server keeps its
  answered requests in its state, so this is an invariant of the reachable states.
\<close>

section \<open>The origin of cached answers\<close>

text \<open>The request was answered and its answer spawned the insertion.\<close>

definition gave :: "('key, 'h, 'b) request_task \<Rightarrow> 'h insert_task \<Rightarrow> bool" where
  "gave k t \<longleftrightarrow> (\<exists>out. rk_stage k = Answered (Returned out) \<and> hd_task out = Some t)"

definition stored_by ::
  "('key, 'h, 'b) request_task list \<Rightarrow> nat \<Rightarrow> string \<Rightarrow> 'h CachedAsset \<Rightarrow> bool" where
  "stored_by ks r key a \<longleftrightarrow>
     (\<exists>k\<in>set ks. \<exists>t. gave k t \<and> it_engine t = r \<and> it_key t = key \<and>
        ca_status a = it_status t \<and> ca_headers a = it_headers t \<and> ca_body a = it_body t)"

definition rk_cache_key :: "('h, 'v) http_ops \<Rightarrow> ('key, 'h, 'b) request_task \<Rightarrow> string" where
  "rk_cache_key ops k =
     cache_key_of (request_host ops (rq_uri (rk_request k)) (rq_headers (rk_request k))) (path_and_query_of (rq_uri (rk_request k)))"

definition holds :: "('c \<Rightarrow> (string \<times> 'h CachedAsset) list) \<Rightarrow> 'c Store \<Rightarrow> nat \<Rightarrow> string \<Rightarrow> 'h CachedAsset \<Rightarrow> bool" where
  "holds entries s r key a \<longleftrightarrow> r < length (st_engines s) \<and> (key, a) \<in> set (entries (ce_inner (st_engines s ! r)))"

text \<open>Pending insertions, entries and entries just found are all from requests of the server.\<close>

definition traced ::
  "('h, 'v) http_ops \<Rightarrow> ('c \<Rightarrow> (string \<times> 'h CachedAsset) list) \<Rightarrow> ('key, 'c, 'h, 'b) Server \<Rightarrow> bool" where
  "traced ops entries sv \<longleftrightarrow>
     list_all fits_usize (st_engines (sv_store sv)) \<and>
     (\<forall>t\<in>set (sv_tasks sv). \<exists>k\<in>set (sv_requests sv). gave k t) \<and>
     (\<forall>r key a. holds entries (sv_store sv) r key a \<longrightarrow> stored_by (sv_requests sv) r key a) \<and>
     (\<forall>k\<in>set (sv_requests sv). \<forall>a. rk_stage k = Looked (Some a) \<longrightarrow>
        (\<exists>r. ac_cache_engine (rk_config k) = Some r \<and> stored_by (sv_requests sv) r (rk_cache_key ops k) a))"

lemma stored_by_mono:
  "stored_by ks r key a \<Longrightarrow> (\<And>k t. k \<in> set ks \<Longrightarrow> gave k t \<Longrightarrow> k \<in> set ks') \<Longrightarrow> stored_by ks' r key a"
  unfolding stored_by_def by blast

text \<open>An answered request stays in the list.\<close>

lemma gave_stays:
  assumes "k \<in> set ks" and "gave k t" and "j < length ks" and "request_open (rk_stage (ks ! j))"
  shows "k \<in> set (ks[j := k'])"
proof -
  obtain i where "i < length ks" "k = ks ! i" using assms(1) by (metis in_set_conv_nth)
  moreover from this have "i \<noteq> j" using assms(2,4) by (auto simp: gave_def)
  ultimately show ?thesis by (metis length_list_update nth_list_update_neq nth_mem)
qed

context asset_cache
begin

lemma engines_inv: "list_all fits_usize (st_engines s) \<Longrightarrow> engines_ok valid entries s \<Longrightarrow> r < length (st_engines s) \<Longrightarrow>
    cache_inv valid entries (st_engines s ! r) \<and> fits_usize (st_engines s ! r)"
  by (simp add: engines_ok_def list_all_length)

lemma lookup_holds:
  assumes "lookup_request hops ops ac t req s = (x, s')" and "engines_ok valid entries s" and "list_all fits_usize (st_engines s)"
    and "config_ok s ac"
  shows "list_all fits_usize (st_engines s') \<and> (\<forall>r key a. holds entries s' r key a \<longrightarrow> holds entries s r key a) \<and>
    (\<forall>a. x = Some a \<longrightarrow> (\<exists>r. ac_cache_engine ac = Some r \<and>
       holds entries s r (cache_key_of (request_host hops (rq_uri req) (rq_headers req)) (path_and_query_of (rq_uri req))) a))"
proof -
  let ?engine = "cache_engine_of ac (match_route (ac_router ac) (request_host hops (rq_uri req) (rq_headers req)) (uri_path (rq_uri req))) (rq_method req)"
  let ?key = "cache_key_of (request_host hops (rq_uri req) (rq_headers req)) (path_and_query_of (rq_uri req))"
  have l: "cache_lookup ops t ?engine ?key s = (x, s')" using assms(1) by (simp add: lookup_request_def Let_def)
  show ?thesis
  proof (cases ?engine)
    case None
    then show ?thesis using l assms(3) by (auto simp: cache_lookup_def)
  next
    case (Some r)
    then have e: "ac_cache_engine ac = Some r" "r < length (st_engines s)"
      using assms(4) by (auto simp: cache_engine_of_def config_ok_def refs_ok_def Let_def split: if_splits)
    obtain e' where g: "cache_get ops t ?key (st_engines s ! r) = (x, e')" and s': "s' = s\<lparr>st_engines := (st_engines s)[r := e']\<rparr>"
      using l Some by (auto simp: cache_lookup_def split: prod.splits)
    note i = engines_inv [OF assms(3,2) e(2)]
    note G = get_spec [OF conjunct1 [OF i] g]
    have "fits_usize e'" using G i by (simp add: fits_usize_def)
    moreover have "x = Some a \<Longrightarrow> (?key, a) \<in> set (entries (ce_inner (st_engines s ! r)))" for a
      using G by (auto split: option.splits if_splits dest: map_of_SomeD)
    ultimately show ?thesis
      using G e assms(3) by (auto simp: s' holds_def list_all_length nth_list_update)
  qed
qed

lemma insert_holds:
  assumes "run_insert_task ops now t s = Some (x, s')" and "engines_ok valid entries s" and "list_all fits_usize (st_engines s)"
    and "it_engine t < length (st_engines s)"
  shows "list_all fits_usize (st_engines s') \<and>
    (\<forall>r key a. holds entries s' r key a \<longrightarrow> holds entries s r key a \<or>
       r = it_engine t \<and> key = it_key t \<and> ca_status a = it_status t \<and> ca_headers a = it_headers t \<and> ca_body a = it_body t)"
proof -
  let ?e = "st_engines s ! it_engine t"
  obtain e where i: "cache_insert ops now (it_key t) (it_status t) (it_headers t) (it_body t) None ?e = Some (x, e)"
    and s': "s' = s\<lparr>st_engines := (st_engines s)[it_engine t := e]\<rparr>"
    using assms(1) by (auto simp: run_insert_task_def)
  note I = insert_spec [OF conjunct1 [OF engines_inv [OF assms(3,2,4)]] conjunct2 [OF engines_inv [OF assms(3,2,4)]] i]
  then have "fits_usize e" by simp
  moreover have "set (entries (ce_inner e)) \<subseteq>
      insert (it_key t, new_asset now (it_status t) (it_headers t) (it_body t) None (ce_default_ttl ?e)) (set (entries (ce_inner ?e)))"
    using I by (auto split: if_splits)
  ultimately show ?thesis
    using assms(3,4) by (auto simp: s' holds_def list_all_length nth_list_update new_asset_def split: if_splits)
qed

end

text \<open>Steps that leave the requests alone and add nothing to a cache.\<close>

lemma traced_shrink:
  assumes "traced ops entries sv" and "sv_requests sv' = sv_requests sv" and "set (sv_tasks sv') \<subseteq> set (sv_tasks sv)"
    and "list_all fits_usize (st_engines (sv_store sv'))"
    and "\<And>r key a. holds entries (sv_store sv') r key a \<Longrightarrow> holds entries (sv_store sv) r key a"
  shows "traced ops entries sv'"
  using assms(1,3,4,5) unfolding traced_def assms(2) by blast

lemma traced_same_engines:
  assumes "traced ops entries sv" and "sv_requests sv' = sv_requests sv" and "sv_tasks sv' = sv_tasks sv"
    and "st_engines (sv_store sv') = st_engines (sv_store sv)"
  shows "traced ops entries sv'"
  using assms by (intro traced_shrink [OF assms(1)]) (simp_all add: traced_def holds_def)

lemma traced_begin:
  assumes "traced ops entries sv"
  shows "traced ops entries (begin_request peer pp ac req sv)"
proof -
  have "stored_by (sv_requests sv @ [k]) r key a" if "stored_by (sv_requests sv) r key a" for k r key a
    by (rule stored_by_mono [OF that]) simp
  then show ?thesis using assms by (fastforce simp: traced_def begin_request_def)
qed

text \<open>A piece of a request: its new stage must not claim more than the caches hold.\<close>

lemma traced_request:
  assumes "traced ops entries sv" and "j < length (sv_requests sv)" and "request_open (rk_stage (sv_requests sv ! j))"
    and "list_all fits_usize (st_engines s)" and "\<And>r key a. holds entries s r key a \<Longrightarrow> holds entries (sv_store sv) r key a"
    and "\<And>a. st = Looked (Some a) \<Longrightarrow> \<exists>r. ac_cache_engine (rk_config (sv_requests sv ! j)) = Some r \<and>
      holds entries (sv_store sv) r (rk_cache_key ops (sv_requests sv ! j)) a"
  shows "traced ops entries (set_request j (st, s) sv)"
proof -
  let ?k = "(sv_requests sv ! j)\<lparr>rk_stage := st\<rparr>"
  let ?ks = "(sv_requests sv)[j := ?k]"
  have T: "\<And>t. t \<in> set (sv_tasks sv) \<Longrightarrow> \<exists>k\<in>set (sv_requests sv). gave k t"
    "\<And>r key a. holds entries (sv_store sv) r key a \<Longrightarrow> stored_by (sv_requests sv) r key a"
    "\<And>k a. k \<in> set (sv_requests sv) \<Longrightarrow> rk_stage k = Looked (Some a) \<Longrightarrow>
       \<exists>r. ac_cache_engine (rk_config k) = Some r \<and> stored_by (sv_requests sv) r (rk_cache_key ops k) a"
    using assms(1) by (auto simp: traced_def)
  have stay: "k \<in> set ?ks" if "k \<in> set (sv_requests sv)" "gave k t" for k t
    by (rule gave_stays [OF that assms(2,3)])
  have mono: "stored_by ?ks r key a" if "stored_by (sv_requests sv) r key a" for r key a
    by (rule stored_by_mono [OF that]) (rule stay)
  have k: "?k \<in> set ?ks" using assms(2) by (metis length_list_update nth_list_update_eq nth_mem)
  have "\<exists>k\<in>set ?ks. gave k t" if "t \<in> set (sv_tasks sv @ spawned st)" for t
  proof (cases "t \<in> set (sv_tasks sv)")
    case False
    then have "gave ?k t" using that by (cases st rule: spawned.cases) (auto simp: gave_def split: option.splits)
    then show ?thesis using k by blast
  qed (use T(1) stay in blast)
  moreover have "\<exists>r. ac_cache_engine (rk_config k) = Some r \<and> stored_by ?ks r (rk_cache_key ops k) a"
    if k': "k \<in> set ?ks" "rk_stage k = Looked (Some a)" for k a
  proof (cases "k = ?k")
    case True
    then have "st = Looked (Some a)" using k'(2) by simp
    then obtain r where "ac_cache_engine (rk_config (sv_requests sv ! j)) = Some r"
      "stored_by (sv_requests sv) r (rk_cache_key ops (sv_requests sv ! j)) a"
      using assms(6) T(2) by blast
    then show ?thesis using mono True by (auto simp: rk_cache_key_def)
  next
    case False
    then have "k \<in> set (sv_requests sv)" using k'(1) by (metis insertE set_update_subset_insert subsetD)
    then show ?thesis using T(3) k'(2) mono by blast
  qed
  ultimately show ?thesis
    using assms(4,5) T(2) mono by (auto simp: traced_def set_request_def)
qed

context asset_cache
begin

lemma traced_request_next:
  assumes "traced hops entries sv" and "server_inv valid entries sv" and "j < length (sv_requests sv)"
    and "request_open (rk_stage (sv_requests sv ! j))"
    and "request_next hops ops collect client t (sv_requests sv ! j) (sv_store sv) = (st, s)"
  shows "traced hops entries (set_request j (st, s) sv)"
proof (rule traced_request [OF assms(1,3,4)])
  let ?k = "sv_requests sv ! j"
  have e: "engines_ok valid entries (sv_store sv)" "list_all fits_usize (st_engines (sv_store sv))" "config_ok (sv_store sv) (rk_config ?k)"
    using assms(1-3) by (auto simp: server_inv_def traced_def list_all_length)
  have "list_all fits_usize (st_engines s) \<and> (\<forall>r key a. holds entries s r key a \<longrightarrow> holds entries (sv_store sv) r key a) \<and>
    (\<forall>a. st = Looked (Some a) \<longrightarrow> (\<exists>r. ac_cache_engine (rk_config ?k) = Some r \<and> holds entries (sv_store sv) r (rk_cache_key hops ?k) a))"
  proof (cases "rk_stage ?k")
    case Admitted
    show ?thesis
    proof (cases "payload_too_large hops (max_body_size_of (rk_config ?k)) (rq_headers (rk_request ?k))")
      case True
      then show ?thesis using assms(5) Admitted e(2) by (auto simp: request_next_def Let_def)
    next
      case False
      then obtain x where "lookup_request hops ops (rk_config ?k) t (rk_request ?k) (sv_store sv) = (x, s)" "st = Looked x"
        using assms(5) Admitted by (auto simp: request_next_def Let_def split: prod.splits)
      then show ?thesis using lookup_holds [OF _ e] by (simp add: rk_cache_key_def)
    qed
  next
    case Arrived
    then have "st_engines s = st_engines (sv_store sv)" "\<forall>a. st \<noteq> Looked (Some a)"
      using assms(5) by (auto simp: request_next_def Let_def dest!: ban_check_grows split: prod.splits outcome.splits bool.splits)
    then show ?thesis using e(2) by (simp add: holds_def)
  next
    case Unbanned
    then have "st_engines s = st_engines (sv_store sv)" "\<forall>a. st \<noteq> Looked (Some a)"
      using assms(5) by (auto simp: request_next_def Let_def dest!: rate_check_grows split: prod.splits outcome.splits sum.splits)
    then show ?thesis using e(2) by (simp add: holds_def)
  qed (use assms(4,5) e(2) in \<open>auto simp: request_next_def Let_def\<close>)
  then show "list_all fits_usize (st_engines s)"
    and "\<And>r key a. holds entries s r key a \<Longrightarrow> holds entries (sv_store sv) r key a"
    and "\<And>a. st = Looked (Some a) \<Longrightarrow> \<exists>r. ac_cache_engine (rk_config ?k) = Some r \<and> holds entries (sv_store sv) r (rk_cache_key hops ?k) a"
    by blast+
qed

end

text \<open>Building a configuration adds at most one cache, an empty one that fits if the file says so.\<close>

definition fitting :: "Config \<Rightarrow> bool" where
  "fitting config \<longleftrightarrow> pred_option (\<lambda>c. 2 * cc_max_capacity_bytes c \<le> usize_max) (cfg_cache config)"

context asset_cache
begin

lemma build_active_config_holds:
  assumes "build_active_config env ops config generation sm s = (x, s')" and "fitting config" and "list_all fits_usize (st_engines s)"
  shows "list_all fits_usize (st_engines s') \<and> (\<forall>r key a. holds entries s' r key a \<longrightarrow> holds entries s r key a)"
proof -
  have "st_engines s' = st_engines s \<or>
      (\<exists>c. cfg_cache config = Some c \<and> st_engines s' = st_engines s @
         [cache_new ops (cc_max_capacity_bytes c) (cc_max_file_size_bytes c) (cc_default_ttl_sec c)])"
    using assms(1)
    by (auto simp: build_active_config_def alloc_manager_def build_cache_engine_def alloc_engine_def Let_def
        split: sum.splits option.splits outcome.splits if_splits)
  moreover have "entries (ce_inner (cache_new ops c f d)) = []" for c f d
    using new [of 10000] by (simp add: cache_new_def)
  moreover have "fits_usize (cache_new ops c f d) \<longleftrightarrow> 2 * c \<le> usize_max" for c f d
    by (simp add: fits_usize_def cache_new_def)
  ultimately show ?thesis
    using assms(2,3) by (auto simp: holds_def fitting_def nth_append split: if_splits)
qed

lemma load_active_config_holds:
  assumes "load_active_config_from_path env ops path port workers generation sm s = (x, s')"
    and "\<And>config. load_config_from_path env path = Inr config \<Longrightarrow> fitting config" and "list_all fits_usize (st_engines s)"
  shows "list_all fits_usize (st_engines s') \<and> (\<forall>r key a. holds entries s' r key a \<longrightarrow> holds entries s r key a)"
  using assms(1,3)
  by (auto simp: load_active_config_from_path_def dest!: build_active_config_holds [OF _ assms(2)] split: sum.splits if_splits)

lemma server_new_traced:
  assumes "load_config_from_path env path = Inr config" and "server_new env ops config path = Returned (Inr sv)" and "fitting config"
  shows "traced hops entries sv"
proof -
  obtain ac where "build_active_config env ops config 0 None \<lparr>st_managers = [], st_engines = []\<rparr> = (Returned (Inr ac), sv_store sv)"
    and "sv_requests sv = []" "sv_tasks sv = []"
    using assms(2) by (auto simp: server_new_def split: prod.splits outcome.splits sum.splits)
  then show ?thesis
    using build_active_config_holds [OF _ assms(3)] by (fastforce simp: traced_def holds_def)
qed

lemma reload_traced:
  assumes "traced hops entries sv" and "\<And>path config. load_config_from_path env path = Inr config \<Longrightarrow> fitting config"
  shows "traced hops entries (reload env ops sv)"
proof -
  have "list_all fits_usize (st_engines (sv_store (reload env ops sv))) \<and>
      (\<forall>r key a. holds entries (sv_store (reload env ops sv)) r key a \<longrightarrow> holds entries (sv_store sv) r key a)"
    using assms(1) by (auto simp: reload_def traced_def dest!: load_active_config_holds [OF _ assms(2)]
        split: outcome.splits prod.splits sum.splits)
  moreover have "sv_tasks (reload env ops sv) = sv_tasks sv"
    by (simp add: reload_def split: outcome.splits sum.splits prod.splits)
  ultimately show ?thesis by (intro traced_shrink [OF assms(1)]) auto
qed

lemma insert_traced:
  assumes "traced hops entries sv" and "server_inv valid entries sv" and "task \<in> set (sv_tasks sv)"
    and "run_insert_task ops now task (sv_store sv) = Some (x, s)"
  shows "traced hops entries (sv\<lparr>sv_store := s, sv_tasks := remove1 task (sv_tasks sv)\<rparr>)"
proof -
  have e: "engines_ok valid entries (sv_store sv)" "list_all fits_usize (st_engines (sv_store sv))"
    "it_engine task < length (st_engines (sv_store sv))"
    using assms(1-3) by (auto simp: server_inv_def traced_def list_all_iff)
  obtain k where "k \<in> set (sv_requests sv)" "gave k task" using assms(1,3) by (auto simp: traced_def)
  then have new: "stored_by (sv_requests sv) (it_engine task) (it_key task) a"
    if "ca_status a = it_status task" "ca_headers a = it_headers task" "ca_body a = it_body task" for a
    using that unfolding stored_by_def by blast
  have "stored_by (sv_requests sv) r key a" if "holds entries s r key a" for r key a
    using conjunct2 [OF insert_holds [OF assms(4) e]] that new assms(1) unfolding traced_def by blast
  moreover have "set (remove1 task (sv_tasks sv)) \<subseteq> set (sv_tasks sv)" by (rule set_remove1_subset)
  ultimately show ?thesis
    using assms(1) insert_holds [OF assms(4) e] by (auto simp: traced_def)
qed

lemma server_step_traced:
  assumes "server_step envs hops ops min_buf sv sv'" and "traced hops entries sv" and "server_inv valid entries sv"
    and "\<And>env path config. env \<in> envs \<Longrightarrow> load_config_from_path env path = Inr config \<Longrightarrow> fitting config"
  shows "traced hops entries sv'"
  using assms(1)
proof cases
  case (step_reload env)
  then show ?thesis using reload_traced [OF assms(2)] assms(4) by blast
next
  case (step_check_peer i stream t)
  then show ?thesis
    by (intro traced_same_engines [OF assms(2)]) (simp_all add: set_stage_def conn_steps_grow)
next
  case (step_check_resolved i ps addr pp t)
  then show ?thesis
    by (intro traced_same_engines [OF assms(2)]) (simp_all add: set_stage_def conn_steps_grow)
next
  case (step_handshake i ps addr pp t ok)
  then show ?thesis
    by (intro traced_same_engines [OF assms(2)]) (simp_all add: set_stage_def conn_steps_grow)
next
  case (step_request i addr pp limits ac req)
  then show ?thesis using traced_begin [OF assms(2)] by simp
next
  case (step_request_next j collect client t)
  obtain st s where n: "request_next hops ops collect client t (sv_requests sv ! j) (sv_store sv) = (st, s)" by fastforce
  show ?thesis
    unfolding step_request_next(1) n by (rule traced_request_next [OF assms(2,3) step_request_next(2,3) n])
next
  case (step_abandon j cached)
  have "list_all fits_usize (st_engines (sv_store sv))" using assms(2) by (simp add: traced_def)
  then show ?thesis unfolding step_abandon(1) by (intro traced_request [OF assms(2) step_abandon(2)]) (simp_all add: step_abandon(3))
next
  case (step_insert task now r s)
  then show ?thesis using insert_traced [OF assms(2,3)] by simp
qed (use assms(2) in \<open>auto intro: traced_same_engines simp: accept_connection_def set_stage_def\<close>)

lemma reachable_traced:
  assumes "server_reachable envs hops ops min_buf sv"
    and "\<And>env. env \<in> envs \<Longrightarrow> pred_option (\<lambda>n. 1 \<le> n \<and> n \<le> usize_max) (env_parallelism env)"
    and "\<And>env path config. env \<in> envs \<Longrightarrow> load_config_from_path env path = Inr config \<Longrightarrow> fitting config"
  shows "traced hops entries sv"
  using assms(1)
proof induction
  case (reach_start env path config sv)
  then show ?case using server_new_traced assms(3) by blast
next
  case (reach_step sv sv')
  show ?case
    by (rule server_step_traced [OF reach_step(2,3) reachable_inv [OF reach_step(1) assms(2)]]) (use assms(3) in blast)+
qed

end

text \<open>The insertion an answer spawns is the answer: its key, its status and its body.\<close>

definition task_faithful :: "('h, 'v) http_ops \<Rightarrow> ('key, 'h, 'b) request_task \<Rightarrow> bool" where
  "task_faithful ops k \<longleftrightarrow>
     (\<forall>out t. rk_stage k = Answered (Returned out) \<longrightarrow> hd_task out = Some t \<longrightarrow>
        it_key t = rk_cache_key ops k \<and> ac_cache_engine (rk_config k) = Some (it_engine t) \<and>
        is_cacheable_method (rq_method (rk_request k)) \<and> it_status t = 200 \<and> hd_sent out \<noteq> None \<and>
        (\<exists>resp. hd_result out = Inr resp \<and> rs_status resp = 200 \<and> rs_body resp = Full (it_body t)))"

lemma request_next_faithful:
  assumes "request_next ops aops collect client t k s = (st, s')" and "request_open (rk_stage k)"
  shows "task_faithful ops (k\<lparr>rk_stage := st\<rparr>)"
  unfolding task_faithful_def
proof (intro allI impI)
  fix out task
  assume st: "rk_stage (k\<lparr>rk_stage := st\<rparr>) = Answered (Returned out)" and task: "hd_task out = Some task"
  let ?ok = "\<lambda>m. cache_engine_of (rk_config k) (Some m) (rq_method (rk_request k)) = Some (it_engine task)"
  obtain cached where o: "out = answer_request ops collect client (rk_config k) (rk_peer k) (rk_client_ip ops k) cached (rk_request k) s"
    using st task assms by (rule_tac request_next_answer [of ops aops collect client t k s out s']) auto
  have "ac_cache_engine (rk_config k) = Some (it_engine task) \<and> is_cacheable_method (rq_method (rk_request k))" if "?ok m" for m
    using that by (auto simp: cache_engine_of_def Let_def split: if_splits)
  then show "it_key task = rk_cache_key ops (k\<lparr>rk_stage := st\<rparr>) \<and> ac_cache_engine (rk_config (k\<lparr>rk_stage := st\<rparr>)) = Some (it_engine task) \<and>
      is_cacheable_method (rq_method (rk_request (k\<lparr>rk_stage := st\<rparr>))) \<and> it_status task = 200 \<and> hd_sent out \<noteq> None \<and>
      (\<exists>resp. hd_result out = Inr resp \<and> rs_status resp = 200 \<and> rs_body resp = Full (it_body task))"
    by (rule_tac answer_request_task [OF task [unfolded o]])
       (simp add: o rk_cache_key_def should_cache_def mark_cache_def Let_def)
qed

lemma reachable_faithful:
  assumes "server_reachable envs ops aops min_buf sv"
  shows "list_all (task_faithful ops) (sv_requests sv)"
proof (rule reachable_requests [OF assms])
  show "task_faithful ops (k\<lparr>rk_stage := st\<rparr>)"
    if "request_next ops aops collect client t k s = (st, s')" "request_open (rk_stage k)" for collect client t k s st s'
    using that by (rule request_next_faithful)
qed (simp_all add: task_faithful_def)

section \<open>The origin of configurations\<close>

text \<open>All of a configuration is from one reading of the file, with the same port and number of workers.\<close>

definition read_from ::
  "('file, 'cert, 'priv, 'key, 'h, 'b) environment set \<Rightarrow> string \<Rightarrow> nat \<Rightarrow> nat \<Rightarrow> ('key, 'h, 'b) ActiveConfig \<Rightarrow> bool" where
  "read_from envs path port workers ac \<longleftrightarrow>
     (\<exists>env\<in>envs. \<exists>config. load_config_from_path env path = Inr config \<and>
        cfg_listen_port config = port \<and> cfg_workers config = workers \<and>
        router_routes (ac_router ac) = cfg_routes config \<and> ac_security ac = cfg_security config \<and>
        ac_logfile ac = cfg_logfile config \<and> ac_cache_config ac = cfg_cache config \<and>
        build_tls_acceptor (env_tls env) (cfg_routes config) = Inr (ac_tls_acceptor ac) \<and>
        build_auth_provider (env_connector env) (cfg_security config) = Returned (ac_auth_provider ac))"

definition configs_read :: "('file, 'cert, 'priv, 'key, 'h, 'b) environment set \<Rightarrow> ('key, 'c, 'h, 'b) Server \<Rightarrow> bool" where
  "configs_read envs sv \<longleftrightarrow>
     (let good = read_from envs (sv_config_path sv) (sv_port sv) (sv_workers sv)
      in good (sc_current (sv_shared sv)) \<and> list_all (\<lambda>c. good (cn_config c)) (sv_conns sv) \<and>
         list_all (\<lambda>k. good (rk_config k)) (sv_requests sv))"

lemma build_read_from:
  assumes "build_active_config env aops config generation sm s = (Returned (Inr ac), s')" and "env \<in> envs"
    and "load_config_from_path env path = Inr config"
  shows "read_from envs path (cfg_listen_port config) (cfg_workers config) ac"
proof -
  have "router_routes (ac_router ac) = cfg_routes config \<and> ac_security ac = cfg_security config \<and>
      ac_logfile ac = cfg_logfile config \<and> ac_cache_config ac = cfg_cache config \<and>
      build_tls_acceptor (env_tls env) (cfg_routes config) = Inr (ac_tls_acceptor ac) \<and>
      build_auth_provider (env_connector env) (cfg_security config) = Returned (ac_auth_provider ac)"
    using assms(1) by (auto simp: build_active_config_def Let_def split: sum.splits prod.splits outcome.splits)
  then show ?thesis using assms(2,3) unfolding read_from_def by blast
qed

lemma reload_read:
  assumes "configs_read envs sv" and "env \<in> envs"
  shows "configs_read envs (reload env aops sv)"
proof -
  have f: "sv_config_path (reload env aops sv) = sv_config_path sv" "sv_port (reload env aops sv) = sv_port sv"
    "sv_workers (reload env aops sv) = sv_workers sv"
    by (simp_all add: reload_def split: outcome.splits sum.splits prod.splits)
  have "read_from envs path port workers ac"
    if "load_active_config_from_path env aops path port workers g sm s = (Returned (Inr ac), s')" for path port workers g sm s ac s'
    using that build_read_from [OF _ assms(2)]
    by (auto simp: load_active_config_from_path_def split: sum.splits if_splits)
  then have "sc_current (sv_shared (reload env aops sv)) = sc_current (sv_shared sv) \<or>
      read_from envs (sv_config_path sv) (sv_port sv) (sv_workers sv) (sc_current (sv_shared (reload env aops sv)))"
    by (auto simp: reload_def config_store_def split: outcome.splits sum.splits prod.splits if_splits)
  then show ?thesis using assms(1) by (auto simp: configs_read_def Let_def f)
qed

lemma server_step_read:
  assumes "server_step envs ops aops min_buf sv sv'" and "configs_read envs sv"
  shows "configs_read envs sv'"
  using assms(1)
proof cases
  case (step_reload env)
  then show ?thesis using reload_read [OF assms(2)] by simp
next
  case (step_accept ac peer stream)
  then show ?thesis using assms(2) by (auto simp: configs_read_def accept_connection_def config_load_def Let_def split: if_splits)
next
  case (step_request i addr pp limits ac req)
  then show ?thesis using assms(2) by (auto simp: configs_read_def begin_request_def config_load_def Let_def split: if_splits)
qed (use assms(2) in \<open>auto simp: configs_read_def set_stage_def set_request_def list_all_length nth_list_update Let_def\<close>)

lemma reachable_read:
  assumes "server_reachable envs ops aops min_buf sv"
  shows "configs_read envs sv"
  using assms
proof induction
  case (reach_start env path config sv)
  then show ?case
    using build_read_from [OF _ reach_start(1,2)]
    by (auto simp: server_new_def configs_read_def create_config_store_def Let_def split: prod.splits outcome.splits sum.splits)
qed (rule server_step_read)

section \<open>Properties\<close>

text \<open>
  C2: in every state the server can reach, an entry found in a cache for a request is the answer
  another request was given before: a GET or HEAD request for the same host, path and query, under a configuration
  with the same cache, that was sent upstream and answered 200 with exactly this body.
\<close>

theorem cache_provenance:
  fixes k :: "('key, 'h, 'b) request_task"
  assumes "asset_cache aops valid entries capacity" and "server_reachable envs ops aops min_buf sv"
    and "\<And>env. env \<in> envs \<Longrightarrow> pred_option (\<lambda>n. 1 \<le> n \<and> n \<le> usize_max) (env_parallelism env)"
    and "\<And>env path config. env \<in> envs \<Longrightarrow> load_config_from_path env path = Inr config \<Longrightarrow> fitting config"
    and "k \<in> set (sv_requests sv)" and "rk_stage k = Looked (Some a)"
  shows "\<exists>k'\<in>set (sv_requests sv). \<exists>out resp.
    rk_stage k' = Answered (Returned out) \<and> hd_sent out \<noteq> None \<and> hd_result out = Inr resp \<and>
    rk_cache_key ops k' = rk_cache_key ops k \<and> ac_cache_engine (rk_config k') = ac_cache_engine (rk_config k) \<and>
    is_cacheable_method (rq_method (rk_request k')) \<and>
    rs_status resp = 200 \<and> ca_status a = 200 \<and> rs_body resp = Full (ca_body a)"
proof -
  have "traced ops entries sv"
    by (rule asset_cache.reachable_traced [OF assms(1,2)]) (fact assms(3,4))+
  then obtain r where r: "ac_cache_engine (rk_config k) = Some r" "stored_by (sv_requests sv) r (rk_cache_key ops k) a"
    using assms(5,6) unfolding traced_def by blast
  then obtain k' t where k': "k' \<in> set (sv_requests sv)" "gave k' t" "it_engine t = r" "it_key t = rk_cache_key ops k"
    "ca_status a = it_status t" "ca_body a = it_body t"
    unfolding stored_by_def by blast
  moreover have "task_faithful ops k'" using reachable_faithful [OF assms(2)] k'(1) by (simp add: list_all_iff)
  ultimately show ?thesis using r(1) by (intro bexI [OF _ k'(1)]) (auto simp: gave_def task_faithful_def)
qed


section \<open>Examples\<close>

text \<open>A request that the gate lets pass looks into the cache.\<close>

lemma request_run_looked:
  assumes "security_gate (rk_config k) t1 t2 (rk_client_ip ops k) s = (Returned Passed, s2)"
    and "\<not> payload_too_large ops (max_body_size_of (rk_config k)) (rq_headers (rk_request k))"
    and "lookup_request ops aops (rk_config k) t3 (rk_request k) s2 = (cached, s3)"
  shows "request_run ops aops collect client k [t1, t2, t3] (Arrived, s) = (Looked cached, s3)"
proof -
  obtain s1 n where "ban_check (rk_config k) t1 (rk_client_ip ops k) s = (Returned False, s1)"
    "rate_check (rk_config k) t2 (rk_client_ip ops k) s1 = (Returned (Inr n), s2)"
    using assms(1) by (auto simp: security_gate_def split: prod.splits outcome.splits bool.splits sum.splits)
  then show ?thesis using assms(2,3) by (simp add: request_next_def Let_def)
qed

text \<open>The answer to the first request of the example is inserted; the request comes again and finds it.\<close>

lemma example_stored:
  "\<exists>sv. server_reachable {example_env} example_http list_lru_ops 8192 sv \<and> length (sv_requests sv) = 2 \<and>
     sv_requests sv ! 1 = example_arrival \<and> st_engines (sv_store sv) = [example_inserted] \<and>
     fst (security_gate (example_ac False) 21 22 ''1.2.3.4'' (sv_store sv)) = Returned Passed"
proof -
  let ?reach = "server_reachable {example_env} example_http list_lru_ops 8192"
  obtain out s1 where h: "handle_request example_http list_lru_ops example_collect (example_client 200) (example_ac False)
      example_peer False 11 12 13 example_req example_store' = (Returned out, s1)" "hd_task out = Some example_task"
    and e: "st_engines s1 = [cache_new list_lru_ops 100 10 5]"
    and g: "\<forall>engines. fst (security_gate (example_ac False) 21 22 ''1.2.3.4'' (s1\<lparr>st_engines := engines\<rparr>)) = Returned Passed"
    using example_handled [of 200 False] by (auto simp: example_store'_def)
  let ?s2 = "s1\<lparr>st_engines := [example_inserted]\<rparr>"
  let ?sv1 = "set_request 0 (Answered (Returned out), s1) example_arrived"
  let ?sv2 = "?sv1\<lparr>sv_store := ?s2, sv_tasks := []\<rparr>"
  let ?sv3 = "begin_request example_peer False (example_ac False) example_req ?sv2"
  have "(server_step {example_env} example_http list_lru_ops 8192)\<^sup>*\<^sup>* example_arrived ?sv1"
    by (rule arrived_request_steps [of _ _ example_arrival]) (use h(1) in auto)
  then have r1: "?reach ?sv1" by (rule reachable_steps) (rule example_arrived_reachable)
  have tasks: "sv_tasks ?sv1 = [example_task]"
    by (simp add: set_request_def h(2) example_arrived_def begin_request_def example_served_def example_at_def example_server_def)
  have i: "run_insert_task list_lru_ops 20 example_task s1 =
      Some (\<lparr>ir_inserted = True, ir_bytes_inserted = 2, ir_bytes_evicted = 0, ir_items_evicted = 0, ir_reason = None\<rparr>, ?s2)"
    using example_insertion by (simp add: run_insert_task_def example_task_def e)
  have "server_step {example_env} example_http list_lru_ops 8192 ?sv1 ?sv2"
    using step_insert [of example_task ?sv1 list_lru_ops 20 _ ?s2 "{example_env}" example_http 8192] tasks i by simp
  with r1 have "?reach ?sv2" by (rule reach_step)
  moreover have "sv_conns ?sv2 = sv_conns example_served" "sv_shared ?sv2 = sv_shared example_server"
    by (simp_all add: set_request_def example_arrived_def begin_request_def example_served_def example_at_def)
  ultimately have "?reach ?sv3"
    by (rule_tac reach_step [OF _ step_request [of 0]]) (simp_all add: example_server_config, simp_all add: example_served_def example_at_def)
  moreover have "length (sv_requests ?sv3) = 2 \<and> sv_requests ?sv3 ! 1 = example_arrival \<and> sv_store ?sv3 = ?s2"
    by (simp add: begin_request_def set_request_def example_arrival_def)
  ultimately show ?thesis using g by (intro exI [of _ ?sv3]) simp
qed

lemma example_again:
  "\<exists>sv k a. server_reachable {example_env} example_http list_lru_ops 8192 sv \<and> k \<in> set (sv_requests sv) \<and>
     rk_stage k = Looked (Some a) \<and> ca_body a = [1, 2]"
proof -
  let ?asset = "new_asset 20 200 [(''content-type'', ''text/css'')] [1, 2] None (from_secs 5)"
  obtain sv where r: "server_reachable {example_env} example_http list_lru_ops 8192 sv" and len: "length (sv_requests sv) = 2"
    and k: "sv_requests sv ! 1 = example_arrival" and e: "st_engines (sv_store sv) = [example_inserted]"
    and g: "fst (security_gate (example_ac False) 21 22 ''1.2.3.4'' (sv_store sv)) = Returned Passed"
    using example_stored by blast
  obtain s3 where s3: "security_gate (example_ac False) 21 22 ''1.2.3.4'' (sv_store sv) = (Returned Passed, s3)"
    using g by (metis prod.collapse)
  then have "st_engines s3 = [example_inserted]"
    using e by (auto simp: security_gate_def dest!: ban_check_grows rate_check_grows split: prod.splits outcome.splits bool.splits sum.splits)
  then obtain s4 where l: "lookup_request example_http list_lru_ops (example_ac False) 30 example_req s3 = (Some ?asset, s4)"
    using example_found by (auto simp: lookup_request_def cache_lookup_def cache_engine_of_def is_cacheable_method_def example_host
        example_route_matched example_matched_def cache_key_of_def)
  let ?sv = "set_request 1 (Looked (Some ?asset), s4) sv"
  have "request_run example_http list_lru_ops example_collect (example_client 200) example_arrival [21, 22, 30] (Arrived, sv_store sv) =
      (Looked (Some ?asset), s4)"
    by (rule request_run_looked [of _ _ _ _ _ s3])
       (use s3 l in \<open>simp_all add: example_payload rk_client_ip_def example_client_ip\<close>)
  then have "(server_step {example_env} example_http list_lru_ops 8192)\<^sup>*\<^sup>* sv ?sv"
    using arrived_run_steps [of 1 sv "{example_env}" example_http list_lru_ops 8192 example_collect "example_client 200" "[21, 22, 30]"]
    by (simp only: len k example_arrival_fields)
  then have "server_reachable {example_env} example_http list_lru_ops 8192 ?sv" using r by (rule reachable_steps)
  moreover have "sv_requests ?sv ! 1 = example_arrival\<lparr>rk_stage := Looked (Some ?asset)\<rparr>" "1 < length (sv_requests ?sv)"
    using len k by (simp_all del: One_nat_def)
  moreover have "rk_stage (example_arrival\<lparr>rk_stage := Looked (Some a)\<rparr>) = Looked (Some a)" for a by simp
  moreover have "ca_body ?asset = [1, 2]" by (simp add: new_asset_def)
  ultimately show ?thesis by (metis nth_mem)
qed

lemma example_fitting: "load_config_from_path example_env path = Inr config \<Longrightarrow> fitting config"
  by (auto simp: load_config_from_path_def example_env_def map_err_def example_auth_parses fitting_def example_auth_cfg_def)

theorem cache_provenance_witness:
  "\<exists>sv k a. server_reachable {example_env} example_http list_lru_ops 8192 sv \<and> k \<in> set (sv_requests sv) \<and>
     rk_stage k = Looked (Some a) \<and>
     (\<exists>k'\<in>set (sv_requests sv). \<exists>out resp. rk_stage k' = Answered (Returned out) \<and> hd_result out = Inr resp \<and>
        rk_cache_key example_http k' = rk_cache_key example_http k \<and> rs_body resp = Full [1, 2])"
proof -
  obtain sv k a where h: "server_reachable {example_env} example_http list_lru_ops 8192 sv" "k \<in> set (sv_requests sv)"
    "rk_stage k = Looked (Some a)" "ca_body a = [1, 2]"
    using example_again by blast
  have "\<exists>k'\<in>set (sv_requests sv). \<exists>out resp.
    rk_stage k' = Answered (Returned out) \<and> hd_sent out \<noteq> None \<and> hd_result out = Inr resp \<and>
    rk_cache_key example_http k' = rk_cache_key example_http k \<and> ac_cache_engine (rk_config k') = ac_cache_engine (rk_config k) \<and>
    is_cacheable_method (rq_method (rk_request k')) \<and>
    rs_status resp = 200 \<and> ca_status a = 200 \<and> rs_body resp = Full (ca_body a)"
    by (rule cache_provenance [OF list_asset_cache h(1) _ _ h(2,3)]) (auto simp: example_fitting, simp add: example_env_def)
  then show ?thesis using h by metis
qed


end
