(* ===== verification/Server_Events.thy ===== *)
theory Server_Events
  imports Server
begin

text \<open>
  The steps of the server as events: an event is what a step of \<open>server_step\<close> leaves open, namely which task
  goes on and what it meets, and a function executes it. Runs of the server are lists of events. The
  executable form agrees with the step relation, and lets the calls and the log records of a run be computed.
\<close>

section \<open>Events\<close>

text \<open>
  A reload meets an environment; the task of a connection or a request goes on at a clock reading; a handshake
  fails with an error or does not; an insertion knows the client, the host and the path of its
  request. A failed \<open>accept\<close> and the end of a tunnel change nothing in the state.
\<close>

datatype ('file, 'cert, 'priv, 'key, 'h, 'b) server_event =
    Reload "('file, 'cert, 'priv, 'key, 'h, 'b) environment"
  | Accept SocketAddr TcpStream
  | AcceptError nat string
  | CheckPeer nat Instant
  | CheckResolved nat Instant
  | Handshake nat Instant "string option"
  | Arrive nat "('h, 'b) Request"
  | Proceed nat Instant "'b Body \<Rightarrow> Bytes option" "('h, 'b) HttpClient" string
  | Drop nat
  | Insert "'h insert_task" Instant string string string
  | TunnelEnd SocketAddr string "string + unit" "string + unit" "string + nat \<times> nat"
  | Close nat "string option"

definition conn_stage :: "('key, 'c, 'h, 'b) Server \<Rightarrow> nat \<Rightarrow> stage option" where
  "conn_stage sv i = (if i < length (sv_conns sv) then Some (cn_stage (sv_conns sv ! i)) else None)"

definition req_stage :: "('key, 'c, 'h, 'b) Server \<Rightarrow> nat \<Rightarrow> ('h, 'b) request_stage option" where
  "req_stage sv j = (if j < length (sv_requests sv) then Some (rk_stage (sv_requests sv ! j)) else None)"

text \<open>Execute an event, if it is possible in this state.\<close>

fun exec_event ::
  "('h, 'v) http_ops \<Rightarrow> ('c, 'h) asset_ops \<Rightarrow> nat \<Rightarrow> ('file, 'cert, 'priv, 'key, 'h, 'b) server_event \<Rightarrow>
   ('key, 'c, 'h, 'b) Server \<Rightarrow> ('key, 'c, 'h, 'b) Server option" where
  "exec_event ops aops min_buf (Reload env) sv = (if sv_reloading sv then Some (reload env aops sv) else None)"
| "exec_event ops aops min_buf (Accept peer stream) sv =
     (case config_load (sv_shared sv) of
        Panicked \<Rightarrow> None
      | Returned ac \<Rightarrow> Some (accept_connection peer stream ac sv))"
| "exec_event ops aops min_buf (AcceptError worker e) sv = Some sv"
| "exec_event ops aops min_buf (CheckPeer i t) sv =
     (case conn_stage sv i of
        Some (Accepted stream) \<Rightarrow> Some (set_stage i (check_peer t stream (sv_conns sv ! i) (sv_store sv)) sv)
      | _ \<Rightarrow> None)"
| "exec_event ops aops min_buf (CheckResolved i t) sv =
     (case conn_stage sv i of
        Some (Resolved ps addr pp) \<Rightarrow>
          Some (set_stage i (check_resolved min_buf (sv_shared sv) t ps addr pp (sv_conns sv ! i) (sv_store sv)) sv)
      | _ \<Rightarrow> None)"
| "exec_event ops aops min_buf (Handshake i t err) sv =
     (case conn_stage sv i of
        Some (Handshaking ps addr pp) \<Rightarrow>
          Some (set_stage i (finish_handshake min_buf (sv_shared sv) t (err = None) addr pp (sv_conns sv ! i) (sv_store sv)) sv)
      | _ \<Rightarrow> None)"
| "exec_event ops aops min_buf (Arrive i req) sv =
     (case conn_stage sv i of
        Some (Serving addr pp limits) \<Rightarrow>
          (case config_load (sv_shared sv) of
             Panicked \<Rightarrow> None
           | Returned ac \<Rightarrow> Some (begin_request addr pp ac req sv))
      | _ \<Rightarrow> None)"
| "exec_event ops aops min_buf (Proceed j t collect client duration) sv =
     (if pred_option request_open (req_stage sv j) \<and> j < length (sv_requests sv)
      then Some (set_request j (request_next ops aops collect client t (sv_requests sv ! j) (sv_store sv)) sv) else None)"
| "exec_event ops aops min_buf (Drop j) sv =
     (case req_stage sv j of
        Some (Looked cached) \<Rightarrow> Some (set_request j (Abandoned, sv_store sv) sv)
      | _ \<Rightarrow> None)"
| "exec_event ops aops min_buf (Insert task now client_ip host path) sv =
     (if task \<in> set (sv_tasks sv)
      then (case run_insert_task aops now task (sv_store sv) of
              None \<Rightarrow> None
            | Some (r, s) \<Rightarrow> Some (sv\<lparr>sv_store := s, sv_tasks := remove1 task (sv_tasks sv)\<rparr>))
      else None)"
| "exec_event ops aops min_buf (TunnelEnd peer upstream client_upgrade upstream_upgrade copied) sv = Some sv"
| "exec_event ops aops min_buf (Close i err) sv =
     (if i < length (sv_conns sv) then Some (set_stage i (Closed, sv_store sv) sv) else None)"

fun exec_run ::
  "('h, 'v) http_ops \<Rightarrow> ('c, 'h) asset_ops \<Rightarrow> nat \<Rightarrow> ('file, 'cert, 'priv, 'key, 'h, 'b) server_event list \<Rightarrow>
   ('key, 'c, 'h, 'b) Server \<Rightarrow> ('key, 'c, 'h, 'b) Server option" where
  "exec_run ops aops min_buf [] sv = Some sv"
| "exec_run ops aops min_buf (ev # evs) sv = Option.bind (exec_event ops aops min_buf ev sv) (exec_run ops aops min_buf evs)"

text \<open>What the events of a run leave behind, each in the state it meets.\<close>

fun run_labels ::
  "('h, 'v) http_ops \<Rightarrow> ('c, 'h) asset_ops \<Rightarrow> nat \<Rightarrow>
   (('file, 'cert, 'priv, 'key, 'h, 'b) server_event \<Rightarrow> ('key, 'c, 'h, 'b) Server \<Rightarrow> 'l list) \<Rightarrow>
   ('file, 'cert, 'priv, 'key, 'h, 'b) server_event list \<Rightarrow> ('key, 'c, 'h, 'b) Server \<Rightarrow> 'l list" where
  "run_labels ops aops min_buf label [] sv = []"
| "run_labels ops aops min_buf label (ev # evs) sv =
     label ev sv @
     (case exec_event ops aops min_buf ev sv of
        None \<Rightarrow> []
      | Some sv1 \<Rightarrow> run_labels ops aops min_buf label evs sv1)"

text \<open>The environment of a reload is one of the given ones.\<close>

fun event_env :: "('file, 'cert, 'priv, 'key, 'h, 'b) environment set \<Rightarrow> ('file, 'cert, 'priv, 'key, 'h, 'b) server_event \<Rightarrow> bool" where
  "event_env envs (Reload env) = (env \<in> envs)"
| "event_env envs ev = True"

section \<open>Inversion\<close>

lemma conn_stage_Some [simp]: "conn_stage sv i = Some st \<longleftrightarrow> i < length (sv_conns sv) \<and> cn_stage (sv_conns sv ! i) = st"
  by (simp add: conn_stage_def)

lemma req_stage_Some [simp]: "req_stage sv j = Some st \<longleftrightarrow> j < length (sv_requests sv) \<and> rk_stage (sv_requests sv ! j) = st"
  by (simp add: req_stage_def)

text \<open>What an event does, by its form.\<close>

lemma exec_event_cases [consumes 1, case_names reload accept idle check_peer check_resolved handshake arrive proceed drop insert close]:
  assumes "exec_event ops aops min_buf ev sv = Some sv'"
  obtains env where "ev = Reload env" "sv_reloading sv" "sv' = reload env aops sv"
    | peer stream ac where "ev = Accept peer stream" "config_load (sv_shared sv) = Returned ac"
        "sv' = accept_connection peer stream ac sv"
    | "(\<exists>worker e. ev = AcceptError worker e) \<or> (\<exists>peer up r1 r2 r3. ev = TunnelEnd peer up r1 r2 r3)" "sv' = sv"
    | i t stream where "ev = CheckPeer i t" "i < length (sv_conns sv)" "cn_stage (sv_conns sv ! i) = Accepted stream"
        "sv' = set_stage i (check_peer t stream (sv_conns sv ! i) (sv_store sv)) sv"
    | i t ps addr pp where "ev = CheckResolved i t" "i < length (sv_conns sv)" "cn_stage (sv_conns sv ! i) = Resolved ps addr pp"
        "sv' = set_stage i (check_resolved min_buf (sv_shared sv) t ps addr pp (sv_conns sv ! i) (sv_store sv)) sv"
    | i t err ps addr pp where "ev = Handshake i t err" "i < length (sv_conns sv)"
        "cn_stage (sv_conns sv ! i) = Handshaking ps addr pp"
        "sv' = set_stage i (finish_handshake min_buf (sv_shared sv) t (err = None) addr pp (sv_conns sv ! i) (sv_store sv)) sv"
    | i req addr pp limits ac where "ev = Arrive i req" "i < length (sv_conns sv)"
        "cn_stage (sv_conns sv ! i) = Serving addr pp limits" "config_load (sv_shared sv) = Returned ac"
        "sv' = begin_request addr pp ac req sv"
    | j t collect client duration where "ev = Proceed j t collect client duration" "j < length (sv_requests sv)"
        "request_open (rk_stage (sv_requests sv ! j))"
        "sv' = set_request j (request_next ops aops collect client t (sv_requests sv ! j) (sv_store sv)) sv"
    | j cached where "ev = Drop j" "j < length (sv_requests sv)" "rk_stage (sv_requests sv ! j) = Looked cached"
        "sv' = set_request j (Abandoned, sv_store sv) sv"
    | task now client_ip host path r s where "ev = Insert task now client_ip host path" "task \<in> set (sv_tasks sv)"
        "run_insert_task aops now task (sv_store sv) = Some (r, s)" "sv' = sv\<lparr>sv_store := s, sv_tasks := remove1 task (sv_tasks sv)\<rparr>"
    | i err where "ev = Close i err" "i < length (sv_conns sv)" "sv' = set_stage i (Closed, sv_store sv) sv"
proof (cases ev)
  case (Reload env)
  then show ?thesis using assms by (auto intro: that(1) split: if_splits)
next
  case (Accept peer stream)
  then show ?thesis using assms by (auto intro: that(2) split: outcome.splits)
next
  case (AcceptError worker e)
  then show ?thesis using assms by (auto intro: that(3))
next
  case (CheckPeer i t)
  then show ?thesis using assms by (auto intro: that(4) split: option.splits stage.splits)
next
  case (CheckResolved i t)
  then show ?thesis using assms by (auto intro: that(5) split: option.splits stage.splits)
next
  case (Handshake i t err)
  then show ?thesis using assms by (auto intro: that(6) split: option.splits stage.splits)
next
  case (Arrive i req)
  then show ?thesis using assms by (auto intro: that(7) split: option.splits stage.splits outcome.splits)
next
  case (Proceed j t collect client duration)
  then show ?thesis using assms by (auto simp: req_stage_def intro: that(8) split: if_splits)
next
  case (Drop j)
  then show ?thesis using assms by (auto intro: that(9) split: option.splits request_stage.splits)
next
  case (Insert task now client_ip host path)
  then show ?thesis using assms by (auto intro: that(10) split: if_splits option.splits)
next
  case (TunnelEnd peer up r1 r2 r3)
  then show ?thesis using assms by (auto intro: that(3))
next
  case (Close i err)
  then show ?thesis using assms by (auto intro: that(11) split: if_splits)
qed

section \<open>Runs\<close>

lemma exec_run_append:
  "exec_run ops aops min_buf (evs @ evs') sv = Option.bind (exec_run ops aops min_buf evs sv) (exec_run ops aops min_buf evs')"
proof (induction evs arbitrary: sv)
  case (Cons ev evs)
  then show ?case by (cases "exec_event ops aops min_buf ev sv") simp_all
qed simp

lemma run_labels_append:
  "exec_run ops aops min_buf evs sv = Some sv1 \<Longrightarrow>
   run_labels ops aops min_buf label (evs @ evs') sv =
     run_labels ops aops min_buf label evs sv @ run_labels ops aops min_buf label evs' sv1"
  by (induction evs arbitrary: sv) (auto simp: bind_eq_Some_conv)

text \<open>
  A property of runs that holds at their start and is kept by each event, in the states the earlier events lead to.
\<close>

lemma exec_run_induct [consumes 1, case_names start event]:
  assumes "exec_run ops aops min_buf evs sv0 = Some sv" and "P [] sv0"
    and "\<And>evs sv ev sv'. exec_run ops aops min_buf evs sv0 = Some sv \<Longrightarrow> P evs sv \<Longrightarrow>
      exec_event ops aops min_buf ev sv = Some sv' \<Longrightarrow> P (evs @ [ev]) sv'"
  shows "P evs sv"
  using assms(1)
proof (induction evs arbitrary: sv rule: rev_induct)
  case Nil
  then show ?case using assms(2) by simp
next
  case (snoc ev evs)
  then obtain sv1 where "exec_run ops aops min_buf evs sv0 = Some sv1" "exec_event ops aops min_buf ev sv1 = Some sv"
    by (auto simp: exec_run_append bind_eq_Some_conv)
  then show ?case using assms(3) snoc.IH by blast
qed

lemma run_labels_snoc:
  "exec_run ops aops min_buf evs sv = Some sv1 \<Longrightarrow>
   run_labels ops aops min_buf label (evs @ [ev]) sv = run_labels ops aops min_buf label evs sv @ label ev sv1"
  by (simp add: run_labels_append split: option.splits)

section \<open>Events and steps\<close>

lemma exec_event_step:
  assumes "exec_event ops aops min_buf ev sv = Some sv'" and "event_env envs ev"
  shows "(server_step envs ops aops min_buf)\<^sup>=\<^sup>= sv sv'"
  using assms by (cases rule: exec_event_cases) (auto intro: server_step.intros)

lemma server_step_event:
  "server_step envs ops aops min_buf sv sv' \<Longrightarrow> \<exists>ev. event_env envs ev \<and> exec_event ops aops min_buf ev sv = Some sv'"
proof (induction rule: server_step.induct)
  case (step_reload env sv)
  then show ?case by (intro exI [of _ "Reload env"]) simp
next
  case (step_accept sv ac peer stream)
  then show ?case by (intro exI [of _ "Accept peer stream"]) simp
next
  case (step_check_peer i sv stream t)
  then show ?case by (intro exI [of _ "CheckPeer i t"]) (simp add: conn_stage_def)
next
  case (step_check_resolved i sv ps addr pp t)
  then show ?case by (intro exI [of _ "CheckResolved i t"]) (simp add: conn_stage_def)
next
  case (step_handshake i sv ps addr pp t ok)
  then show ?case by (intro exI [of _ "Handshake i t (if ok then None else Some [])"]) (simp add: conn_stage_def)
next
  case (step_request i sv addr pp limits ac req)
  then show ?case by (intro exI [of _ "Arrive i req"]) (simp add: conn_stage_def)
next
  case (step_request_next j sv collect client t)
  then show ?case by (intro exI [of _ "Proceed j t collect client []"]) (simp add: req_stage_def)
next
  case (step_abandon j sv cached)
  then show ?case by (intro exI [of _ "Drop j"]) (simp add: req_stage_def)
next
  case (step_insert task sv now r s)
  then show ?case by (intro exI [of _ "Insert task now [] [] []"]) simp
next
  case (step_close i sv)
  then show ?case by (intro exI [of _ "Close i None"]) simp
qed

lemma exec_run_steps:
  assumes "exec_run ops aops min_buf evs sv = Some sv'" and "list_all (event_env envs) evs"
  shows "(server_step envs ops aops min_buf)\<^sup>*\<^sup>* sv sv'"
proof -
  have "list_all (event_env envs) evs \<longrightarrow> (server_step envs ops aops min_buf)\<^sup>*\<^sup>* sv sv'"
    using assms(1)
  proof (induction rule: exec_run_induct)
    case (event evs sv ev sv')
    then show ?case using exec_event_step [of ops aops min_buf ev sv sv' envs] by (auto intro: rtranclp.rtrancl_into_rtrancl)
  qed simp
  then show ?thesis using assms(2) by simp
qed

lemma steps_exec_run:
  "(server_step envs ops aops min_buf)\<^sup>*\<^sup>* sv sv' \<Longrightarrow>
   \<exists>evs. list_all (event_env envs) evs \<and> exec_run ops aops min_buf evs sv = Some sv'"
proof (induction rule: rtranclp_induct)
  case base
  then show ?case by (intro exI [of _ "[]"]) simp
next
  case (step sv1 sv2)
  then obtain evs ev where "list_all (event_env envs) (evs @ [ev])" "exec_run ops aops min_buf (evs @ [ev]) sv = Some sv2"
    using server_step_event [OF step(2)] by (auto simp: exec_run_append)
  then show ?case by blast
qed

text \<open>A server that has been started, with the configuration it has read.\<close>

definition server_started ::
  "('file, 'cert, 'priv, 'key, 'h, 'b) environment set \<Rightarrow> ('c, 'h) asset_ops \<Rightarrow> Config \<Rightarrow> ('key, 'c, 'h, 'b) Server \<Rightarrow> bool" where
  "server_started envs aops config sv \<longleftrightarrow>
     (\<exists>env\<in>envs. load_config_from_path env (sv_config_path sv) = Inr config \<and>
        server_new env aops config (sv_config_path sv) = Returned (Inr sv))"

text \<open>A run of a server that was started with \<open>config\<close> in the state \<open>sv0\<close>.\<close>

definition server_run ::
  "('file, 'cert, 'priv, 'key, 'h, 'b) environment set \<Rightarrow> ('h, 'v) http_ops \<Rightarrow> ('c, 'h) asset_ops \<Rightarrow> nat \<Rightarrow> Config \<Rightarrow>
   ('key, 'c, 'h, 'b) Server \<Rightarrow> ('file, 'cert, 'priv, 'key, 'h, 'b) server_event list \<Rightarrow> ('key, 'c, 'h, 'b) Server \<Rightarrow> bool" where
  "server_run envs ops aops min_buf config sv0 evs sv \<longleftrightarrow>
     server_started envs aops config sv0 \<and> list_all (event_env envs) evs \<and> exec_run ops aops min_buf evs sv0 = Some sv"

lemma server_run_induct [consumes 1, case_names start event]:
  assumes "server_run envs ops aops min_buf config sv0 evs sv" and "server_started envs aops config sv0 \<Longrightarrow> P [] sv0"
    and "\<And>evs sv ev sv'. server_run envs ops aops min_buf config sv0 evs sv \<Longrightarrow> P evs sv \<Longrightarrow> event_env envs ev \<Longrightarrow>
      exec_event ops aops min_buf ev sv = Some sv' \<Longrightarrow> P (evs @ [ev]) sv'"
  shows "P evs sv"
proof -
  have "exec_run ops aops min_buf evs sv0 = Some sv" using assms(1) by (simp add: server_run_def)
  then have "list_all (event_env envs) evs \<longrightarrow> P evs sv"
    by (induction rule: exec_run_induct) (use assms in \<open>auto simp: server_run_def\<close>)
  then show ?thesis using assms(1) by (simp add: server_run_def)
qed

lemma server_run_labels:
  "server_run envs ops aops min_buf config sv0 evs sv \<Longrightarrow>
   run_labels ops aops min_buf label (evs @ [ev]) sv0 = run_labels ops aops min_buf label evs sv0 @ label ev sv"
  by (simp add: server_run_def run_labels_snoc)

lemma server_run_snoc:
  "server_run envs ops aops min_buf config sv0 evs sv \<Longrightarrow> event_env envs ev \<Longrightarrow> exec_event ops aops min_buf ev sv = Some sv' \<Longrightarrow>
   server_run envs ops aops min_buf config sv0 (evs @ [ev]) sv'"
  by (simp add: server_run_def exec_run_append)

lemma server_new_path: "server_new env aops config path = Returned (Inr sv) \<Longrightarrow> sv_config_path sv = path"
  by (auto simp: server_new_def split: prod.splits outcome.splits sum.splits)

lemma reachable_run:
  "server_reachable envs ops aops min_buf sv \<longleftrightarrow>
   (\<exists>config sv0 evs. server_run envs ops aops min_buf config sv0 evs sv)"
proof
  assume "server_reachable envs ops aops min_buf sv"
  then have "\<exists>config sv0. server_started envs aops config sv0 \<and> (server_step envs ops aops min_buf)\<^sup>*\<^sup>* sv0 sv"
  proof induction
    case (reach_start env path config sv)
    then show ?case using server_new_path [OF reach_start(3)] by (auto simp: server_started_def)
  next
    case (reach_step sv sv')
    then show ?case by (meson rtranclp.rtrancl_into_rtrancl)
  qed
  then show "\<exists>config sv0 evs. server_run envs ops aops min_buf config sv0 evs sv"
    unfolding server_run_def using steps_exec_run by meson
next
  assume "\<exists>config sv0 evs. server_run envs ops aops min_buf config sv0 evs sv"
  then obtain config sv0 where "server_started envs aops config sv0" "(server_step envs ops aops min_buf)\<^sup>*\<^sup>* sv0 sv"
    unfolding server_run_def using exec_run_steps by meson
  then show "server_reachable envs ops aops min_buf sv"
    by (auto simp: server_started_def intro: reachable_steps reach_start)
qed

section \<open>Tasks only move forward\<close>

text \<open>The stages of connections and of requests, ordered by what is left to do.\<close>

instantiation stage :: preorder
begin

definition less_eq_stage :: "stage \<Rightarrow> stage \<Rightarrow> bool" where
  "st \<le> st' \<longleftrightarrow> stage_rank st' \<le> stage_rank st"

definition less_stage :: "stage \<Rightarrow> stage \<Rightarrow> bool" where
  "st < st' \<longleftrightarrow> stage_rank st' < stage_rank st"

instance
  by standard (auto simp: less_eq_stage_def less_stage_def)

end

instantiation request_stage :: (type, type) preorder
begin

definition less_eq_request_stage :: "('a, 'b) request_stage \<Rightarrow> ('a, 'b) request_stage \<Rightarrow> bool" where
  "st \<le> st' \<longleftrightarrow> request_rank st' \<le> request_rank st"

definition less_request_stage :: "('a, 'b) request_stage \<Rightarrow> ('a, 'b) request_stage \<Rightarrow> bool" where
  "st < st' \<longleftrightarrow> request_rank st' < request_rank st"

instance
  by standard (auto simp: less_eq_request_stage_def less_request_stage_def)

end

lemma set_stage_forward:
  assumes "cn_stage (sv_conns sv ! i) \<le> fst r" and "i' < length (sv_conns sv)"
  shows "cn_stage (sv_conns sv ! i') \<le> cn_stage (sv_conns (set_stage i r sv) ! i')"
  using assms by (cases "i = i'") simp_all

lemma conn_steps_forward:
  "Accepted stream \<le> fst (check_peer t stream conn s)"
  "Resolved ps addr pp \<le> fst (check_resolved min_buf shared t ps addr pp conn s)"
  "Handshaking ps addr pp \<le> fst (finish_handshake min_buf shared t ok addr pp conn s)"
  "st \<le> Closed"
  using conn_steps_rank(1) [of t stream conn s] conn_steps_rank(2) [of min_buf shared t ps addr pp conn s]
    conn_steps_rank(3) [of min_buf shared t ok addr pp conn s]
  by (simp_all add: less_eq_stage_def)

lemma exec_event_conns_forward:
  assumes "exec_event ops aops min_buf ev sv = Some sv'" and "i < length (sv_conns sv)"
  shows "i < length (sv_conns sv') \<and> cn_stage (sv_conns sv ! i) \<le> cn_stage (sv_conns sv' ! i)"
  using assms(1)
  by (cases rule: exec_event_cases)
     (use assms(2) conn_steps_forward in \<open>auto simp: reload_def accept_connection_def begin_request_def set_request_def nth_append
      intro!: set_stage_forward split: outcome.splits sum.splits prod.splits\<close>)

lemma exec_event_requests_forward:
  assumes "exec_event ops aops min_buf ev sv = Some sv'" and "j < length (sv_requests sv)"
  shows "j < length (sv_requests sv') \<and> rk_stage (sv_requests sv ! j) \<le> rk_stage (sv_requests sv' ! j)"
proof -
  have "event_env UNIV ev" by (cases ev) simp_all
  from exec_event_step [OF assms(1) this] show ?thesis
    using assms(2) by (auto simp: less_eq_request_stage_def dest: server_step_request_rank)
qed

text \<open>Whatever happens, no connection and no request goes back to an earlier stage or is forgotten.\<close>

lemma exec_run_forward:
  assumes "exec_run ops aops min_buf evs sv = Some sv'"
  shows "(\<forall>i < length (sv_conns sv). i < length (sv_conns sv') \<and> cn_stage (sv_conns sv ! i) \<le> cn_stage (sv_conns sv' ! i)) \<and>
    (\<forall>j < length (sv_requests sv).
       j < length (sv_requests sv') \<and> rk_stage (sv_requests sv ! j) \<le> rk_stage (sv_requests sv' ! j))"
  using assms
proof (induction rule: exec_run_induct)
  case (event evs sv1 ev sv2)
  then show ?case
    using exec_event_conns_forward [OF event(2)] exec_event_requests_forward [OF event(2)] by (meson order_trans)
qed simp

section \<open>Examples\<close>

text \<open>The run of the example server up to the arrival of the example request.\<close>

definition example_events :: "(string, string, string, string, alist_headers, unit) server_event list" where
  "example_events = [Accept example_peer [], CheckPeer 0 2, CheckResolved 0 3, Arrive 0 example_req]"

lemma example_event_steps:
  "exec_event example_http list_lru_ops 8192 (Accept example_peer []) example_server = Some (example_at (Accepted []))"
  "exec_event example_http list_lru_ops 8192 (CheckPeer 0 2) (example_at (Accepted [])) =
     Some (example_at (Resolved (stream_new [] None) example_peer False))"
  "exec_event example_http list_lru_ops 8192 (CheckResolved 0 3) (example_at (Resolved (stream_new [] None) example_peer False)) =
     Some example_served"
  "exec_event example_http list_lru_ops 8192 (Arrive 0 example_req) example_served = Some example_arrived"
  using example_at_steps(2) example_at_steps(3) [of "stream_new [] None"]
  by (simp_all add: example_server_config example_at_steps(1) conn_stage_def example_served_def example_arrived_def)
     (simp add: example_at_def example_server_config)

lemma example_run: "server_run {example_env} example_http list_lru_ops 8192 example_auth_cfg example_server example_events example_arrived"
proof -
  have "sv_config_path example_server = ''proxy.conf''" by (simp add: example_server_def)
  then show ?thesis
    using example_started by (simp add: server_run_def server_started_def example_events_def example_event_steps del: exec_event.simps)
qed

text \<open>A server with TLS that bans an address at its first failed handshake, and a connection whose handshake fails.\<close>

definition example_tls_text :: string where
  "example_tls_text =
     ''listen 443;'' @ [newline] @ ''route https://a {'' @ [newline] @ ''upstream h:80;'' @ [newline] @ ''cert c;'' @ [newline] @
     ''key k;'' @ [newline] @ ''}'' @ [newline] @
     ''security {'' @ [newline] @ ''max_tls_failures 0;'' @ [newline] @ ''}'' @ [newline]"

definition example_tls_cfg :: Config where
  "example_tls_cfg =
     \<lparr>cfg_listen_port = 443,
      cfg_routes = [\<lparr>rt_request_endpoint = ''https://a'', rt_forward_endpoint = ''h:80'', rt_auth_required = False,
        rt_cert_path = Some ''c'', rt_key_path = Some ''k'', rt_cache = None, rt_intercept_errors = None\<rparr>],
      cfg_workers = 4, cfg_logfile = None,
      cfg_security = Some \<lparr>sec_proxy_protocol = False, sec_trusted_upstream = V4 0 0 0 0, sec_timeout_ms = 200,
        sec_max_tls_failures = 0, sec_ban_duration_sec = 3600, sec_rate_limit_rpm = 300,
        sec_forward_auth = None, sec_max_body_size = 10485760, sec_max_header_size = 65536\<rparr>,
      cfg_cache = None, cfg_intercept_errors = None\<rparr>"

lemma example_tls_lines:
  "config_lines example_tls_text =
     [''listen 443;'', ''route https://a {'', ''upstream h:80;'', ''cert c;'', ''key k;'', ''}'', ''security {'',
      ''max_tls_failures 0;'', ''}'']"
  by (simp add: example_tls_text_def config_lines_eval)

lemma example_tls_parses: "parse_proxy_config (Some 4) example_tls_text = Inr example_tls_cfg"
  unfolding parse_proxy_config_def example_tls_lines example_tls_cfg_def
  by (simp add: parser_eval)

definition example_tls_env :: "(string, string, string, string, alist_headers, unit) environment" where
  "example_tls_env = example_env\<lparr>env_read_to_string := (\<lambda>path. Inr example_tls_text)\<rparr>"

definition example_tls_ac :: "(string, alist_headers, unit) ActiveConfig" where
  "example_tls_ac =
     \<lparr>ac_generation = 0, ac_router = \<lparr>router_routes = cfg_routes example_tls_cfg\<rparr>,
      ac_tls_acceptor = Some \<lparr>ta_resolver = \<lparr>exact_match = [''a'' \<mapsto> ''ck'']\<rparr>, ta_alpn_protocols = [''h2'', ''http/1.1'']\<rparr>,
      ac_logfile = None, ac_security = cfg_security example_tls_cfg, ac_security_manager = 0, ac_auth_provider = None,
      ac_cache_config = None, ac_cache_engine = None, ac_global_intercept_errors = False\<rparr>"

definition example_tls_server :: "(string, (string, alist_headers CachedAsset) list_lru, alist_headers, unit) Server" where
  "example_tls_server =
     \<lparr>sv_port = 443, sv_config_path = ''proxy.conf'', sv_shared = create_config_store example_tls_ac, sv_workers = 4,
      sv_store = \<lparr>st_managers = [from_security_config (cfg_security example_tls_cfg)], st_engines = []\<rparr>,
      sv_log = None, sv_generation = 0, sv_reloading = True, sv_conns = [], sv_requests = [], sv_tasks = []\<rparr>"

lemma example_tls_started: "server_started {example_tls_env} list_lru_ops example_tls_cfg example_tls_server"
proof -
  have "load_config_from_path example_tls_env ''proxy.conf'' = Inr example_tls_cfg"
    by (simp add: load_config_from_path_def example_tls_env_def example_env_def map_err_def example_tls_parses)
  moreover have "server_new example_tls_env list_lru_ops example_tls_cfg ''proxy.conf'' = Returned (Inr example_tls_server)"
    by (simp add: server_new_def build_active_config_def alloc_manager_def build_auth_provider_def build_cache_engine_def
        update_log_file_def example_tls_cfg_def example_tls_env_def example_env_def example_tls_server_def example_tls_ac_def
        example_tls_def tls_eval str_eval)
  moreover have "sv_config_path example_tls_server = ''proxy.conf''" by (simp add: example_tls_server_def)
  ultimately show ?thesis by (simp add: server_started_def)
qed

definition example_tls_at ::
  "SecurityManager \<Rightarrow> stage list \<Rightarrow> (string, (string, alist_headers CachedAsset) list_lru, alist_headers, unit) Server" where
  "example_tls_at m sts = example_tls_server\<lparr>sv_store := \<lparr>st_managers = [m], st_engines = []\<rparr>,
     sv_conns := map (\<lambda>st. \<lparr>cn_peer = example_peer, cn_config = example_tls_ac, cn_stage = st\<rparr>) sts\<rparr>"

definition example_banned :: SecurityManager where
  "example_banned = (from_security_config (cfg_security example_tls_cfg))\<lparr>
     tls_failures := [V4 1 2 3 4 \<mapsto> [4]], blacklist := [V4 1 2 3 4 \<mapsto> 4 + from_secs 3600]\<rparr>"

definition example_tls_events :: "(string, string, string, string, alist_headers, unit) server_event list" where
  "example_tls_events = [Accept example_peer [], CheckPeer 0 2, CheckResolved 0 3, Handshake 0 4 (Some ''eof''), Accept example_peer []]"

abbreviation example_fresh :: SecurityManager where
  "example_fresh \<equiv> from_security_config (cfg_security example_tls_cfg)"

lemma example_tls_at_fields [simp]:
  "length (sv_conns (example_tls_at m sts)) = length sts" "sv_store (example_tls_at m sts) = \<lparr>st_managers = [m], st_engines = []\<rparr>"
  "i < length sts \<Longrightarrow> sv_conns (example_tls_at m sts) ! i = \<lparr>cn_peer = example_peer, cn_config = example_tls_ac, cn_stage = sts ! i\<rparr>"
  by (simp_all add: example_tls_at_def)

lemma example_tls_set_stage:
  "i < length sts \<Longrightarrow> set_stage i (st, \<lparr>st_managers = [m'], st_engines = []\<rparr>) (example_tls_at m sts) = example_tls_at m' (sts[i := st])"
  by (simp add: set_stage_def example_tls_at_def map_update)

lemma example_tls_steps:
  "example_tls_server = example_tls_at example_fresh []"
  "exec_event example_http list_lru_ops 8192 (Accept example_peer []) (example_tls_at m sts) = Some (example_tls_at m (sts @ [Accepted []]))"
  "exec_event example_http list_lru_ops 8192 (CheckPeer 0 2) (example_tls_at example_fresh [Accepted []]) =
     Some (example_tls_at example_fresh [Resolved (stream_new [] None) example_peer False])"
  "exec_event example_http list_lru_ops 8192 (CheckResolved 0 3) (example_tls_at example_fresh [Resolved ps example_peer False]) =
     Some (example_tls_at example_fresh [Handshaking ps example_peer False])"
  "exec_event example_http list_lru_ops 8192 (Handshake 0 4 (Some ''eof'')) (example_tls_at example_fresh [Handshaking ps example_peer False]) =
     Some (example_tls_at example_banned [Closed])"
proof -
  have m: "example_fresh = security_new (from_secs 3600) 0 300" by (simp add: from_security_config_def example_tls_cfg_def)
  have b: "is_blacklisted t ip example_fresh = (Returned False, example_fresh)" for t ip
    by (simp add: m is_blacklisted_def locked_def security_new_def)
  have f: "record_tls_failure 4 (V4 1 2 3 4) example_fresh = (Returned True, example_banned)"
    by (simp add: example_banned_def m record_tls_failure_def locked_def cleanup_def retain_recent_def track_def security_new_def
        instant_add_def instant_max_def from_secs_def Let_def)
  have r: "resolve_peer [] example_peer (ac_security example_tls_ac) = Resolved (stream_new [] None) example_peer False"
    "ac_security_manager example_tls_ac = 0"
    by (simp_all add: resolve_peer_def handle_proxy_protocol_def example_tls_ac_def example_tls_cfg_def example_peer_def)
  show "example_tls_server = example_tls_at example_fresh []"
    by (simp add: example_tls_at_def example_tls_server_def)
  show "exec_event example_http list_lru_ops 8192 (Accept example_peer []) (example_tls_at m sts) =
      Some (example_tls_at m (sts @ [Accepted []]))"
    by (simp add: example_tls_at_def example_tls_server_def create_config_store_def config_load_def accept_connection_def)
  show "exec_event example_http list_lru_ops 8192 (CheckPeer 0 2) (example_tls_at example_fresh [Accepted []]) =
      Some (example_tls_at example_fresh [Resolved (stream_new [] None) example_peer False])"
    by (simp add: conn_stage_def check_peer_def with_manager_def b example_tls_set_stage r)
  show "exec_event example_http list_lru_ops 8192 (CheckResolved 0 3) (example_tls_at example_fresh [Resolved ps example_peer False]) =
      Some (example_tls_at example_fresh [Handshaking ps example_peer False])"
    by (simp add: conn_stage_def check_resolved_def with_manager_def b example_tls_set_stage example_tls_ac_def)
  show "exec_event example_http list_lru_ops 8192 (Handshake 0 4 (Some ''eof'')) (example_tls_at example_fresh [Handshaking ps example_peer False]) =
      Some (example_tls_at example_banned [Closed])"
    by (simp add: conn_stage_def finish_handshake_def with_manager_def f example_peer_def example_tls_set_stage example_tls_ac_def)
qed

lemma example_tls_run:
  "server_run {example_tls_env} example_http list_lru_ops 8192 example_tls_cfg example_tls_server example_tls_events
     (example_tls_at example_banned [Closed, Accepted []])"
  using example_tls_started
  by (simp add: server_run_def example_tls_events_def example_tls_steps del: exec_event.simps)

end
