(* ===== verification/Server_Limits.thy ===== *)
theory Server_Limits
  imports Server_Events
begin

text \<open>
  The rate limit and the bans of the server as a whole. The tasks of all connections and requests call the
  one security manager in any order, across reloads. The calls a run of the server has made are a list
  that grows with its steps; what the manager decides is a function of this list.
\<close>

section \<open>Events with the calls they make\<close>

text \<open>The call of the security manager that a piece of a request makes.\<close>

definition request_calls :: "('h, 'v) http_ops \<Rightarrow> Instant \<Rightarrow> ('key, 'h, 'b) request_task \<Rightarrow> (Instant \<times> sec_op) list" where
  "request_calls ops t k =
     (case parse_ip_addr (rk_client_ip ops k) of
        None \<Rightarrow> []
      | Some ip \<Rightarrow>
          (case rk_stage k of
             Arrived \<Rightarrow> [(t, IsBlacklisted ip)]
           | Unbanned \<Rightarrow> [(t, CheckAndRecordRequest ip)]
           | _ \<Rightarrow> []))"

text \<open>The calls an event makes, and those of a run.\<close>

fun event_calls ::
  "('h, 'v) http_ops \<Rightarrow> ('file, 'cert, 'priv, 'key, 'h, 'b) server_event \<Rightarrow> ('key, 'c, 'h, 'b) Server \<Rightarrow>
   (Instant \<times> sec_op) list" where
  "event_calls ops (CheckPeer i t) sv = [(t, IsBlacklisted (sa_ip (cn_peer (sv_conns sv ! i))))]"
| "event_calls ops (CheckResolved i t) sv =
     (case conn_stage sv i of
        Some (Resolved ps addr pp) \<Rightarrow> [(t, IsBlacklisted (sa_ip addr))]
      | _ \<Rightarrow> [])"
| "event_calls ops (Handshake i t err) sv =
     (case conn_stage sv i of
        Some (Handshaking ps addr pp) \<Rightarrow> (if err = None then [] else [(t, RecordTlsFailure (sa_ip addr))])
      | _ \<Rightarrow> [])"
| "event_calls ops (Proceed j t collect client duration) sv = request_calls ops t (sv_requests sv ! j)"
| "event_calls ops ev sv = []"

definition run_calls ::
  "('h, 'v) http_ops \<Rightarrow> ('c, 'h) asset_ops \<Rightarrow> nat \<Rightarrow> ('file, 'cert, 'priv, 'key, 'h, 'b) server_event list \<Rightarrow>
   ('key, 'c, 'h, 'b) Server \<Rightarrow> (Instant \<times> sec_op) list" where
  "run_calls ops aops min_buf evs sv = run_labels ops aops min_buf (event_calls ops) evs sv"

lemma run_calls_simps:
  "run_calls ops aops min_buf [] sv = []"
  "server_run envs ops aops min_buf config sv evs sv1 \<Longrightarrow>
   run_calls ops aops min_buf (evs @ [ev]) sv = run_calls ops aops min_buf evs sv @ event_calls ops ev sv1"
  by (simp_all add: run_calls_def server_run_labels)

section \<open>The state of the manager\<close>

lemma snd_answer_with [simp]: "snd (answer_with f r) = snd r"
  by (cases "(f, r)" rule: answer_with.cases) simp_all

text \<open>With one manager in the store, an operation through reference 0 is an operation of this manager.\<close>

lemma with_manager_single:
  "st_managers s = [m] \<Longrightarrow> with_manager 0 f s = (fst (f m), s\<lparr>st_managers := [snd (f m)]\<rparr>)"
  by (simp add: with_manager_def case_prod_beta Let_def)

lemma request_next_managers:
  assumes "st_managers s = [m]" and "ac_security_manager (rk_config k) = 0" and "request_open (rk_stage k)"
  shows "st_managers (snd (request_next ops aops collect client t k s)) = [snd (run sec_step (request_calls ops t k) m)]"
proof (cases "rk_stage k")
  case Admitted
  then show ?thesis
    using assms(1) by (simp add: request_next_def request_calls_def lookup_request_def cache_lookup_def Let_def
        split: option.splits prod.splits)
qed (use assms in \<open>auto simp: request_next_def request_calls_def ban_check_def rate_check_def with_manager_single Let_def
    split: option.splits outcome.splits bool.splits sum.splits\<close>)

context asset_cache
begin

lemma exec_event_managers:
  assumes "exec_event hops ops min_buf ev sv = Some sv'" and "server_inv valid entries sv"
    and "st_managers (sv_store sv) = [m]"
  shows "st_managers (sv_store sv') = [snd (run sec_step (event_calls hops ev sv) m)]"
proof -
  have c: "ac_security_manager (cn_config (sv_conns sv ! i)) = 0" if "i < length (sv_conns sv)" for i
    using assms(2) that by (simp add: server_inv_def list_all_length config_ok_def)
  have k: "ac_security_manager (rk_config (sv_requests sv ! j)) = 0" if "j < length (sv_requests sv)" for j
    using assms(2) that by (simp add: server_inv_def list_all_length config_ok_def)
  show ?thesis
    using assms(1)
  proof (cases rule: exec_event_cases)
    case (reload env)
    then show ?thesis
      using assms(3) by (auto simp: reload_def dest!: load_active_config_managers split: outcome.splits sum.splits prod.splits)
  next
    case (insert task now client_ip host path r s)
    then show ?thesis using assms(3) by (auto simp: run_insert_task_def split: option.splits)
  next
    case (proceed j t collect client duration)
    then show ?thesis using request_next_managers [OF assms(3) k] by (simp add: set_request_def)
  qed (use assms(3) c in \<open>auto simp: accept_connection_def begin_request_def set_stage_def set_request_def check_peer_def
      check_resolved_def finish_handshake_def conn_stage_def with_manager_single split: outcome.splits bool.splits option.splits\<close>)
qed

lemma run_inv:
  assumes "server_run envs hops ops min_buf config sv0 evs sv"
    and "\<And>env. env \<in> envs \<Longrightarrow> pred_option (\<lambda>n. 1 \<le> n \<and> n \<le> usize_max) (env_parallelism env)"
  shows "server_inv valid entries sv"
proof (rule reachable_inv [OF _ assms(2)])
  show "server_reachable envs hops ops min_buf sv"
    using assms(1) reachable_run by blast
qed

lemma server_new_manager:
  "server_new env ops config path = Returned (Inr sv) \<Longrightarrow> st_managers (sv_store sv) = [from_security_config (cfg_security config)]"
  by (auto simp: server_new_def build_active_config_def alloc_manager_def Let_def dest!: build_cache_engine_spec
      split: prod.splits outcome.splits sum.splits)

lemma run_manager:
  assumes "server_run envs hops ops min_buf config sv0 evs sv"
    and "\<And>env. env \<in> envs \<Longrightarrow> pred_option (\<lambda>n. 1 \<le> n \<and> n \<le> usize_max) (env_parallelism env)"
  shows "st_managers (sv_store sv) =
    [snd (run sec_step (run_calls hops ops min_buf evs sv0) (from_security_config (cfg_security config)))]"
  using assms(1)
proof (induction rule: server_run_induct)
  case start
  then obtain env where "env \<in> envs" "server_new env ops config (sv_config_path sv0) = Returned (Inr sv0)"
    by (auto simp: server_started_def)
  then show ?case using server_new_manager by (simp add: run_calls_simps)
next
  case (event evs sv ev sv')
  from exec_event_managers [OF event.hyps(3) run_inv [OF event.hyps(1) assms(2)] event.IH]
  show ?case by (simp add: run_calls_simps(2) [OF event.hyps(1)] run_append_proj)
qed

end

section \<open>What the manager decides\<close>

text \<open>The clock of a run does not go back, and bans end within the range of an \<open>Instant\<close>.\<close>

definition timely :: "Duration \<Rightarrow> (Instant \<times> sec_op) list \<Rightarrow> bool" where
  "timely ban xs \<longleftrightarrow> sorted (map fst xs) \<and> list_all (\<lambda>x. fst x + ban \<le> instant_max) xs"

lemma sec_spec_clock [simp]: "clock (snd (sec_spec x h)) = fst x" "spec_ban (snd (sec_spec x h)) = spec_ban h"
  by (cases "(x, h)" rule: sec_spec.cases; simp add: Let_def)+

lemma timely_enabled: "timely ban xs \<Longrightarrow> enabled_run sec_enabled sec_spec xs (history_new ban mx rpm)"
proof -
  have "enabled_run sec_enabled sec_spec xs h"
    if "timely (spec_ban h) xs" "\<forall>x\<in>set xs. clock h \<le> fst x" for h
    using that by (induction xs arbitrary: h) (auto simp: timely_def sec_enabled_def)
  then show "timely ban xs \<Longrightarrow> enabled_run sec_enabled sec_spec xs (history_new ban mx rpm)"
    by (simp add: history_new_def)
qed

lemma last_run: "last (fst (run step (xs @ [x]) s)) = fst (step x (snd (run step xs s)))"
  by (simp add: run_append_proj)

lemma from_security_config_limits:
  "limits = from_security_config sec \<Longrightarrow>
   security_new (ban_duration limits) (max_tls_failures limits) (rate_limit_rpm limits) = limits"
  by (simp add: from_security_config_def security_default_def security_new_def split: option.splits)

lemma answer_with_Returned: "fst (answer_with f r) = Returned y \<longleftrightarrow> (\<exists>x. fst r = Returned x \<and> y = f x)"
  by (cases "(f, r)" rule: answer_with.cases) auto

text \<open>The server itself never calls \<open>add_to_blacklist\<close>.\<close>

lemma run_calls_explicit:
  "server_run envs ops aops min_buf config sv0 evs sv \<Longrightarrow> (t, AddToBlacklist ip) \<notin> set (run_calls ops aops min_buf evs sv0)"
proof (induction rule: server_run_induct)
  case (event evs sv ev sv')
  have "(t, AddToBlacklist ip) \<notin> set (event_calls ops ev sv)"
    by (cases ev) (auto simp: request_calls_def split: option.splits request_stage.splits stage.splits)
  then show ?case using event.IH by (simp add: run_calls_simps(2) [OF event.hyps(1)])
qed (simp add: run_calls_simps)

text \<open>
  A ban of the address is in force: a failed handshake that was more than the allowed number within 60
  seconds is not longer ago than the ban lasts.
\<close>

definition ban_in_force :: "SecurityManager \<Rightarrow> (Instant \<times> sec_op) list \<Rightarrow> Instant \<Rightarrow> IpAddr \<Rightarrow> bool" where
  "ban_in_force limits xs now ip \<longleftrightarrow>
     (\<exists>i < length xs. snd (xs ! i) = RecordTlsFailure ip \<and>
        max_tls_failures limits < Suc (calls_within (RecordTlsFailure ip) (fst (xs ! i)) (take i xs)) \<and>
        now < fst (xs ! i) + ban_duration limits)"

context asset_cache
begin

lemma run_blacklisted:
  assumes "server_run envs hops ops min_buf config sv0 evs sv"
    and "\<And>env. env \<in> envs \<Longrightarrow> pred_option (\<lambda>n. 1 \<le> n \<and> n \<le> usize_max) (env_parallelism env)"
    and "limits = from_security_config (cfg_security config)" and "xs = run_calls hops ops min_buf evs sv0"
    and "timely (ban_duration limits) (xs @ [(t, IsBlacklisted ip)])"
  shows "fst (is_blacklisted t ip (st_managers (sv_store sv) ! 0)) = Returned (ban_in_force limits xs t ip)"
proof -
  let ?m = "snd (run sec_step xs limits)"
  have "last (fst (run sec_step (xs @ [(t, IsBlacklisted ip)]) limits)) =
      Returned (Verdict (\<exists>i < length xs. bans_at (max_tls_failures limits) ip xs i \<and> t < fst (xs ! i) + ban_duration limits))"
    using blacklist_exact [OF timely_enabled [OF assms(5)], where mx = "max_tls_failures limits" and rpm = "rate_limit_rpm limits"]
    by (simp only: from_security_config_limits [OF assms(3)])
  moreover have "bans_at (max_tls_failures limits) ip xs i \<longleftrightarrow> snd (xs ! i) = RecordTlsFailure ip \<and>
      max_tls_failures limits < Suc (calls_within (RecordTlsFailure ip) (fst (xs ! i)) (take i xs))" if "i < length xs" for i
    using run_calls_explicit [OF assms(1), of "fst (xs ! i)" ip] nth_mem [OF that] unfolding assms(4) [symmetric]
    by (cases "xs ! i") (auto simp: bans_at_def)
  ultimately have "fst (answer_with Verdict (is_blacklisted t ip ?m)) = Returned (Verdict (ban_in_force limits xs t ip))"
    unfolding last_run ban_in_force_def by auto
  then show ?thesis
    using run_manager [OF assms(1,2)] by (simp add: answer_with_Returned assms(3,4))
qed

lemma run_limited:
  assumes "server_run envs hops ops min_buf config sv0 evs sv"
    and "\<And>env. env \<in> envs \<Longrightarrow> pred_option (\<lambda>n. 1 \<le> n \<and> n \<le> usize_max) (env_parallelism env)"
    and "limits = from_security_config (cfg_security config)" and "0 < rate_limit_rpm limits"
    and "xs = run_calls hops ops min_buf evs sv0" and "timely (ban_duration limits) (xs @ [(t, CheckAndRecordRequest ip)])"
    and "n = Suc (calls_within (CheckAndRecordRequest ip) t xs)"
  shows "fst (check_and_record_request t ip (st_managers (sv_store sv) ! 0)) =
    Returned (if n > rate_limit_rpm limits then Inl n else Inr n)"
proof -
  have "last (fst (run sec_step (xs @ [(t, CheckAndRecordRequest ip)]) limits)) =
      Returned (Limit (if n > rate_limit_rpm limits then Inl n else Inr n))"
    using rate_limit_sliding_window [OF assms(4) timely_enabled [OF assms(6)] assms(7), where mx = "max_tls_failures limits"]
    by (simp only: from_security_config_limits [OF assms(3)])
  then have "fst (answer_with Limit (check_and_record_request t ip (snd (run sec_step xs limits)))) =
      Returned (Limit (if n > rate_limit_rpm limits then Inl n else Inr n))"
    unfolding last_run by simp
  then show ?thesis
    using run_manager [OF assms(1,2)] by (simp add: answer_with_Returned assms(3,5) split: if_splits)
qed

end

section \<open>Properties\<close>

text \<open>
  C4: the rate limit holds for the server as a whole. In any run, whatever the interleaving of connections,
  workers, requests and reloads, a request that comes to the rate check from an address passes it exactly if fewer
  requests than the limit of the configuration the server was started with came to this check from the same address
  within the last 60 seconds, and gets the answer 429 otherwise.
\<close>

theorem server_rate_limit:
  fixes k :: "('key, 'h, 'b) request_task"
  assumes "asset_cache aops valid entries capacity" and "server_run envs ops aops min_buf config sv0 evs sv"
    and "\<And>env. env \<in> envs \<Longrightarrow> pred_option (\<lambda>n. 1 \<le> n \<and> n \<le> usize_max) (env_parallelism env)"
    and "limits = from_security_config (cfg_security config)" and "0 < rate_limit_rpm limits"
    and "k \<in> set (sv_requests sv)" and "rk_stage k = Unbanned" and "parse_ip_addr (rk_client_ip ops k) = Some ip"
    and "timely (ban_duration limits) (run_calls ops aops min_buf evs sv0 @ request_calls ops t k)"
  shows "fst (request_next ops aops collect client t k (sv_store sv)) =
    (if calls_within (CheckAndRecordRequest ip) t (run_calls ops aops min_buf evs sv0) < rate_limit_rpm limits then Admitted
     else Answered (Returned (respond (rate_limited_response ops (rk_client_ip ops k)
       (request_host ops (rq_uri (rk_request k)) (rq_headers (rk_request k))) (rq_headers (rk_request k))))))"
proof -
  have "server_inv valid entries sv" using asset_cache.run_inv [OF assms(1-3)] .
  then have m: "ac_security_manager (rk_config k) = 0" using assms(6) by (auto simp: server_inv_def list_all_iff config_ok_def)
  have "request_calls ops t k = [(t, CheckAndRecordRequest ip)]" using assms(7,8) by (simp add: request_calls_def)
  then have "timely (ban_duration limits) (run_calls ops aops min_buf evs sv0 @ [(t, CheckAndRecordRequest ip)])" using assms(9) by simp
  from asset_cache.run_limited [OF assms(1-5) refl this refl] show ?thesis
    using assms(7,8) by (auto simp: request_next_def rate_check_def with_manager_def m Let_def less_Suc_eq_le split: prod.splits)
qed

text \<open>
  C5: bans hold for the server as a whole. In any run a new connection is closed at its first check, and a request is
  answered with an empty 444 at its first check, exactly if a ban of its address is in force: some failed handshake of the
  address, on any connection and under any configuration, was more than the number within 60 seconds that the configuration
  the server was started with allows, and less than the duration of a ban has passed since. A connection whose address
  comes from a PROXY header is closed in this case too.
\<close>

theorem server_bans:
  assumes "asset_cache aops valid entries capacity" and "server_run envs ops aops min_buf config sv0 evs sv"
    and "\<And>env. env \<in> envs \<Longrightarrow> pred_option (\<lambda>n. 1 \<le> n \<and> n \<le> usize_max) (env_parallelism env)"
    and "limits = from_security_config (cfg_security config)" and "xs = run_calls ops aops min_buf evs sv0"
    and "timely (ban_duration limits) (xs @ [(t, IsBlacklisted ip)])"
  shows "(\<forall>conn stream. conn \<in> set (sv_conns sv) \<longrightarrow> sa_ip (cn_peer conn) = ip \<longrightarrow>
      fst (check_peer t stream conn (sv_store sv)) =
        (if ban_in_force limits xs t ip then Closed else resolve_peer stream (cn_peer conn) (ac_security (cn_config conn)))) \<and>
    (\<forall>conn shared ps addr pp. conn \<in> set (sv_conns sv) \<longrightarrow> sa_ip addr = ip \<longrightarrow> ban_in_force limits xs t ip \<longrightarrow>
      fst (check_resolved min_buf shared t ps addr pp conn (sv_store sv)) = Closed) \<and>
    (\<forall>k collect client. k \<in> set (sv_requests sv) \<longrightarrow> rk_stage k = Arrived \<longrightarrow> parse_ip_addr (rk_client_ip ops k) = Some ip \<longrightarrow>
      fst (request_next ops aops collect client t k (sv_store sv)) =
        (if ban_in_force limits xs t ip then Answered (Returned (respond (no_response_444 ops))) else Unbanned))"
proof -
  have "server_inv valid entries sv" using asset_cache.run_inv [OF assms(1-3)] .
  then have "conn \<in> set (sv_conns sv) \<Longrightarrow> ac_security_manager (cn_config conn) = 0"
    "k \<in> set (sv_requests sv) \<Longrightarrow> ac_security_manager (rk_config k) = 0" for conn k
    by (auto simp: server_inv_def list_all_iff config_ok_def)
  with asset_cache.run_blacklisted [OF assms] show ?thesis
    by (auto simp: check_peer_def check_resolved_def request_next_def ban_check_def with_manager_def Let_def
        split: prod.splits bool.splits)
qed

section \<open>Examples\<close>

lemma example_calls:
  "run_calls example_http list_lru_ops 8192 example_events example_server =
     [(2, IsBlacklisted (V4 1 2 3 4)), (3, IsBlacklisted (V4 1 2 3 4))]"
  by (simp add: run_calls_def example_events_def example_event_steps del: exec_event.simps)
     (simp add: conn_stage_def example_peer_def)

lemma example_unbanned:
  "fst (request_next example_http list_lru_ops example_collect (example_client 200) 11 example_arrival example_store') = Unbanned"
  by (simp add: request_next_def ban_check_def rk_client_ip_def example_client_ip example_ip example_store'_def manager_eval Let_def)

lemma example_arrival_ip: "rk_peer k = example_peer \<Longrightarrow> \<not> rk_proxied k \<Longrightarrow> rk_request k = example_req \<Longrightarrow>
  parse_ip_addr (rk_client_ip example_http k) = Some (V4 1 2 3 4)"
  by (simp add: rk_client_ip_def example_client_ip example_ip)

text \<open>The example request passes its first check; it is the first one from its address and is admitted.\<close>

theorem server_rate_limit_witness:
  "fst (request_next example_http list_lru_ops example_collect (example_client 200) 12 (example_arrival\<lparr>rk_stage := Unbanned\<rparr>)
     (snd (request_next example_http list_lru_ops example_collect (example_client 200) 11 example_arrival example_store'))) = Admitted"
proof -
  let ?next = "request_next example_http list_lru_ops example_collect (example_client 200) 11 example_arrival example_store'"
  let ?ev = "Proceed 0 11 example_collect (example_client 200) []"
  let ?k = "example_arrival\<lparr>rk_stage := Unbanned\<rparr>"
  let ?sv = "example_arrived\<lparr>sv_store := snd ?next, sv_requests := [?k]\<rparr>"
  have "exec_event example_http list_lru_ops 8192 ?ev example_arrived = Some ?sv"
    using example_unbanned by (simp add: req_stage_def set_request_def)
  then have r: "server_run {example_env} example_http list_lru_ops 8192 example_auth_cfg example_server (example_events @ [?ev]) ?sv"
    by (intro server_run_snoc [OF example_run]) simp_all
  have "run_calls example_http list_lru_ops 8192 (example_events @ [?ev]) example_server =
      [(2, IsBlacklisted (V4 1 2 3 4)), (3, IsBlacklisted (V4 1 2 3 4)), (11, IsBlacklisted (V4 1 2 3 4))]"
    by (simp add: run_calls_simps(2) [OF example_run] example_calls request_calls_def example_arrival_ip)
  then show ?thesis
    using server_rate_limit [OF list_asset_cache r, of _ ?k "V4 1 2 3 4" 12 example_collect "example_client 200"]
    by (simp add: example_arrival_ip request_calls_def timely_def example_env_def from_security_config_def example_auth_cfg_def
        security_new_def calls_within_def instant_max_def from_secs_def)
qed

text \<open>An address banned for a failed handshake is turned away at its next connection.\<close>

lemma example_tls_calls:
  "run_calls example_http list_lru_ops 8192 example_tls_events example_tls_server =
     [(2, IsBlacklisted (V4 1 2 3 4)), (3, IsBlacklisted (V4 1 2 3 4)), (4, RecordTlsFailure (V4 1 2 3 4))]"
  by (simp add: run_calls_def example_tls_events_def example_tls_steps del: exec_event.simps)
     (simp add: conn_stage_def example_peer_def)

theorem server_bans_witness:
  "fst (check_peer 5 [] (sv_conns (example_tls_at example_banned [Closed, Accepted []]) ! 1)
     (sv_store (example_tls_at example_banned [Closed, Accepted []]))) = Closed"
proof -
  let ?xs = "[(2, IsBlacklisted (V4 1 2 3 4)), (3, IsBlacklisted (V4 1 2 3 4)), (4, RecordTlsFailure (V4 1 2 3 4))]"
  have limits: "from_security_config (cfg_security example_tls_cfg) = security_new (from_secs 3600) 0 300"
    by (simp add: from_security_config_def example_tls_cfg_def)
  have "ban_in_force (security_new (from_secs 3600) 0 300) ?xs 5 (V4 1 2 3 4)"
    by (simp add: ban_in_force_def security_new_def from_secs_def) (rule exI [of _ 2], simp)
  moreover have "sv_conns (example_tls_at example_banned [Closed, Accepted []]) ! 1 \<in> set (sv_conns (example_tls_at example_banned [Closed, Accepted []]))"
    by (rule nth_mem) simp
  ultimately show ?thesis
    using conjunct1 [OF server_bans [OF list_asset_cache example_tls_run _ refl refl, of 5 "V4 1 2 3 4"]]
    by (simp add: limits example_tls_calls timely_def example_tls_env_def example_env_def security_new_def instant_max_def from_secs_def
        example_peer_def)
qed

end
