(* ===== verification/Access_Log.thy ===== *)
theory Access_Log
  imports Proxy_Correct Log
begin

text \<open>
  What the request handler of \<open>src/src/proxy.rs\<close> and the authentication provider write to the log. The
  records of a request are a list, computed along the same branches as its answer. The text of an error of another crate and the
  formatted duration are arguments. The totals of the cache are those of the state the request leaves;
  tasks that run in between can change them.
\<close>

section \<open>The records of a request\<close>

text \<open>The access record, one line per request that the handler follows to its end.\<close>

definition request_record ::
  "('h, 'v) http_ops \<Rightarrow> string \<Rightarrow> SocketAddr \<Rightarrow> string \<Rightarrow> string \<Rightarrow> ('h, 'b) Request \<Rightarrow> StatusCode \<Rightarrow> string \<Rightarrow> log_record" where
  "request_record ops duration_ms peer_addr client_ip host req status upstream =
     rec_of INFO ''request''
       [(''peer'', socket_addr_to_string peer_addr), (''client_ip'', client_ip), (''method'', rq_method req),
        (''host'', host), (''path'', path_and_query_of (rq_uri req)), (''version'', rq_version req),
        (''status'', show_nat status), (''duration_ms'', duration_ms), (''upstream'', upstream),
        (''user_agent'', unwrap_or (header_str ops (rq_headers req) ''user-agent'') ''-''),
        (''referer'', unwrap_or (header_str ops (rq_headers req) ''referer'') ''-'')]"

definition dropped_record :: "string \<Rightarrow> string \<Rightarrow> string \<Rightarrow> log_record" where
  "dropped_record client_ip host path_and_query =
     rec_of INFO ''connection_dropped_blacklisted''
       [(''client_ip'', client_ip), (''host'', host), (''path'', path_and_query)]"

definition rate_limit_record :: "('key, 'h, 'b) ActiveConfig \<Rightarrow> string \<Rightarrow> string \<Rightarrow> string \<Rightarrow> nat \<Rightarrow> log_record" where
  "rate_limit_record ac client_ip path host count =
     rec_of ERROR ''rate_limit_exceeded''
       [(''client_ip'', client_ip), (''path'', path), (''host'', host), (''count'', show_nat count),
        (''limit'', show_nat (case ac_security ac of None \<Rightarrow> 60 | Some s \<Rightarrow> sec_rate_limit_rpm s))]"

definition payload_record :: "('h, 'v) http_ops \<Rightarrow> nat \<Rightarrow> string \<Rightarrow> string \<Rightarrow> 'h \<Rightarrow> log_record" where
  "payload_record ops max_body_size client_ip host headers =
     rec_of WARN ''payload_too_large''
       [(''client_ip'', client_ip), (''host'', host),
        (''content_length'', show_nat (unwrap_or (Option.bind (header_str ops headers ''content-length'') parse_usize) 0)),
        (''max_body_size'', show_nat max_body_size)]"

text \<open>The totals of an engine that end every record on the cache.\<close>

definition cache_totals :: "('c, 'h) asset_ops \<Rightarrow> 'c LruCacheEngine \<Rightarrow> (string \<times> string) list" where
  "cache_totals aops e =
     [(''total_cache_bytes'', show_nat (current_memory_bytes e)), (''total_cache_entries'', show_nat (entry_count aops e)),
      (''max_capacity_bytes'', show_nat (ce_max_capacity_bytes e))]"

definition cache_hit_record ::
  "('c, 'h) asset_ops \<Rightarrow> string \<Rightarrow> string \<Rightarrow> string \<Rightarrow> 'h CachedAsset \<Rightarrow> 'c LruCacheEngine \<Rightarrow> log_record" where
  "cache_hit_record aops client_ip host path_and_query cached e =
     rec_of INFO ''cache_hit''
       ([(''client_ip'', client_ip), (''host'', host), (''path'', path_and_query),
         (''size_bytes'', show_nat (ca_size_bytes cached))] @ cache_totals aops e)"

text \<open>
  What the provider of \<open>src/src/auth.rs\<close> writes: the attempt, then its end. The user is the first of two
  identity headers, if it is text.
\<close>

definition auth_user :: "('h, 'v) http_ops \<Rightarrow> 'h \<Rightarrow> string" where
  "auth_user ops h =
     unwrap_or (Option.bind (case hm_get ops h ''remote-user'' of Some v \<Rightarrow> Some v | None \<Rightarrow> hm_get ops h ''x-forwarded-user'')
       (hv_to_str ops)) ''unknown''"

definition provider_records ::
  "('h, 'v) http_ops \<Rightarrow> (BoxError \<Rightarrow> string) \<Rightarrow> ('h, 'b) ForwardAuthProvider \<Rightarrow> string \<Rightarrow> string \<Rightarrow> Uri \<Rightarrow> 'h \<Rightarrow>
   log_record list" where
  "provider_records ops show_err self client_ip method uri headers =
     (let host = request_host ops uri headers; who = [(''client_ip'', client_ip), (''host'', host)]
      in case uri_parse ops (fa_auth_url self) of
           None \<Rightarrow> []
         | Some auth_uri \<Rightarrow>
             rec_of DEBUG ''auth_verifying''
               (who @ [(''path'', path_and_query_of uri), (''auth_url'', fa_auth_url self)]) #
             (case auth_sub_request ops (fa_auth_url self) client_ip method uri headers of
                Inl e \<Rightarrow> []
              | Inr sub_req \<Rightarrow>
                  (case fa_client self sub_req of
                     Inr resp \<Rightarrow>
                       (if st_is_success ops (rs_status resp)
                        then [rec_of INFO ''auth_success''
                                (who @ [(''user'', auth_user ops (keep_identity ops (hm_iter ops (rs_headers resp)) (hm_new ops)))])]
                        else if rs_status resp = 302 \<or> rs_status resp = 303 \<or> rs_status resp = 307
                        then [rec_of INFO ''auth_redirect''
                                (who @ [(''status'', show_nat (rs_status resp)),
                                  (''location'', unwrap_or (header_str ops (rs_headers resp) ''location'') ''unknown'')])]
                        else [rec_of WARN ''auth_denied'' (who @ [(''status'', show_nat (rs_status resp))])])
                   | Inl e \<Rightarrow>
                       [rec_of ERROR ''auth_provider_network_error''
                          (who @ [(''auth_url'', fa_auth_url self), (''error'', show_err e)])])))"

text \<open>Authentication: what is written before the answer is known.\<close>

definition auth_records ::
  "('h, 'v) http_ops \<Rightarrow> (BoxError \<Rightarrow> string) \<Rightarrow> ('key, 'h, 'b) ActiveConfig \<Rightarrow> SocketAddr \<Rightarrow> string \<Rightarrow> string \<Rightarrow>
   MatchedRoute \<Rightarrow> ('h, 'b) Request \<Rightarrow> log_record list" where
  "auth_records ops show_err ac peer_addr client_ip host m req =
     (if mr_auth_required m
      then (case ac_auth_provider ac of
              Some auth_provider \<Rightarrow>
                provider_records ops show_err auth_provider client_ip (rq_method req) (rq_uri req) (rq_headers req) @
                (case authenticate ops auth_provider (socket_addr_to_string peer_addr) client_ip (rq_method req)
                        (rq_uri req) (rq_headers req) of
                   Inr (Success headers) \<Rightarrow>
                     (if hm_iter ops headers \<noteq> []
                      then [rec_of DEBUG ''auth_headers_injected''
                              [(''client_ip'', client_ip), (''host'', host), (''count'', show_nat (length (hm_iter ops headers)))]]
                      else [])
                 | Inr (Denied response) \<Rightarrow>
                     [rec_of INFO ''auth_denied''
                        [(''client_ip'', client_ip), (''host'', host), (''path'', path_and_query_of (rq_uri req)),
                         (''status'', show_nat (rs_status response))]]
                 | Inl e \<Rightarrow> [rec_of ERROR ''auth_error'' [(''client_ip'', client_ip), (''error'', show_err e)]])
            | None \<Rightarrow>
                [rec_of ERROR ''auth_misconfiguration''
                   [(''client_ip'', client_ip), (''host'', host),
                    (''error'', ''route requires authentication ('' @ [CHR 0x27] @ ''auth on;'' @ [CHR 0x27] @ '') but no '' @
                       [CHR 0x27] @ ''forward_auth'' @ [CHR 0x27] @ '' URL is configured in security block'')]])
      else [])"

text \<open>Why an answer is not cached although the request has an engine.\<close>

definition bypass_reason :: "('h, 'v) http_ops \<Rightarrow> string \<Rightarrow> nat option \<Rightarrow> ('h, 'b) Response \<Rightarrow> string" where
  "bypass_reason ops path_and_query max_file_size resp =
     (if \<not> is_static_asset path_and_query (header_str ops (rs_headers resp) ''content-type'') then ''non_static_asset''
      else if is_no_store ops (rs_headers resp) then ''cache_control_no_store''
      else if exceeds_max_file_size ops max_file_size (rs_headers resp) then ''exceeds_max_file_size''
      else if rs_status resp \<noteq> 200 then ''non_200_status''
      else ''cache_disabled'')"

definition bypass_record ::
  "('c, 'h) asset_ops \<Rightarrow> string \<Rightarrow> string \<Rightarrow> string \<Rightarrow> StatusCode \<Rightarrow> string \<Rightarrow> 'c LruCacheEngine \<Rightarrow> log_record" where
  "bypass_record aops client_ip host path_and_query status reason e =
     rec_of INFO ''cache_miss''
       ([(''client_ip'', client_ip), (''host'', host), (''path'', path_and_query), (''status'', show_nat status),
         (''cache_action'', ''bypassed''), (''reason'', reason)] @ cache_totals aops e)"

text \<open>The answer of the upstream; a \<open>101\<close> and an answer that enters the cache are recorded by their tasks.\<close>

definition upstream_records ::
  "('h, 'v) http_ops \<Rightarrow> ('c, 'h) asset_ops \<Rightarrow> bool \<Rightarrow> string \<Rightarrow> string \<Rightarrow> string \<Rightarrow> nat option \<Rightarrow> bool \<Rightarrow>
   ('h, 'b) Response \<Rightarrow> 'c Store \<Rightarrow> log_record list" where
  "upstream_records ops aops should_intercept client_ip host path_and_query engine upgrade_requested resp s =
     (if rs_status resp = 101 \<and> upgrade_requested then []
      else if should_intercept \<and> (st_is_client_error ops (rs_status resp) \<or> st_is_server_error ops (rs_status resp))
      then [rec_of INFO ''upstream_error_intercepted''
              [(''client_ip'', client_ip), (''host'', host), (''path'', path_and_query), (''status'', show_nat (rs_status resp))]]
      else (case engine of
              None \<Rightarrow> []
            | Some r \<Rightarrow>
                (let limit = Some (ce_max_file_size_bytes (st_engines s ! r))
                 in if should_cache ops path_and_query limit resp then []
                    else [bypass_record aops client_ip host path_and_query (rs_status resp)
                            (bypass_reason ops path_and_query limit resp) (st_engines s ! r)])))"

text \<open>The end of the handler, which only a \<open>Continue\<close> reaches.\<close>

fun final_records ::
  "('h, 'v) http_ops \<Rightarrow> string \<Rightarrow> SocketAddr \<Rightarrow> string \<Rightarrow> string \<Rightarrow> ('h, 'b) Request \<Rightarrow> string \<Rightarrow> ('h, 'b) handled flow \<Rightarrow>
   log_record list" where
  "final_records ops duration_ms peer_addr client_ip host req upstream (Return r) = []"
| "final_records ops duration_ms peer_addr client_ip host req upstream (Continue r) =
     [case hd_result r of
        Inr resp \<Rightarrow> request_record ops duration_ms peer_addr client_ip host req (rs_status resp) upstream
      | Inl e \<Rightarrow> request_record ops duration_ms peer_addr client_ip host req 500 ''-'']"

definition route_records ::
  "('h, 'v) http_ops \<Rightarrow> ('c, 'h) asset_ops \<Rightarrow> (BoxError \<Rightarrow> string) \<Rightarrow> ('h, 'b) HttpClient \<Rightarrow> ('key, 'h, 'b) ActiveConfig \<Rightarrow>
   SocketAddr \<Rightarrow> string \<Rightarrow> string \<Rightarrow> nat option \<Rightarrow> MatchedRoute \<Rightarrow> ('h, 'b) Request \<Rightarrow> 'c Store \<Rightarrow> log_record list" where
  "route_records ops aops show_err client ac peer_addr client_ip host engine m req s =
     auth_records ops show_err ac peer_addr client_ip host m req @
     (case authorize ops ac peer_addr client_ip host m req of
        Inl response \<Rightarrow> []
      | Inr auth_headers \<Rightarrow>
          (case forward_request ops (max_body_size_of ac) client_ip m auth_headers req of
             Inl e \<Rightarrow> []
           | Inr final_req \<Rightarrow>
               (case client final_req of
                  Inr resp \<Rightarrow>
                    upstream_records ops aops (should_intercept_errors m (ac_global_intercept_errors ac)) client_ip host
                      (path_and_query_of (rq_uri req)) engine (is_upgrade_request ops (rq_headers req)) resp s
                | Inl e \<Rightarrow>
                    [rec_of ERROR ''upstream_connect_failed''
                       [(''upstream'', mr_upstream_addr m), (''error'', show_err e)]])))"

definition answer_records ::
  "('h, 'v) http_ops \<Rightarrow> ('c, 'h) asset_ops \<Rightarrow> (BoxError \<Rightarrow> string) \<Rightarrow> ('b Body \<Rightarrow> Bytes option) \<Rightarrow> ('h, 'b) HttpClient \<Rightarrow>
   ('key, 'h, 'b) ActiveConfig \<Rightarrow> SocketAddr \<Rightarrow> string \<Rightarrow> string \<Rightarrow> 'h CachedAsset option \<Rightarrow> ('h, 'b) Request \<Rightarrow> 'c Store \<Rightarrow>
   log_record list" where
  "answer_records ops aops show_err collect client ac peer_addr client_ip duration_ms cached req s =
     (let host = request_host ops (rq_uri req) (rq_headers req);
          path_and_query = path_and_query_of (rq_uri req);
          matched = match_route (ac_router ac) host (uri_path (rq_uri req));
          cache_engine = cache_engine_of ac matched (rq_method req);
          upstream_str = (case matched of None \<Rightarrow> ''-'' | Some m \<Rightarrow> mr_upstream_addr m)
      in case cached of
           Some asset \<Rightarrow>
             (case cache_engine of
                None \<Rightarrow> []
              | Some r \<Rightarrow> [cache_hit_record aops client_ip host path_and_query asset (st_engines s ! r)]) @
             [request_record ops duration_ms peer_addr client_ip host req (ca_status asset) upstream_str]
         | None \<Rightarrow>
             (case matched of
                Some m \<Rightarrow>
                  route_records ops aops show_err client ac peer_addr client_ip host cache_engine m req s @
                  final_records ops duration_ms peer_addr client_ip host req upstream_str
                    (handle_route ops collect client ac peer_addr client_ip host
                       (map_option (\<lambda>r. (r, ce_max_file_size_bytes (st_engines s ! r))) cache_engine) m req)
              | None \<Rightarrow>
                  rec_of INFO ''no_matching_route''
                    [(''config_generation'', show_nat (ac_generation ac)), (''peer'', socket_addr_to_string peer_addr),
                     (''host'', host), (''path'', path_and_query)] #
                  final_records ops duration_ms peer_addr client_ip host req upstream_str
                    (Continue (respond (no_response_444 ops)))))"

definition handler_records ::
  "('h, 'v) http_ops \<Rightarrow> ('c, 'h) asset_ops \<Rightarrow> (BoxError \<Rightarrow> string) \<Rightarrow> ('b Body \<Rightarrow> Bytes option) \<Rightarrow> ('h, 'b) HttpClient \<Rightarrow>
   ('key, 'h, 'b) ActiveConfig \<Rightarrow> SocketAddr \<Rightarrow> bool \<Rightarrow> Instant \<Rightarrow> Instant \<Rightarrow> Instant \<Rightarrow> string \<Rightarrow> ('h, 'b) Request \<Rightarrow> 'c Store \<Rightarrow>
   log_record list" where
  "handler_records ops aops show_err collect client ac peer_addr is_proxy_protocol t1 t2 t3 duration_ms req s =
     (let client_ip = client_ip_of ops is_proxy_protocol peer_addr (rq_headers req);
          host = request_host ops (rq_uri req) (rq_headers req);
          path_and_query = path_and_query_of (rq_uri req)
      in case security_gate ac t1 t2 client_ip s of
           (Panicked, s1) \<Rightarrow> []
         | (Returned Dropped, s1) \<Rightarrow> [dropped_record client_ip host path_and_query]
         | (Returned (Exceeded count), s1) \<Rightarrow>
             [rate_limit_record ac client_ip (uri_path (rq_uri req)) host count,
              request_record ops duration_ms peer_addr client_ip host req 429 ''-'']
         | (Returned Passed, s1) \<Rightarrow>
             (if payload_too_large ops (max_body_size_of ac) (rq_headers req)
              then [payload_record ops (max_body_size_of ac) client_ip host (rq_headers req)]
              else (let (cached, s2) = lookup_request ops aops ac t3 req s1
                    in answer_records ops aops show_err collect client ac peer_addr client_ip duration_ms cached req s2)))"

section \<open>The records of the tasks\<close>

text \<open>The task of an insertion, which knows the client, the host and the path of its request.\<close>

definition insert_records ::
  "('c, 'h) asset_ops \<Rightarrow> string \<Rightarrow> string \<Rightarrow> string \<Rightarrow> 'h insert_task \<Rightarrow> InsertResult \<Rightarrow> 'c LruCacheEngine \<Rightarrow> log_record list" where
  "insert_records aops client_ip host path t r e =
     [rec_of INFO ''cache_miss''
        ([(''client_ip'', client_ip), (''host'', host), (''path'', path), (''status'', show_nat (it_status t))] @
         (if ir_inserted r
          then [(''cache_action'', ''inserted''), (''bytes_inserted'', show_nat (ir_bytes_inserted r))]
          else [(''cache_action'', ''bypassed''), (''reason'', unwrap_or (ir_reason r) ''not_inserted''),
                (''bytes_inserted'', ''0'')]) @
         [(''bytes_evicted'', show_nat (ir_bytes_evicted r)), (''items_evicted'', show_nat (ir_items_evicted r))] @
         cache_totals aops e)]"

text \<open>
  The task that joins the two sides of an upgraded connection: whether either side is upgraded and
  how the copying ends, with the bytes it has moved each way.
\<close>

definition tunnel_records ::
  "SocketAddr \<Rightarrow> string \<Rightarrow> string + unit \<Rightarrow> string + unit \<Rightarrow> string + nat \<times> nat \<Rightarrow> log_record list" where
  "tunnel_records peer_addr upstream client_upgrade upstream_upgrade copied =
     (let who = [(''peer'', socket_addr_to_string peer_addr), (''upstream'', upstream)]
      in case client_upgrade of
           Inl e \<Rightarrow> [rec_of ERROR ''upgrade_handshake_failed'' (who @ [(''error'', e)])]
         | Inr _ \<Rightarrow>
             (case upstream_upgrade of
                Inl e \<Rightarrow> [rec_of ERROR ''upstream_upgrade_failed'' (who @ [(''error'', e)])]
              | Inr _ \<Rightarrow>
                  (case copied of
                     Inr (to_upstream, to_client) \<Rightarrow>
                       [rec_of INFO ''upgrade_tunnel_closed''
                          (who @ [(''bytes_to_upstream'', show_nat to_upstream), (''bytes_to_client'', show_nat to_client)])]
                   | Inl e \<Rightarrow> [rec_of ERROR ''upgrade_tunnel_error'' (who @ [(''error'', e)])])))"

section \<open>Access records\<close>

definition access_records :: "log_record list \<Rightarrow> log_record list" where
  "access_records rs = filter (\<lambda>r. lr_event r = ''request'') rs"

lemma access_records_simps [simp]:
  "access_records [] = []" "access_records (rs @ rs') = access_records rs @ access_records rs'"
  "access_records (r # rs) = (if lr_event r = ''request'' then r # access_records rs else access_records rs)"
  by (simp_all add: access_records_def)

lemma access_events [simp]:
  "lr_event (request_record ops d peer ip host req status up) = ''request''"
  "lr_event (dropped_record ip host pq) = ''connection_dropped_blacklisted''"
  "lr_event (rate_limit_record ac ip path host n) = ''rate_limit_exceeded''"
  "lr_event (payload_record ops n ip host headers) = ''payload_too_large''"
  "lr_event (cache_hit_record aops ip host pq asset e) = ''cache_hit''"
  "lr_event (bypass_record aops ip host pq status reason e) = ''cache_miss''"
  by (simp_all add: request_record_def dropped_record_def rate_limit_record_def payload_record_def cache_hit_record_def bypass_record_def)

lemma provider_records_access [simp]: "access_records (provider_records ops show_err self ip meth uri headers) = []"
  by (simp add: provider_records_def Let_def split: option.splits sum.splits)

lemma provider_records_reason: "list_all (\<lambda>rec. (''reason'', v) \<notin> set (lr_fields rec)) (provider_records ops show_err self ip meth uri headers)"
  by (simp add: provider_records_def Let_def split: option.splits sum.splits)

lemma route_records_access [simp]: "access_records (route_records ops aops show_err client ac peer ip host engine m req s) = []"
  by (simp add: route_records_def auth_records_def upstream_records_def Let_def
      split: option.splits sum.splits AuthResult.splits)

text \<open>The handler goes on to its end only with an answer.\<close>

lemma handle_route_continues:
  assumes "handle_route ops collect client ac peer ip host engine m req = Continue r"
  obtains resp where "hd_result r = Inr resp"
  using assms by (auto simp: handle_route_def upstream_response_def Let_def split: sum.splits if_splits bool.splits option.splits)

lemma final_records_status:
  assumes "hd_result (finish ops (handle_route ops collect client ac peer ip host engine m req)) = Inr resp"
    and "rec \<in> set (final_records ops d peer ip host req up (handle_route ops collect client ac peer ip host engine m req))"
  shows "rec = request_record ops d peer ip host req (rs_status resp) up"
proof (cases "handle_route ops collect client ac peer ip host engine m req")
  case (Continue r)
  then obtain resp' where "hd_result r = Inr resp'" by (rule handle_route_continues)
  then show ?thesis using assms Continue by auto
qed (use assms in simp)

definition upstream_name :: "MatchedRoute option \<Rightarrow> string" where
  "upstream_name matched = (case matched of None \<Rightarrow> ''-'' | Some m \<Rightarrow> mr_upstream_addr m)"

lemma final_records_access [simp]:
  "access_records (final_records ops d peer ip host req up f) = final_records ops d peer ip host req up f"
  by (cases f) (simp_all split: sum.splits)

lemma answer_records_access:
  fixes req :: "('h, 'b) Request"
  assumes "hd_result (answer_request ops collect client ac peer ip cached req s) = Inr resp"
  defines "host \<equiv> request_host ops (rq_uri req) (rq_headers req)"
  shows "access_records (answer_records ops aops show_err collect client ac peer ip d cached req s) \<in>
    {[], [request_record ops d peer ip host req (rs_status resp)
            (upstream_name (match_route (ac_router ac) host (uri_path (rq_uri req))))]}"
proof (cases cached)
  case (Some asset)
  then show ?thesis
    using assms(1) by (auto simp: answer_request_def answer_records_def host_def upstream_name_def cached_response_def Let_def
        split: option.splits)
next
  case None
  show ?thesis
  proof (cases "match_route (ac_router ac) host (uri_path (rq_uri req))")
    case None
    then show ?thesis
      using assms(1) \<open>cached = None\<close>
      by (auto simp: answer_request_def answer_records_def host_def upstream_name_def Let_def)
  next
    case (Some m)
    let ?engine = "map_option (\<lambda>r. (r, ce_max_file_size_bytes (st_engines s ! r))) (cache_engine_of ac (Some m) (rq_method req))"
    let ?f = "handle_route ops collect client ac peer ip host ?engine m req"
    have f: "hd_result (finish ops ?f) = Inr resp"
      using assms(1) Some \<open>cached = None\<close> by (simp add: answer_request_def host_def Let_def)
    have "access_records (answer_records ops aops show_err collect client ac peer ip d cached req s) =
        final_records ops d peer ip host req (mr_upstream_addr m) ?f"
      using Some \<open>cached = None\<close> by (simp add: answer_records_def host_def Let_def)
    moreover have "length (final_records ops d peer ip host req (mr_upstream_addr m) ?f) \<le> 1" by (cases ?f) simp_all
    ultimately show ?thesis
      using final_records_status [OF f, of _ d "mr_upstream_addr m"] Some
      by (cases "final_records ops d peer ip host req (mr_upstream_addr m) ?f") (auto simp: upstream_name_def)
  qed
qed

lemma rate_limited_status [simp]: "rs_status (rate_limited_response ops ip host headers) = 429"
  by (simp add: rate_limited_response_def error_response_def build_error_response_def Let_def)

section \<open>Properties\<close>

text \<open>
  C14: a request leaves at most one access record, and the record names the status the client gets.
\<close>

theorem access_record_agrees:
  assumes "handle_request ops aops collect client ac peer pp t1 t2 t3 req s = (Returned out, s')" and "hd_result out = Inr resp"
  shows "access_records (handler_records ops aops show_err collect client ac peer pp t1 t2 t3 d req s) = [] \<or>
    (\<exists>upstream. access_records (handler_records ops aops show_err collect client ac peer pp t1 t2 t3 d req s) =
       [request_record ops d peer (client_ip_of ops pp peer (rq_headers req)) (request_host ops (rq_uri req) (rq_headers req)) req
          (rs_status resp) upstream])"
proof -
  let ?ip = "client_ip_of ops pp peer (rq_headers req)"
  obtain g s1 where g: "security_gate ac t1 t2 ?ip s = (g, s1)" by fastforce
  obtain cached s2 where l: "lookup_request ops aops ac t3 req s1 = (cached, s2)" by fastforce
  note h = assms(1) [unfolded handle_request_def Let_def g serve_request_def l prod.case]
  show ?thesis
  proof (cases "g = Returned Passed \<and> \<not> payload_too_large ops (max_body_size_of ac) (rq_headers req)")
    case True
    then have "hd_result (answer_request ops collect client ac peer ?ip cached req s2) = Inr resp" using h assms(2) by auto
    from answer_records_access [OF this, of aops show_err d] show ?thesis
      using True by (auto simp: handler_records_def g l)
  next
    case False
    then show ?thesis
      using h assms(2)
      by (auto simp: handler_records_def g Let_def intro!: exI [of _ "''-''"] split: outcome.splits gate.splits)
  qed
qed

text \<open>
  C35: a request that is sent to the upstream and answered leaves no access record exactly if the answer is
  an error that is intercepted: then the client gets the status of the error, and no line of the access
  log shows it.
\<close>

theorem intercepted_unrecorded:
  assumes "handle_request ops aops collect client ac peer pp t1 t2 t3 req s = (Returned out, s')"
    and "hd_sent out = Some fwd" and "client fwd = Inr answer"
    and "match_route (ac_router ac) (request_host ops (rq_uri req) (rq_headers req)) (uri_path (rq_uri req)) = Some m"
  shows "access_records (handler_records ops aops show_err collect client ac peer pp t1 t2 t3 d req s) = [] \<longleftrightarrow>
    \<not> (rs_status answer = 101 \<and> is_upgrade_request ops (rq_headers req)) \<and>
    should_intercept_errors m (ac_global_intercept_errors ac) \<and>
    (st_is_client_error ops (rs_status answer) \<or> st_is_server_error ops (rs_status answer))"
proof -
  let ?ip = "client_ip_of ops pp peer (rq_headers req)"
  let ?host = "request_host ops (rq_uri req) (rq_headers req)"
  obtain g s1 where g: "security_gate ac t1 t2 ?ip s = (g, s1)" by fastforce
  obtain cached s2 where l: "lookup_request ops aops ac t3 req s1 = (cached, s2)" by fastforce
  note h = assms(1) [unfolded handle_request_def Let_def g serve_request_def l prod.case]
  have p: "g = Returned Passed" "\<not> payload_too_large ops (max_body_size_of ac) (rq_headers req)"
    and o: "out = answer_request ops collect client ac peer ?ip cached req s2" "cached = None"
    using h assms(2) by (auto simp: answer_request_def Let_def split: outcome.splits gate.splits if_splits option.splits)
  obtain granted where a: "authorize ops ac peer ?ip ?host m req = Inr granted"
    and f: "forward_request ops (max_body_size_of ac) ?ip m granted req = Inr fwd"
    using assms(4) by (rule_tac answer_request_sent [OF assms(2) [unfolded o(1)]]) auto
  have "access_records (handler_records ops aops show_err collect client ac peer pp t1 t2 t3 d req s) =
      final_records ops d peer ?ip ?host req (mr_upstream_addr m) (handle_route ops collect client ac peer ?ip ?host
        (map_option (\<lambda>r. (r, ce_max_file_size_bytes (st_engines s2 ! r))) (cache_engine_of ac (Some m) (rq_method req))) m req)"
    by (simp add: handler_records_def g l p o answer_records_def assms(4) Let_def)
  then show ?thesis
    by (auto simp: handle_route_sent [OF a f] assms(3) upstream_response_def Let_def split: bool.splits option.splits)
qed

lemma bypass_reason_given: "\<not> should_cache ops pq limit resp \<Longrightarrow> bypass_reason ops pq limit resp \<noteq> ''cache_disabled''"
  by (auto simp: should_cache_def bypass_reason_def)

text \<open>
  The reason \<open>cache_disabled\<close> is never recorded.
\<close>

lemma cache_disabled_never_recorded:
  "list_all (\<lambda>rec. (''reason'', ''cache_disabled'') \<notin> set (lr_fields rec))
     (handler_records ops aops show_err collect client ac peer pp t1 t2 t3 d req s)"
proof -
  have req: "list_all (\<lambda>rec. (''reason'', ''cache_disabled'') \<notin> set (lr_fields rec)) (final_records ops d peer ip host req up f)"
    for ip host up f
    by (cases f) (auto simp: request_record_def split: sum.splits)
  have route: "list_all (\<lambda>rec. (''reason'', ''cache_disabled'') \<notin> set (lr_fields rec))
      (route_records ops aops show_err client ac peer ip host engine m req s)" for ip host engine m s
    by (auto simp: route_records_def auth_records_def upstream_records_def bypass_record_def cache_totals_def Let_def
        provider_records_reason
        dest: bypass_reason_given split: option.splits sum.splits AuthResult.splits)
  have answer: "list_all (\<lambda>rec. (''reason'', ''cache_disabled'') \<notin> set (lr_fields rec))
      (answer_records ops aops show_err collect client ac peer ip d cached req s)" for ip cached s
    using req route
    by (auto simp: answer_records_def cache_hit_record_def request_record_def cache_totals_def Let_def simp del: final_records.simps
        split: option.splits)
  show ?thesis
    using answer
    by (auto simp: handler_records_def dropped_record_def rate_limit_record_def request_record_def payload_record_def Let_def
        split: prod.splits outcome.splits gate.splits)
qed

section \<open>Reading the log\<close>

text \<open>
  The log is read field by field, as \<open>docs/loki_grafana.md\<close> describes it: words between blanks, each cut
  at its first equals sign.
\<close>

definition logfmt_field :: "string \<Rightarrow> string \<times> string" where
  "logfmt_field w = (takeWhile (\<lambda>c. c \<noteq> CHR ''='') w, tl (dropWhile (\<lambda>c. c \<noteq> CHR ''='') w))"

definition logfmt_fields :: "string \<Rightarrow> (string \<times> string) list" where
  "logfmt_fields line = map logfmt_field (filter (\<lambda>w. w \<noteq> []) (split_char line CHR '' ''))"

lemma logfmt_fields_blank: "logfmt_fields (a @ CHR '' '' # b) = logfmt_fields a @ logfmt_fields b"
  by (simp add: logfmt_fields_def split_char_def split_on_sep)

text \<open>What a reader makes of one field: the value up to its first blank, and fields of the rest.\<close>

definition read_back :: "string \<times> string \<Rightarrow> (string \<times> string) list" where
  "read_back kv =
     (let ws = split_char (snd kv) CHR '' ''
      in (fst kv, hd ws) # map logfmt_field (filter (\<lambda>w. w \<noteq> []) (tl ws)))"

definition log_key :: "string \<Rightarrow> bool" where
  "log_key k \<longleftrightarrow> list_all (\<lambda>c. c \<noteq> CHR '' '' \<and> c \<noteq> CHR ''='') k"

lemma logfmt_field_eq: "list_all (\<lambda>c. c \<noteq> CHR ''='') k \<Longrightarrow> logfmt_field (k @ CHR ''='' # v) = (k, v)"
  by (induction k) (auto simp: logfmt_field_def)

lemma logfmt_fields_kv:
  assumes "log_key k"
  shows "logfmt_fields (k @ CHR ''='' # v) = read_back (k, v)"
proof -
  have "split_char (k @ CHR ''='' # v) CHR '' '' = (k @ CHR ''='' # hd (split_char v CHR '' '')) # tl (split_char v CHR '' '')"
    using split_on_prefix [of "k @ [CHR ''='']" "\<lambda>d. d = CHR '' ''" v] assms
    by (auto simp: split_char_def log_key_def list_all_iff)
  moreover have "list_all (\<lambda>c. c \<noteq> CHR ''='') k" using assms by (auto simp: log_key_def list_all_iff)
  ultimately show ?thesis by (simp add: logfmt_fields_def read_back_def logfmt_field_eq Let_def)
qed

lemma logfmt_log_line:
  assumes "list_all (\<lambda>kv. log_key (fst kv)) kvs"
  shows "logfmt_fields (log_line timestamp thread level event kvs) =
    logfmt_fields (log_line timestamp thread level event []) @ concat (map read_back kvs)"
  using assms
proof (induction kvs rule: rev_induct)
  case (snoc kv kvs)
  have "log_line timestamp thread level event (kvs @ [kv]) =
      log_line timestamp thread level event kvs @ CHR '' '' # fst kv @ CHR ''='' # snd kv"
    by (cases kv) (simp add: log_line_def)
  then show ?case using snoc by (simp add: logfmt_fields_blank logfmt_fields_kv)
qed simp

lemma read_back_plain: "list_all (\<lambda>c. c \<noteq> CHR '' '') v \<Longrightarrow> read_back (k, v) = [(k, v)]"
  by (simp add: read_back_def split_char_def split_on_no list_all_iff)

lemma read_back_blank:
  "list_all (\<lambda>c. c \<noteq> CHR '' '') v \<Longrightarrow> read_back (k, v @ CHR '' '' # w) = (k, v) # logfmt_fields w"
  by (simp add: read_back_def logfmt_fields_def split_char_def split_on_append list_all_iff)

text \<open>
  How a line of the log reads: each field keeps its name, its value ends at the first blank, and what
  follows in the value reads as further fields. So a line whose values have no blanks reads back exactly,
  and a blank in a value, as in a user agent, lets the client add fields of its choice.
\<close>

lemma log_line_reads:
  assumes "list_all (\<lambda>kv. log_key (fst kv)) kvs"
  shows "logfmt_fields (log_line timestamp thread level event kvs) =
      logfmt_fields (log_line timestamp thread level event []) @ concat (map read_back kvs) \<and>
    (list_all (\<lambda>kv. list_all (\<lambda>c. c \<noteq> CHR '' '') (snd kv)) kvs \<longrightarrow> concat (map read_back kvs) = kvs)"
proof -
  have "concat (map read_back kvs) = kvs" if "list_all (\<lambda>kv. list_all (\<lambda>c. c \<noteq> CHR '' '') (snd kv)) kvs"
    using that by (induction kvs) (auto simp: read_back_plain)
  then show ?thesis using logfmt_log_line [OF assms] by blast
qed

lemma read_back_subset: "kv \<in> set kvs \<Longrightarrow> set (read_back kv) \<subseteq> set (concat (map read_back kvs))"
  by auto

text \<open>The fields a client writes into its user agent are read from its access record.\<close>

lemma user_agent_adds_fields:
  assumes "header_str ops (rq_headers req) ''user-agent'' = Some (ua @ CHR '' '' # w)" and "list_all (\<lambda>c. c \<noteq> CHR '' '') ua"
  shows "set (logfmt_fields w) \<subseteq>
    set (logfmt_fields (log_line timestamp thread INFO ''request'' (lr_fields (request_record ops d peer ip host req status up))))"
proof -
  let ?kvs = "lr_fields (request_record ops d peer ip host req status up)"
  have k: "list_all (\<lambda>kv. log_key (fst kv)) ?kvs" by (simp add: request_record_def log_key_def)
  have "(''user_agent'', ua @ CHR '' '' # w) \<in> set ?kvs" by (simp add: request_record_def assms(1))
  then have "set (read_back (''user_agent'', ua @ CHR '' '' # w)) \<subseteq> set (concat (map read_back ?kvs))"
    by (rule read_back_subset)
  moreover have "set (logfmt_fields w) \<subseteq> set (read_back (''user_agent'', ua @ CHR '' '' # w))"
    by (auto simp: read_back_blank [OF assms(2)])
  ultimately show ?thesis unfolding logfmt_log_line [OF k] set_append by blast
qed

section \<open>Examples\<close>

theorem access_record_agrees_witness:
  "\<exists>out s' resp. handle_request example_http list_lru_ops example_collect (example_client 200) (example_ac False) example_peer False
      11 12 13 example_req example_store' = (Returned out, s') \<and> hd_result out = Inr resp \<and>
    length (access_records (handler_records example_http list_lru_ops (\<lambda>e. []) example_collect (example_client 200) (example_ac False)
      example_peer False 11 12 13 ''4.120'' example_req example_store')) \<le> 1"
proof -
  obtain out s' where h: "handle_request example_http list_lru_ops example_collect (example_client 200) (example_ac False)
      example_peer False 11 12 13 example_req example_store' = (Returned out, s')" "hd_task out = Some example_task"
    using example_handled by blast
  obtain resp where r: "hd_result out = Inr resp" by (rule handle_request_task [OF h])
  show ?thesis using access_record_agrees [OF h(1) r, of "\<lambda>e. []" "''4.120''"] h(1) r by auto
qed

theorem intercepted_unrecorded_witness:
  "access_records (handler_records example_http list_lru_ops (\<lambda>e. []) example_collect (example_client 503) (example_ac True)
     example_peer False 11 12 13 ''4.120'' example_req example_store') = []"
proof -
  obtain out s' where h: "handle_request example_http list_lru_ops example_collect (example_client 503) (example_ac True)
      example_peer False 11 12 13 example_req example_store' = (Returned out, s')" "hd_sent out = Some example_fwd"
    using example_handled by blast
  let ?resp = "\<lparr>rs_status = 503, rs_headers = [(''content-type'', ''text/css'')], rs_body = Incoming ()\<rparr> :: (alist_headers, unit) Response"
  have c: "example_client 503 example_fwd = Inr ?resp" by (simp add: example_client_def)
  have m: "match_route (ac_router (example_ac True)) (request_host example_http (rq_uri example_req) (rq_headers example_req))
      (uri_path (rq_uri example_req)) = Some example_matched"
    by (simp add: example_host example_route_matched)
  show ?thesis
    using intercepted_unrecorded [OF h c m] http_crate.is_server_error [OF example_http_crate, of 503]
    by (simp add: should_intercept_errors_def example_matched_def)
qed

end
