(* ===== verification/Process.thy ===== *)
theory Process
  imports Server
begin

text \<open>
  The process around the server: \<open>src/src/main.rs\<close>, the start of the threads in \<open>src/src/server.rs\<close> and of a
  worker in \<open>src/src/worker.rs\<close>. The operating system is an argument: which system calls and which
  threads it refuses. A worker does not return; it runs or it panics.
\<close>

section \<open>The listener\<close>

datatype socket_domain = IPV4 | IPV6

datatype socket_call =
    SocketNew socket_domain
  | SetReusePort bool
  | SetReuseAddress bool
  | SetNonblocking bool
  | BindTo SocketAddr
  | Listen nat
  | FromStd

text \<open>Calls one after the other up to the first that fails. The system knows the calls made so far.\<close>

fun socket_calls ::
  "(socket_call list \<Rightarrow> socket_call \<Rightarrow> string option) \<Rightarrow> socket_call list \<Rightarrow> socket_call list \<Rightarrow> string + socket_call list" where
  "socket_calls os made [] = Inr made"
| "socket_calls os made (c # cs) =
     (case os made c of
        Some error \<Rightarrow> Inl error
      | None \<Rightarrow> socket_calls os (made @ [c]) cs)"

definition bind_reuseport :: "(socket_call list \<Rightarrow> socket_call \<Rightarrow> string option) \<Rightarrow> SocketAddr \<Rightarrow> string + socket_call list" where
  "bind_reuseport os addr =
     (let domain = (case sa_ip addr of V4 _ _ _ _ \<Rightarrow> IPV4 | V6 _ _ _ _ _ _ _ _ \<Rightarrow> IPV6)
      in socket_calls os []
           [SocketNew domain, SetReusePort True, SetReuseAddress True, SetNonblocking True, BindTo addr, Listen 1024, FromStd])"

section \<open>A worker\<close>

text \<open>The state of the HTTP client, without which there is no worker.\<close>

record ('key, 'h, 'b) ProxyState =
  px_config_reader :: "('key, 'h, 'b) SharedConfig"
  px_client :: "('h, 'b) HttpClient"

definition proxy_state_new ::
  "('h, 'b) HttpClient option \<Rightarrow> ('key, 'h, 'b) SharedConfig \<Rightarrow> ('key, 'h, 'b) ProxyState outcome" where
  "proxy_state_new connector config_reader =
     (case connector of
        None \<Rightarrow> Panicked
      | Some client \<Rightarrow> Returned \<lparr>px_config_reader = config_reader, px_client = client\<rparr>)"

text \<open>What a worker needs of the system: its runtime, sockets and the root certificates.\<close>

record ('h, 'b) worker_env =
  we_runtime :: bool
  we_os :: "socket_call list \<Rightarrow> socket_call \<Rightarrow> string option"
  we_connector :: "('h, 'b) HttpClient option"

text \<open>The start of a worker, up to its loop.\<close>

definition worker_start ::
  "('h, 'b) worker_env \<Rightarrow> SocketAddr \<Rightarrow> ('key, 'h, 'b) SharedConfig \<Rightarrow>
   (socket_call list \<times> ('key, 'h, 'b) ProxyState) outcome" where
  "worker_start we addr config_reader =
     (if \<not> we_runtime we then Panicked
      else (case bind_reuseport (we_os we) addr of
              Inl error \<Rightarrow> Panicked
            | Inr listener \<Rightarrow>
                (case proxy_state_new (we_connector we) config_reader of
                   Panicked \<Rightarrow> Panicked
                 | Returned state \<Rightarrow> Returned (listener, state))))"

text \<open>One round of the loop: a connection, or an error, after which the loop goes on.\<close>

definition accept_round ::
  "string + TcpStream \<times> SocketAddr \<Rightarrow> ('key, 'c, 'h, 'b) Server \<Rightarrow> ('key, 'c, 'h, 'b) Server outcome" where
  "accept_round accepted sv =
     (case accepted of
        Inl e \<Rightarrow> Returned sv
      | Inr (stream, peer_addr) \<Rightarrow>
          (case config_load (sv_shared sv) of
             Panicked \<Rightarrow> Panicked
           | Returned active_config \<Rightarrow> Returned (accept_connection peer_addr stream active_config sv)))"

section \<open>The start of the server\<close>

text \<open>The main thread waits for a worker, has ended in a panic, or has come to the end of the program.\<close>

datatype process = Waiting string | Crashed | Exited

definition worker_name :: "nat \<Rightarrow> string" where
  "worker_name i = ''worker-thread-'' @ show_nat i"

text \<open>\<open>spawns\<close> tells by its name whether a thread can be started.\<close>

fun spawn_workers :: "(string \<Rightarrow> bool) \<Rightarrow> nat list \<Rightarrow> string list outcome" where
  "spawn_workers spawns [] = Returned []"
| "spawn_workers spawns (i # ids) =
     (if spawns (worker_name i)
      then (case spawn_workers spawns ids of
              Panicked \<Rightarrow> Panicked
            | Returned handles \<Rightarrow> Returned (worker_name i # handles))
      else Panicked)"

text \<open>Join the threads in order. A worker that has started runs on, one that has not is dead.\<close>

fun join_all :: "(string \<Rightarrow> bool) \<Rightarrow> string list \<Rightarrow> process" where
  "join_all runs [] = Exited"
| "join_all runs (handle # handles) = (if runs handle then Waiting handle else Crashed)"

definition server_start ::
  "(string \<Rightarrow> bool) \<Rightarrow> (string \<Rightarrow> ('h, 'b) worker_env) \<Rightarrow> ('key, 'c, 'h, 'b) Server \<Rightarrow> process" where
  "server_start spawns worker_envs sv =
     (let addr = \<lparr>sa_ip = V4 0 0 0 0, sa_port = sv_port sv\<rparr>
      in if \<not> spawns ''config-reload-thread'' then Crashed
         else (case spawn_workers spawns [0..<sv_workers sv] of
                 Panicked \<Rightarrow> Crashed
               | Returned handles \<Rightarrow>
                   join_all (\<lambda>handle. worker_start (worker_envs handle) addr (sv_shared sv) \<noteq> Panicked) handles))"

definition main_program ::
  "('file, 'cert, 'priv, 'key, 'h, 'b) environment \<Rightarrow> ('c, 'h) asset_ops \<Rightarrow> (string \<Rightarrow> bool) \<Rightarrow>
   (string \<Rightarrow> ('h, 'b) worker_env) \<Rightarrow> process" where
  "main_program env aops spawns worker_envs =
     (case load_config_from_path env ''proxy.conf'' of
        Inl e \<Rightarrow> Crashed
      | Inr config \<Rightarrow>
          (case server_new env aops config ''proxy.conf'' of
             Panicked \<Rightarrow> Crashed
           | Returned (Inl e) \<Rightarrow> Crashed
           | Returned (Inr sv) \<Rightarrow> server_start spawns worker_envs sv))"

section \<open>The reload thread\<close>

text \<open>
  The thread needs a runtime and a handler for the signal; then it does a round for each signal that
  comes, until it panics. The list holds what it meets at each of them.
\<close>

fun reload_rounds ::
  "('c, 'h) asset_ops \<Rightarrow> ('file, 'cert, 'priv, 'key, 'h, 'b) environment list \<Rightarrow> ('key, 'c, 'h, 'b) Server \<Rightarrow>
   ('key, 'c, 'h, 'b) Server" where
  "reload_rounds aops [] sv = sv"
| "reload_rounds aops (env # envs) sv =
     (let sv1 = reload env aops sv in if sv_reloading sv1 then reload_rounds aops envs sv1 else sv1)"

definition run_reload_thread ::
  "bool \<Rightarrow> bool \<Rightarrow> ('c, 'h) asset_ops \<Rightarrow> ('file, 'cert, 'priv, 'key, 'h, 'b) environment list \<Rightarrow> ('key, 'c, 'h, 'b) Server \<Rightarrow>
   ('key, 'c, 'h, 'b) Server" where
  "run_reload_thread runtime handler aops signals sv =
     (if runtime \<and> handler then reload_rounds aops signals sv else sv\<lparr>sv_reloading := False\<rparr>)"

section \<open>Lemmas\<close>

lemma socket_calls_all:
  "socket_calls os made cs = Inr made' \<Longrightarrow>
   made' = made @ cs \<and> (\<forall>n<length cs. os (made @ take n cs) (cs ! n) = None)"
proof (induction cs arbitrary: made)
  case (Cons c cs)
  from Cons.prems have c: "os made c = None" "socket_calls os (made @ [c]) cs = Inr made'"
    by (auto split: option.splits)
  from Cons.IH [OF c(2)] c(1) show ?case by (auto simp: less_Suc_eq_0_disj)
qed simp

lemma spawn_workers_handles: "spawn_workers spawns ids = Returned handles \<Longrightarrow> handles = map worker_name ids"
  by (induction ids arbitrary: handles) (auto split: if_splits outcome.splits)

lemma spawn_workers_all: "list_all (\<lambda>i. spawns (worker_name i)) ids \<Longrightarrow> spawn_workers spawns ids = Returned (map worker_name ids)"
  by (induction ids) auto

lemma server_new_workers: "server_new env aops config path = Returned (Inr sv) \<Longrightarrow> sv_workers sv = cfg_workers config"
  by (auto simp: server_new_def split: prod.splits outcome.splits sum.splits)

lemma loaded_workers:
  assumes "load_config_from_path env path = Inr config"
    and "pred_option (\<lambda>n. 1 \<le> n \<and> n \<le> usize_max) (env_parallelism env)"
  shows "1 \<le> cfg_workers config"
  using load_config_parses [OF assms(1)] parsed_config_wf [OF _ assms(2)] by (auto simp: config_wf_def)

section \<open>Properties\<close>


text \<open>The rounds of the reload thread are steps of the server.\<close>

lemma reload_rounds_steps:
  "sv_reloading sv \<Longrightarrow> set signals \<subseteq> envs \<Longrightarrow> (server_step envs ops aops min_buf)\<^sup>*\<^sup>* sv (reload_rounds aops signals sv)"
proof (induction signals arbitrary: sv)
  case (Cons env signals)
  have "server_step envs ops aops min_buf sv (reload env aops sv)"
    using Cons.prems by (intro step_reload) auto
  then show ?case
    using Cons.IH [of "reload env aops sv"] Cons.prems(2)
    by (auto simp: Let_def intro: converse_rtranclp_into_rtranclp)
qed simp

text \<open>A thread that does not start leaves the server with the configuration it was started with.\<close>

lemma run_reload_thread_steps:
  assumes "sv_reloading sv" and "set signals \<subseteq> envs" and "sv' = run_reload_thread runtime handler aops signals sv"
  shows "(server_step envs ops aops min_buf)\<^sup>*\<^sup>* sv sv' \<or> \<not> sv_reloading sv' \<and> sv_shared sv' = sv_shared sv"
  using assms(3) reload_rounds_steps [OF assms(1,2), of ops aops min_buf] by (auto simp: run_reload_thread_def)

text \<open>The rounds of a worker are steps of the server, and none of them panics.\<close>

lemma accept_round_step:
  assumes "asset_cache aops valid entries capacity"
    and "\<forall>env\<in>envs. pred_option (\<lambda>n. 1 \<le> n \<and> n \<le> usize_max) (env_parallelism env)"
    and "server_reachable envs ops aops min_buf sv"
  shows "\<exists>sv'. accept_round accepted sv = Returned sv' \<and> (server_step envs ops aops min_buf)\<^sup>=\<^sup>= sv sv'"
proof (cases accepted)
  case (Inr a)
  have "\<not> sc_poisoned (sv_shared sv)"
    using asset_cache.reachable_inv [OF assms(1,3)] assms(2) by (auto simp: server_inv_def)
  then have c: "config_load (sv_shared sv) = Returned (sc_current (sv_shared sv))" by (simp add: config_load_def)
  show ?thesis
    using step_accept [OF c, of envs ops aops min_buf] by (cases a) (auto simp: accept_round_def Inr c)
qed (simp add: accept_round_def)

section \<open>Examples\<close>

text \<open>Only the first of four workers comes up, and the process runs on.\<close>

definition example_worker_env :: "bool \<Rightarrow> (alist_headers, unit) worker_env" where
  "example_worker_env up =
     \<lparr>we_runtime = True, we_os = (\<lambda>made call. if up then None else Some ''refused''), we_connector = env_connector example_env\<rparr>"


end
