(* ===== verification/Server_Log.thy ===== *)
theory Server_Log
  imports Server_Limits Access_Log Process
begin

text \<open>
  What the server as a whole writes to the log: the records of the PROXY protocol, of the security
  manager, of a connection, of the reload thread and of the start, and with those of the requests the records of
  a run. The lines of several threads can mix within one event; what one thread writes keeps its order.
\<close>

section \<open>The records of the components\<close>

text \<open>\<open>handle_proxy_protocol\<close>, along its branches.\<close>

definition proxy_protocol_records :: "TcpStream \<Rightarrow> SocketAddr \<Rightarrow> SecurityConfig \<Rightarrow> log_record list" where
  "proxy_protocol_records stream peer_addr security_config =
     (let peer = (''peer'', socket_addr_to_string peer_addr);
          timeout_duration = from_millis (sec_timeout_ms security_config)
      in if \<not> sec_proxy_protocol security_config then []
         else if sa_ip peer_addr = sec_trusted_upstream security_config
         then (case read_header timeout_duration [] stream of
                 Elapsed \<Rightarrow> [rec_of ERROR ''proxy_protocol_timeout'' [peer]]
               | Completed (Inl err) \<Rightarrow> [rec_of ERROR ''proxy_protocol_parse_failed'' [peer, (''error'', err)]]
               | Completed (Inr (header_buf, rest)) \<Rightarrow>
                   (case header_addr header_buf of
                      Panicked \<Rightarrow> []
                    | Returned (Inl err) \<Rightarrow> [rec_of ERROR ''proxy_protocol_parse_failed'' [peer, (''error'', err)]]
                    | Returned (Inr client_addr) \<Rightarrow>
                        [rec_of INFO ''proxy_protocol_parsed'' [peer, (''client'', socket_addr_to_string client_addr)]]))
         else (case peek_prefix timeout_duration [] stream of
                 Elapsed \<Rightarrow> [rec_of ERROR ''proxy_protocol_timeout'' [peer]]
               | Completed (Inl err) \<Rightarrow> []
               | Completed (Inr (header_buf, rest)) \<Rightarrow>
                   (if starts_with (str_of_bytes header_buf) ''PROXY''
                    then [rec_of ERROR ''proxy_protocol_spoof_rejected'' [peer]] else [])))"

text \<open>\<open>record_tls_failure\<close>: the address was not banned, and this failure is one too many.\<close>

definition ban_records :: "Instant \<Rightarrow> IpAddr \<Rightarrow> SecurityManager \<Rightarrow> log_record list" where
  "ban_records now ip m =
     (let m1 = cleanup now m; failure_count = fst (track now ip (tls_failures m1))
      in if sm_poisoned m \<or> failure_count \<le> max_tls_failures m1 \<or> instant_add now (ban_duration m1) = None \<or>
            blacklist m1 ip \<noteq> None then []
         else [rec_of ERROR ''tls_failure_blacklist_triggered''
                 [(''ip'', ip_to_string ip), (''failures'', show_nat failure_count),
                  (''ban_duration_sec'', show_nat (as_secs (ban_duration m1)))]])"

text \<open>The task of a connection: \<open>dropped\<close> is common to its two checks.\<close>

definition dropped_peer :: "SocketAddr \<Rightarrow> log_record" where
  "dropped_peer addr = rec_of INFO ''connection_dropped_blacklisted'' [(''peer'', socket_addr_to_string addr)]"

definition resolve_records :: "TcpStream \<Rightarrow> SocketAddr \<Rightarrow> SecurityConfig option \<Rightarrow> log_record list" where
  "resolve_records stream peer_addr security_config =
     (case security_config of
        None \<Rightarrow> []
      | Some sec \<Rightarrow>
          proxy_protocol_records stream peer_addr sec @
          (case handle_proxy_protocol stream peer_addr sec of
             Returned (Inl err) \<Rightarrow>
               [rec_of ERROR ''security_check_failed'' [(''peer'', socket_addr_to_string peer_addr), (''error'', err)]]
           | _ \<Rightarrow> []))"

definition check_peer_records :: "Instant \<Rightarrow> TcpStream \<Rightarrow> ('key, 'h, 'b) connection \<Rightarrow> 'c Store \<Rightarrow> log_record list" where
  "check_peer_records t stream conn s =
     (case fst (with_manager (ac_security_manager (cn_config conn)) (is_blacklisted t (sa_ip (cn_peer conn))) s) of
        Panicked \<Rightarrow> []
      | Returned True \<Rightarrow> [dropped_peer (cn_peer conn)]
      | Returned False \<Rightarrow> resolve_records stream (cn_peer conn) (ac_security (cn_config conn)))"

definition check_resolved_records :: "Instant \<Rightarrow> SocketAddr \<Rightarrow> ('key, 'h, 'b) connection \<Rightarrow> 'c Store \<Rightarrow> log_record list" where
  "check_resolved_records t resolved_addr conn s =
     (case fst (with_manager (ac_security_manager (cn_config conn)) (is_blacklisted t (sa_ip resolved_addr)) s) of
        Returned True \<Rightarrow> [dropped_peer resolved_addr]
      | _ \<Rightarrow> [])"

definition handshake_record :: "SocketAddr \<Rightarrow> string \<Rightarrow> log_record" where
  "handshake_record resolved_addr e =
     rec_of ERROR ''tls_handshake_failed'' [(''peer'', socket_addr_to_string resolved_addr), (''error'', e)]"

definition handshake_records ::
  "Instant \<Rightarrow> string option \<Rightarrow> SocketAddr \<Rightarrow> ('key, 'h, 'b) connection \<Rightarrow> 'c Store \<Rightarrow> log_record list" where
  "handshake_records t err resolved_addr conn s =
     (case err of
        None \<Rightarrow> []
      | Some e \<Rightarrow>
          handshake_record resolved_addr e #
          ban_records t (sa_ip resolved_addr) (st_managers s ! ac_security_manager (cn_config conn)))"

text \<open>The pieces of a request.\<close>

definition request_next_records ::
  "('h, 'v) http_ops \<Rightarrow> ('c, 'h) asset_ops \<Rightarrow> (BoxError \<Rightarrow> string) \<Rightarrow> ('b Body \<Rightarrow> Bytes option) \<Rightarrow> ('h, 'b) HttpClient \<Rightarrow>
   Instant \<Rightarrow> string \<Rightarrow> ('key, 'h, 'b) request_task \<Rightarrow> 'c Store \<Rightarrow> log_record list" where
  "request_next_records ops aops show_err collect client t duration_ms k s =
     (let ac = rk_config k; req = rk_request k; client_ip = rk_client_ip ops k;
          host = request_host ops (rq_uri req) (rq_headers req)
      in case rk_stage k of
           Arrived \<Rightarrow>
             (case fst (ban_check ac t client_ip s) of
                Returned True \<Rightarrow> [dropped_record client_ip host (path_and_query_of (rq_uri req))]
              | _ \<Rightarrow> [])
         | Unbanned \<Rightarrow>
             (case fst (rate_check ac t client_ip s) of
                Returned (Inl count) \<Rightarrow>
                  [rate_limit_record ac client_ip (uri_path (rq_uri req)) host count,
                   request_record ops duration_ms (rk_peer k) client_ip host req 429 ''-'']
              | _ \<Rightarrow> [])
         | Admitted \<Rightarrow>
             (if payload_too_large ops (max_body_size_of ac) (rq_headers req)
              then [payload_record ops (max_body_size_of ac) client_ip host (rq_headers req)] else [])
         | Looked cached \<Rightarrow>
             answer_records ops aops show_err collect client ac (rk_peer k) client_ip duration_ms cached req s
         | _ \<Rightarrow> [])"

text \<open>The round of the reload thread; \<open>debug\<close> is the derived \<open>Debug\<close> of \<open>ParseError\<close>.\<close>

definition reload_records ::
  "(ParseError \<Rightarrow> string) \<Rightarrow> ('file, 'cert, 'priv, 'key, 'h, 'b) environment \<Rightarrow> ('c, 'h) asset_ops \<Rightarrow>
   ('key, 'c, 'h, 'b) Server \<Rightarrow> log_record list" where
  "reload_records debug env aops sv =
     rec_of INFO ''config_reload_requested'' [(''path'', sv_config_path sv)] #
     (case config_load (sv_shared sv) of
        Panicked \<Rightarrow> []
      | Returned current \<Rightarrow>
          (case fst (load_active_config_from_path env aops (sv_config_path sv) (sv_port sv) (sv_workers sv)
                  (usize_add (sv_generation sv) 1) (Some (ac_security_manager current)) (sv_store sv)) of
             Panicked \<Rightarrow> []
           | Returned (Inl error) \<Rightarrow>
               [rec_of ERROR ''config_reload_failed'' [(''path'', sv_config_path sv), (''error'', load_error_text debug error)]]
           | Returned (Inr ac) \<Rightarrow>
               (if update_log_file (env_open_log env) (ac_logfile ac) (sv_log sv) = Panicked \<or>
                   fst (config_store ac (sv_shared sv)) = Panicked then []
                else [rec_of INFO ''config_reloaded''
                        [(''path'', sv_config_path sv), (''generation'', show_nat (ac_generation ac))]])))"

section \<open>The records of a run\<close>

fun event_records ::
  "('h, 'v) http_ops \<Rightarrow> ('c, 'h) asset_ops \<Rightarrow> (BoxError \<Rightarrow> string) \<Rightarrow> (ParseError \<Rightarrow> string) \<Rightarrow>
   ('file, 'cert, 'priv, 'key, 'h, 'b) server_event \<Rightarrow> ('key, 'c, 'h, 'b) Server \<Rightarrow> log_record list" where
  "event_records ops aops show_err debug (Reload env) sv = reload_records debug env aops sv"
| "event_records ops aops show_err debug (AcceptError worker e) sv =
     [rec_of ERROR ''accept_error'' [(''id'', show_nat worker), (''error'', e)]]"
| "event_records ops aops show_err debug (CheckPeer i t) sv =
     (case conn_stage sv i of
        Some (Accepted stream) \<Rightarrow> check_peer_records t stream (sv_conns sv ! i) (sv_store sv)
      | _ \<Rightarrow> [])"
| "event_records ops aops show_err debug (CheckResolved i t) sv =
     (case conn_stage sv i of
        Some (Resolved ps addr pp) \<Rightarrow> check_resolved_records t addr (sv_conns sv ! i) (sv_store sv)
      | _ \<Rightarrow> [])"
| "event_records ops aops show_err debug (Handshake i t err) sv =
     (case conn_stage sv i of
        Some (Handshaking ps addr pp) \<Rightarrow> handshake_records t err addr (sv_conns sv ! i) (sv_store sv)
      | _ \<Rightarrow> [])"
| "event_records ops aops show_err debug (Proceed j t collect client duration) sv =
     request_next_records ops aops show_err collect client t duration (sv_requests sv ! j) (sv_store sv)"
| "event_records ops aops show_err debug (Insert task now client_ip host path) sv =
     (case run_insert_task aops now task (sv_store sv) of
        None \<Rightarrow> []
      | Some (r, s) \<Rightarrow> insert_records aops client_ip host path task r (st_engines s ! it_engine task))"
| "event_records ops aops show_err debug (TunnelEnd peer upstream client_upgrade upstream_upgrade copied) sv =
     tunnel_records peer upstream client_upgrade upstream_upgrade copied"
| "event_records ops aops show_err debug (Close i err) sv =
     (case (conn_stage sv i, err) of
        (Some (Serving addr pp limits), Some e) \<Rightarrow>
          [rec_of ERROR ''connection_error'' [(''peer'', socket_addr_to_string addr), (''error'', e)]]
      | _ \<Rightarrow> [])"
| "event_records ops aops show_err debug ev sv = []"

definition run_records ::
  "('h, 'v) http_ops \<Rightarrow> ('c, 'h) asset_ops \<Rightarrow> nat \<Rightarrow> (BoxError \<Rightarrow> string) \<Rightarrow> (ParseError \<Rightarrow> string) \<Rightarrow>
   ('file, 'cert, 'priv, 'key, 'h, 'b) server_event list \<Rightarrow> ('key, 'c, 'h, 'b) Server \<Rightarrow> log_record list" where
  "run_records ops aops min_buf show_err debug evs sv = run_labels ops aops min_buf (event_records ops aops show_err debug) evs sv"

lemma run_records_simps:
  "run_records ops aops min_buf show_err debug [] sv = []"
  "server_run envs ops aops min_buf config sv evs sv1 \<Longrightarrow>
   run_records ops aops min_buf show_err debug (evs @ [ev]) sv =
     run_records ops aops min_buf show_err debug evs sv @ event_records ops aops show_err debug ev sv1"
  by (simp_all add: run_records_def server_run_labels)

section \<open>Reloads\<close>

text \<open>The records of a successful reload.\<close>

definition reloads :: "log_record list \<Rightarrow> log_record list" where
  "reloads rs = filter (\<lambda>r. lr_event r = ''config_reloaded'') rs"

lemma reloads_simps [simp]:
  "reloads [] = []" "reloads (rs @ rs') = reloads rs @ reloads rs'"
  "reloads (r # rs) = (if lr_event r = ''config_reloaded'' then r # reloads rs else reloads rs)"
  by (simp_all add: reloads_def)

lemma reloads_route [simp]: "reloads (route_records ops aops show_err client ac peer ip host engine m req s) = []"
  by (simp add: route_records_def auth_records_def provider_records_def upstream_records_def Let_def
      split: option.splits sum.splits AuthResult.splits)

lemma reloads_final [simp]: "reloads (final_records ops d peer ip host req up f) = []"
  by (cases f) (simp_all split: sum.splits)

lemma reloads_request [simp]: "reloads (request_next_records ops aops show_err collect client t d k s) = []"
  by (simp add: request_next_records_def answer_records_def Let_def
      split: request_stage.splits outcome.splits bool.splits sum.splits option.splits)

lemma reloads_connection [simp]:
  "reloads (check_peer_records t stream conn s) = []" "reloads (check_resolved_records t addr conn s) = []"
  "reloads (handshake_records t err addr conn s) = []"
  by (simp_all add: check_peer_records_def check_resolved_records_def handshake_records_def handshake_record_def resolve_records_def
      proxy_protocol_records_def dropped_peer_def ban_records_def Let_def
      split: outcome.splits bool.splits option.splits sum.splits timed.splits prod.splits)

lemma reloads_event:
  "reloads (event_records ops aops show_err debug ev sv) =
   (case ev of Reload env \<Rightarrow> reloads (reload_records debug env aops sv) | _ \<Rightarrow> [])"
  by (cases ev) (simp_all add: insert_records_def tunnel_records_def Let_def split: option.splits stage.splits sum.splits prod.splits)

text \<open>Only a reload changes the configuration, its generation and the log file.\<close>

lemma exec_event_keeps:
  assumes "exec_event ops aops min_buf ev sv = Some sv'" and "\<forall>env. ev \<noteq> Reload env"
  shows "sv_shared sv' = sv_shared sv \<and> sv_generation sv' = sv_generation sv \<and> sv_log sv' = sv_log sv \<and>
    sv_config_path sv' = sv_config_path sv"
  using assms
  by (cases rule: exec_event_cases) (simp_all add: accept_connection_def begin_request_def set_stage_def set_request_def)

text \<open>A reload either leaves all of them or takes over a configuration of the next generation.\<close>

lemma build_active_config_generation:
  "build_active_config env aops config generation sm s = (Returned (Inr ac), s') \<Longrightarrow> ac_generation ac = generation"
  by (auto simp: build_active_config_def Let_def split: sum.splits option.splits outcome.splits prod.splits)

lemma update_log_file_path: "update_log_file f path log0 = Returned log \<Longrightarrow> map_option lf_path log = path"
  by (auto simp: update_log_file_def split: option.splits)

lemma server_new_log:
  "server_new env aops config path = Returned (Inr sv) \<Longrightarrow>
   sv_generation sv = 0 \<and> map_option lf_path (sv_log sv) = ac_logfile (sc_current (sv_shared sv))"
  by (auto simp: server_new_def create_config_store_def dest: update_log_file_path split: prod.splits outcome.splits sum.splits)

lemma reload_effect:
  assumes "\<not> sc_poisoned (sv_shared sv)" and "sv' = reload env aops sv"
  shows "sv_config_path sv' = sv_config_path sv \<and>
    (reloads (reload_records debug env aops sv) = [] \<and> sv_shared sv' = sv_shared sv \<and> sv_log sv' = sv_log sv \<and>
       sv_generation sv' = sv_generation sv \<or>
     reloads (reload_records debug env aops sv) =
       [rec_of INFO ''config_reloaded'' [(''path'', sv_config_path sv), (''generation'', show_nat (sv_generation sv'))]] \<and>
       sv_generation sv' = usize_add (sv_generation sv) 1 \<and>
       map_option lf_path (sv_log sv') = ac_logfile (sc_current (sv_shared sv')))"
proof -
  obtain r s where load: "load_active_config_from_path env aops (sv_config_path sv) (sv_port sv) (sv_workers sv)
    (usize_add (sv_generation sv) 1) (Some (ac_security_manager (sc_current (sv_shared sv)))) (sv_store sv) = (r, s)" by fastforce
  have c: "config_load (sv_shared sv) = Returned (sc_current (sv_shared sv))" using assms(1) by (simp add: config_load_def)
  note defs = assms(2) reload_def reload_records_def c load
  show ?thesis
  proof (cases "\<exists>ac. r = Returned (Inr ac)")
    case True
    then obtain ac where r: "r = Returned (Inr ac)" by blast
    with load have "ac_generation ac = usize_add (sv_generation sv) 1"
      by (auto elim: load_active_config_loaded dest: build_active_config_generation)
    then show ?thesis
      using assms(1) update_log_file_path [of "env_open_log env" "ac_logfile ac" "sv_log sv"]
      by (cases "update_log_file (env_open_log env) (ac_logfile ac) (sv_log sv)") (simp_all add: defs r config_store_def del: One_nat_def)
  next
    case False
    then show ?thesis by (cases r rule: outcome.exhaust) (auto simp: defs simp del: One_nat_def split: sum.splits)
  qed
qed

section \<open>Bans\<close>

definition ban_recorded :: "IpAddr \<Rightarrow> log_record list \<Rightarrow> bool" where
  "ban_recorded ip rs \<longleftrightarrow>
     list_ex (\<lambda>r. lr_event r = ''tls_failure_blacklist_triggered'' \<and> (''ip'', ip_to_string ip) \<in> set (lr_fields r)) rs"

lemma ban_recorded_append [simp]: "ban_recorded ip (rs @ rs') \<longleftrightarrow> ban_recorded ip rs \<or> ban_recorded ip rs'"
  by (simp add: ban_recorded_def)

text \<open>The other operations only take addresses off the blacklist.\<close>

lemma cleanup_blacklist: "blacklist (cleanup now m) ip = Some u \<Longrightarrow> blacklist m ip = Some u"
  by (auto simp: cleanup_def split: option.splits if_splits)

lemma is_blacklisted_blacklist: "blacklist (snd (is_blacklisted now ip' m)) ip = Some u \<Longrightarrow> blacklist m ip = Some u"
  by (auto simp: is_blacklisted_def locked_def split: option.splits if_splits)

lemma check_and_record_request_blacklist:
  "blacklist (snd (check_and_record_request now ip' m)) ip = Some u \<Longrightarrow> blacklist m ip = Some u"
  by (auto simp: check_and_record_request_def locked_def Let_def dest: cleanup_blacklist split: prod.splits if_splits)

lemmas blacklist_kept = cleanup_blacklist is_blacklisted_blacklist check_and_record_request_blacklist

text \<open>A failed handshake adds at most its address to the blacklist, and then there is a record of it.\<close>

lemma record_tls_failure_blacklist:
  assumes "ip \<in> dom (blacklist (snd (record_tls_failure now ip' m)))"
  shows "ip \<in> dom (blacklist m) \<or> ip = ip' \<and> ban_recorded ip (ban_records now ip' m)"
proof (cases "ip \<in> dom (blacklist (cleanup now m))")
  case True
  then show ?thesis by (auto dest: cleanup_blacklist)
next
  case False
  then show ?thesis
    using assms by (auto simp: record_tls_failure_def locked_def ban_records_def ban_recorded_def Let_def
        split: if_splits option.splits prod.splits)
qed

context asset_cache
begin

lemma event_blacklist:
  assumes "exec_event hops ops min_buf ev sv = Some sv'" and "server_inv valid entries sv"
    and "st_managers (sv_store sv) = [m]" and "st_managers (sv_store sv') = [m']" and "ip \<in> dom (blacklist m')"
  shows "ip \<in> dom (blacklist m) \<or> ban_recorded ip (event_records hops ops show_err debug ev sv)"
proof -
  have m': "m' = snd (run sec_step (event_calls hops ev sv) m)"
    using exec_event_managers [OF assms(1-3)] assms(4) by simp
  show ?thesis
    using assms(1)
  proof (cases rule: exec_event_cases)
    case (handshake i t err ps addr pp)
    then have "ac_security_manager (cn_config (sv_conns sv ! i)) = 0"
      using assms(2) by (simp add: server_inv_def list_all_length config_ok_def)
    then show ?thesis
      using handshake assms(3,5) record_tls_failure_blacklist [of ip t "sa_ip addr" m]
      by (auto simp: m' conn_stage_def handshake_records_def ban_recorded_def split: option.splits if_splits)
  next
    case (proceed j t collect client duration)
    then show ?thesis
      using assms(5) by (auto simp: m' request_calls_def dest: blacklist_kept split: option.splits request_stage.splits)
  qed (use assms(5) in \<open>auto simp: m' conn_stage_def dest: blacklist_kept\<close>)
qed

end

context asset_cache
begin

lemma run_reloads:
  assumes "server_run envs hops ops min_buf config sv0 evs sv"
    and "\<And>env. env \<in> envs \<Longrightarrow> pred_option (\<lambda>n. 1 \<le> n \<and> n \<le> usize_max) (env_parallelism env)"
  shows "length evs \<le> usize_max \<longrightarrow>
    reloads (run_records hops ops min_buf show_err debug evs sv0) =
      map (\<lambda>g. rec_of INFO ''config_reloaded'' [(''path'', sv_config_path sv0), (''generation'', show_nat g)]) [1..<Suc (sv_generation sv)] \<and>
    sv_generation sv \<le> length evs \<and> sv_config_path sv = sv_config_path sv0"
  using assms(1)
proof (induction rule: server_run_induct)
  case start
  then have "sv_generation sv0 = 0" by (auto simp: server_started_def dest: server_new_log)
  then show ?case by (simp add: run_records_simps)
next
  case (event evs sv ev sv')
  have inv: "\<not> sc_poisoned (sv_shared sv)" using run_inv [OF event.hyps(1) assms(2)] by (simp add: server_inv_def)
  show ?case
  proof (cases "\<exists>env. ev = Reload env")
    case True
    then obtain env where ev: "ev = Reload env" by blast
    then have "sv' = reload env ops sv" using event.hyps(3) by (simp split: if_splits)
    from reload_effect [OF inv this, of debug] show ?thesis
      using event.IH by (auto simp: run_records_simps(2) [OF event.hyps(1)] ev usize_add_exact)
  next
    case False
    then show ?thesis
      using event.IH exec_event_keeps [OF event.hyps(3)]
      by (auto simp: run_records_simps(2) [OF event.hyps(1)] reloads_event split: server_event.splits)
  qed
qed

lemma run_log_path:
  assumes "server_run envs hops ops min_buf config sv0 evs sv"
    and "\<And>env. env \<in> envs \<Longrightarrow> pred_option (\<lambda>n. 1 \<le> n \<and> n \<le> usize_max) (env_parallelism env)"
  shows "map_option lf_path (sv_log sv) = ac_logfile (sc_current (sv_shared sv))"
  using assms(1)
proof (induction rule: server_run_induct)
  case start
  then show ?case by (auto simp: server_started_def dest: server_new_log)
next
  case (event evs sv ev sv')
  have inv: "\<not> sc_poisoned (sv_shared sv)" using run_inv [OF event.hyps(1) assms(2)] by (simp add: server_inv_def)
  show ?case
  proof (cases "\<exists>env. ev = Reload env")
    case True
    then obtain env where ev: "ev = Reload env" by blast
    then have "sv' = reload env ops sv" using event.hyps(3) by (simp split: if_splits)
    from reload_effect [OF inv this, of "\<lambda>e. []"] show ?thesis using event.IH by auto
  next
    case False
    then show ?thesis using event.IH exec_event_keeps [OF event.hyps(3)] by simp
  qed
qed

lemma run_bans_recorded:
  assumes "server_run envs hops ops min_buf config sv0 evs sv"
    and "\<And>env. env \<in> envs \<Longrightarrow> pred_option (\<lambda>n. 1 \<le> n \<and> n \<le> usize_max) (env_parallelism env)"
  shows "ip \<in> dom (blacklist (st_managers (sv_store sv) ! 0)) \<longrightarrow>
    ban_recorded ip (run_records hops ops min_buf show_err debug evs sv0)"
  using assms(1)
proof (induction rule: server_run_induct)
  case start
  then have "server_run envs hops ops min_buf config sv0 [] sv0" by (simp add: server_run_def)
  from run_manager [OF this assms(2)] show ?case
    by (simp add: run_calls_simps from_security_config_def security_default_def security_new_def split: option.splits)
next
  case (event evs sv ev sv')
  note run' = server_run_snoc [OF event.hyps]
  show ?case
    using event.IH event_blacklist [OF event.hyps(3) run_inv [OF event.hyps(1) assms(2)]
        run_manager [OF event.hyps(1) assms(2)] run_manager [OF run' assms(2)], of ip show_err debug]
      run_manager [OF event.hyps(1) assms(2)] run_manager [OF run' assms(2)]
    by (auto simp: run_records_simps(2) [OF event.hyps(1)])
qed

end

text \<open>The records of the pieces of a request, run one after the other.\<close>

fun request_log ::
  "('h, 'v) http_ops \<Rightarrow> ('c, 'h) asset_ops \<Rightarrow> (BoxError \<Rightarrow> string) \<Rightarrow> ('b Body \<Rightarrow> Bytes option) \<Rightarrow> ('h, 'b) HttpClient \<Rightarrow>
   string \<Rightarrow> ('key, 'h, 'b) request_task \<Rightarrow> Instant list \<Rightarrow> ('h, 'b) request_stage \<times> 'c Store \<Rightarrow> log_record list" where
  "request_log ops aops show_err collect client d k [] r = []"
| "request_log ops aops show_err collect client d k (t # ts) r =
     request_next_records ops aops show_err collect client t d (k\<lparr>rk_stage := fst r\<rparr>) (snd r) @
     request_log ops aops show_err collect client d k ts (request_next ops aops collect client t (k\<lparr>rk_stage := fst r\<rparr>) (snd r))"

lemma request_next_records_settled:
  "request_next_records ops aops show_err collect client t d (k\<lparr>rk_stage := Answered r\<rparr>) s = []"
  by (simp add: request_next_records_def)

text \<open>The pieces of a request that is not interrupted write the records of the handler, in its order.\<close>

lemma request_records_whole:
  "request_log ops aops show_err collect client d k [t1, t2, t3, t4] (Arrived, s) =
   handler_records ops aops show_err collect client (rk_config k) (rk_peer k) (rk_proxied k) t1 t2 t3 d (rk_request k) s"
proof -
  let ?ip = "client_ip_of ops (rk_proxied k) (rk_peer k) (rq_headers (rk_request k))"
  obtain b s1 where b: "ban_check (rk_config k) t1 ?ip s = (b, s1)" by fastforce
  obtain x s2 where x: "rate_check (rk_config k) t2 ?ip s1 = (x, s2)" by fastforce
  obtain cached s3 where l: "lookup_request ops aops (rk_config k) t3 (rk_request k) s2 = (cached, s3)" by fastforce
  have settled: "request_next ops aops collect client t (k\<lparr>rk_stage := Answered r\<rparr>) s = (Answered r, s)" for t r s
    by (simp add: request_next_settled)
  show ?thesis
    by (auto simp: settled request_next_records_settled handler_records_def security_gate_def b x l Let_def rk_client_ip_def
        request_next_def [of _ _ _ _ _ "k\<lparr>rk_stage := Arrived\<rparr>"] request_next_def [of _ _ _ _ _ "k\<lparr>rk_stage := Unbanned\<rparr>"]
        request_next_def [of _ _ _ _ _ "k\<lparr>rk_stage := Admitted\<rparr>"] request_next_records_def [of _ _ _ _ _ _ _ "k\<lparr>rk_stage := Arrived\<rparr>"]
        request_next_records_def [of _ _ _ _ _ _ _ "k\<lparr>rk_stage := Unbanned\<rparr>"]
        request_next_records_def [of _ _ _ _ _ _ _ "k\<lparr>rk_stage := Admitted\<rparr>"]
        request_next_records_def [of _ _ _ _ _ _ _ "k\<lparr>rk_stage := Looked _\<rparr>"]
        split: outcome.splits bool.splits sum.splits)
qed

section \<open>Log lines and their effects\<close>

text \<open>
  The end of a failed handshake with its log calls in place: the first comes before the failure is counted, the
  second inside the critical section of the manager, after the ban. A panic in the first ends the task; one
  in the second leaves the lock poisoned.
\<close>

definition poison_manager :: "nat \<Rightarrow> 'c Store \<Rightarrow> 'c Store" where
  "poison_manager r s = s\<lparr>st_managers := (st_managers s)[r := (st_managers s ! r)\<lparr>sm_poisoned := True\<rparr>]\<rparr>"

definition failed_handshake_logged ::
  "string \<Rightarrow> string \<Rightarrow> string option \<Rightarrow> Instant \<Rightarrow> string \<Rightarrow> SocketAddr \<Rightarrow> ('key, 'h, 'b) connection \<Rightarrow> 'c Store \<Rightarrow> log_state \<Rightarrow>
   (stage \<times> 'c Store) \<times> log_state" where
  "failed_handshake_logged stamp1 stamp2 thread t e resolved_addr conn s st =
     (let r = ac_security_manager (cn_config conn)
      in case write_records thread [(stamp1, handshake_record resolved_addr e)] st of
           (Panicked, st1) \<Rightarrow> ((Closed, s), st1)
         | (Returned _, st1) \<Rightarrow>
             (let s1 = snd (with_manager r (record_tls_failure t (sa_ip resolved_addr)) s)
              in case write_records thread (map (Pair stamp2) (ban_records t (sa_ip resolved_addr) (st_managers s ! r))) st1 of
                   (Panicked, st2) \<Rightarrow> ((Closed, poison_manager r s1), st2)
                 | (Returned _, st2) \<Rightarrow> ((Closed, s1), st2)))"

section \<open>The start\<close>

text \<open>
  The main thread with its two log calls: the first comes before the server opens the log file, the second after it.
\<close>

definition startup_record :: "Config \<Rightarrow> log_record" where
  "startup_record config =
     rec_of INFO ''server_startup'' [(''listen_port'', show_nat (cfg_listen_port config)), (''workers'', show_nat (cfg_workers config))]"

definition workers_record :: "('key, 'c, 'h, 'b) Server \<Rightarrow> log_record" where
  "workers_record sv =
     rec_of INFO ''starting_workers''
       [(''count'', show_nat (sv_workers sv)), (''addr'', socket_addr_to_string \<lparr>sa_ip = V4 0 0 0 0, sa_port = sv_port sv\<rparr>)]"

definition main_log ::
  "string \<Rightarrow> string \<Rightarrow> string option \<Rightarrow> ('file, 'cert, 'priv, 'key, 'h, 'b) environment \<Rightarrow> ('c, 'h) asset_ops \<Rightarrow> log_state \<Rightarrow>
   unit outcome \<times> log_state" where
  "main_log stamp1 stamp2 thread env aops st =
     (case load_config_from_path env ''proxy.conf'' of
        Inl e \<Rightarrow> (Panicked, st)
      | Inr config \<Rightarrow>
          (case write_records thread [(stamp1, startup_record config)] st of
             (Panicked, st1) \<Rightarrow> (Panicked, st1)
           | (Returned _, st1) \<Rightarrow>
               (case server_new env aops config ''proxy.conf'' of
                  Panicked \<Rightarrow> (Panicked, st1)
                | Returned (Inl e) \<Rightarrow> (Panicked, st1)
                | Returned (Inr sv) \<Rightarrow> write_records thread [(stamp2, workers_record sv)] (st1\<lparr>lg_file := sv_log sv\<rparr>))))"

text \<open>So the first line is on standard output only, and the log file begins with the second.\<close>

lemma main_log_lines:
  assumes "load_config_from_path env ''proxy.conf'' = Inr config" and "server_new env aops config ''proxy.conf'' = Returned (Inr sv)"
    and "\<not> lg_broken st" and "lg_file st = None"
  shows "main_log stamp1 stamp2 thread env aops st =
    (Returned (), st\<lparr>lg_stdout := lg_stdout st @ map (record_line thread) [(stamp1, startup_record config), (stamp2, workers_record sv)],
       lg_file := map_option (\<lambda>f. f\<lparr>lf_lines := lf_lines f @ [record_line thread (stamp2, workers_record sv)]\<rparr>) (sv_log sv)\<rparr>)"
  using assms by (simp add: main_log_def write_records_lines del: write_records.simps)

text \<open>A worker announces itself once it listens, the reload thread once it waits for the signal.\<close>

definition worker_records :: "('h, 'b) worker_env \<Rightarrow> nat \<Rightarrow> SocketAddr \<Rightarrow> log_record list" where
  "worker_records we worker addr =
     (if \<not> we_runtime we then []
      else (case bind_reuseport (we_os we) addr of
              Inl error \<Rightarrow> []
            | Inr listener \<Rightarrow>
                [rec_of INFO ''worker_listening'' [(''id'', show_nat worker), (''addr'', socket_addr_to_string addr)]]))"

definition reload_ready_records :: "bool \<Rightarrow> bool \<Rightarrow> string \<Rightarrow> log_record list" where
  "reload_ready_records runtime handler config_path =
     (if runtime \<and> handler
      then [rec_of INFO ''config_reload_ready'' [(''path'', config_path), (''signal'', ''SIGHUP'')]] else [])"

text \<open>A worker that runs has announced itself; one that has not announced itself is dead.\<close>

lemma worker_announced: "worker_start we addr shared \<noteq> Panicked \<Longrightarrow> worker_records we worker addr \<noteq> []"
  by (simp add: worker_start_def worker_records_def split: if_splits sum.splits outcome.splits)

section \<open>Properties\<close>

text \<open>
  C24: the log tells which configurations have been in use. In any run the records of successful reloads
  carry the generations 1, 2, 3 and so on, without gaps and in order, up to the generation of the configuration in use.
  Reloads that fail are not counted. The open log file is the one that this configuration names, and none is open if it
  names none: a reload switches the file together with the configuration or leaves both.
\<close>

theorem reload_generations:
  assumes "asset_cache aops valid entries capacity" and "server_run envs ops aops min_buf config sv0 evs sv"
    and "\<And>env. env \<in> envs \<Longrightarrow> pred_option (\<lambda>n. 1 \<le> n \<and> n \<le> usize_max) (env_parallelism env)"
    and "length evs \<le> usize_max"
  shows "reloads (run_records ops aops min_buf show_err debug evs sv0) =
    map (\<lambda>g. rec_of INFO ''config_reloaded'' [(''path'', sv_config_path sv0), (''generation'', show_nat g)])
      [1..<Suc (ac_generation (sc_current (sv_shared sv)))] \<and>
    map_option lf_path (sv_log sv) = ac_logfile (sc_current (sv_shared sv))"
  using asset_cache.run_reloads [OF assms(1-3), of show_err debug] asset_cache.run_inv [OF assms(1-3)]
    asset_cache.run_log_path [OF assms(1-3)] assms(4)
  by (simp add: server_inv_def)

text \<open>
  C25: no address is banned silently. If in a state of a run the security manager reports an address as blacklisted, so
  that its connections are closed, then the run has written a record that names the address and says that it was
  put on the blacklist.
\<close>

theorem bans_recorded:
  assumes "asset_cache aops valid entries capacity" and "server_run envs ops aops min_buf config sv0 evs sv"
    and "\<And>env. env \<in> envs \<Longrightarrow> pred_option (\<lambda>n. 1 \<le> n \<and> n \<le> usize_max) (env_parallelism env)"
    and "fst (is_blacklisted t ip (st_managers (sv_store sv) ! 0)) = Returned True"
  shows "ban_recorded ip (run_records ops aops min_buf show_err debug evs sv0)"
proof -
  have "ip \<in> dom (blacklist (st_managers (sv_store sv) ! 0))"
    using assms(4) by (auto simp: is_blacklisted_def locked_def split: if_splits option.splits)
  then show ?thesis using asset_cache.run_bans_recorded [OF assms(1-3)] by blast
qed

text \<open>
  C37: a failed handshake counts only if its log line can be written. While standard output takes lines, the
  failure is counted and the lines of the records are written; once it is broken, the task ends before the failure
  is counted, so that no address is banned any more.
\<close>

theorem failed_handshake_counts:
  "failed_handshake_logged stamp1 stamp2 thread t e addr conn s st =
   (if lg_broken st then ((Closed, s), st)
    else (finish_handshake min_buf shared t False addr pp conn s,
          snd (write_records thread ((stamp1, handshake_record addr e) #
            map (Pair stamp2) (ban_records t (sa_ip addr) (st_managers s ! ac_security_manager (cn_config conn)))) st)))"
proof (cases "lg_broken st")
  case True
  then show ?thesis by (simp add: failed_handshake_logged_def write_records_broken Let_def del: write_records.simps)
next
  case False
  then show ?thesis
    by (simp add: failed_handshake_logged_def finish_handshake_def write_records_lines
        option.map_comp comp_def case_prod_beta Let_def del: write_records.simps)
qed

section \<open>Examples\<close>

text \<open>A reload that names a log file, after the start without one.\<close>

definition example_switch_env :: "(string, string, string, string, alist_headers, unit) environment" where
  "example_switch_env = example_log_env\<lparr>env_open_log := (\<lambda>dir path. Some [])\<rparr>"

lemma example_switch:
  "ac_generation (sc_current (sv_shared (reload example_switch_env list_lru_ops example_server))) = 1"
  "ac_logfile (sc_current (sv_shared (reload example_switch_env list_lru_ops example_server))) = Some ''/l''"
proof -
  have "load_config_from_path example_switch_env ''proxy.conf'' = Inr example_log_cfg"
    by (simp add: load_config_from_path_def example_switch_env_def example_log_env_def example_env_def map_err_def example_log_parses)
  then obtain ac s where l: "load_active_config_from_path example_switch_env list_lru_ops (sv_config_path example_server)
      (sv_port example_server) (sv_workers example_server) (usize_add (sv_generation example_server) 1)
      (Some (ac_security_manager (sc_current (sv_shared example_server)))) (sv_store example_server) = (Returned (Inr ac), s)"
    and f: "ac_logfile ac = Some ''/l''" "ac_generation ac = usize_add 0 1"
    by (simp add: load_active_config_from_path_def build_active_config_def build_tls_acceptor_def https_endpoint_def
        build_auth_provider_def build_cache_engine_def example_log_cfg_def example_server_def str_eval del: One_nat_def)
  have "config_load (sv_shared example_server) = Returned (sc_current (sv_shared example_server))"
    "config_store ac (sv_shared example_server) = (Returned (), (sv_shared example_server)\<lparr>sc_current := ac\<rparr>)"
    "update_log_file (env_open_log example_switch_env) (Some ''/l'') log = Returned (Some \<lparr>lf_path = ''/l'', lf_lines = []\<rparr>)" for log
    by (simp_all add: config_load_def config_store_def example_server_def create_config_store_def update_log_file_def example_switch_env_def)
  then show "ac_generation (sc_current (sv_shared (reload example_switch_env list_lru_ops example_server))) = 1"
    "ac_logfile (sc_current (sv_shared (reload example_switch_env list_lru_ops example_server))) = Some ''/l''"
    by (simp_all add: reload_def l f usize_add_exact del: One_nat_def)
qed

lemma example_switch_run:
  "server_run {example_env, example_switch_env} example_http list_lru_ops 8192 example_auth_cfg example_server [Reload example_switch_env]
     (reload example_switch_env list_lru_ops example_server)"
proof -
  have "sv_config_path example_server = ''proxy.conf''" "sv_reloading example_server" by (simp_all add: example_server_def)
  then show ?thesis using example_started by (simp add: server_run_def server_started_def)
qed

lemma example_switch_envs:
  "env \<in> {example_env, example_switch_env} \<Longrightarrow> pred_option (\<lambda>n. 1 \<le> n \<and> n \<le> usize_max) (env_parallelism env)"
  by (auto simp: example_env_def example_switch_env_def example_log_env_def)

theorem reload_generations_witness:
  "reloads (run_records example_http list_lru_ops 8192 (\<lambda>e. []) (\<lambda>e. []) [Reload example_switch_env] example_server) =
     [rec_of INFO ''config_reloaded'' [(''path'', ''proxy.conf''), (''generation'', ''1'')]] \<and>
   map_option lf_path (sv_log (reload example_switch_env list_lru_ops example_server)) = Some ''/l''"
proof -
  have "sv_config_path example_server = ''proxy.conf''" by (simp add: example_server_def)
  then show ?thesis
    using reload_generations [OF list_asset_cache example_switch_run example_switch_envs, of "\<lambda>e. []" "\<lambda>e. []"]
    by (simp add: example_switch show_nat.simps str_eval)
qed

text \<open>The ban of the example with TLS, and its record.\<close>

theorem bans_recorded_witness:
  "ban_recorded (V4 1 2 3 4)
     (run_records example_http list_lru_ops 8192 (\<lambda>e. []) (\<lambda>e. []) example_tls_events example_tls_server)"
proof (rule bans_recorded [OF list_asset_cache example_tls_run])
  show "fst (is_blacklisted 5 (V4 1 2 3 4) (st_managers (sv_store (example_tls_at example_banned [Closed, Accepted []])) ! 0)) =
      Returned True"
    by (simp add: is_blacklisted_def locked_def example_banned_def from_security_config_def example_tls_cfg_def security_new_def from_secs_def)
qed (simp add: example_tls_env_def example_env_def)

end
