(* ===== verification/Parser_Tests.thy ===== *)
theory Parser_Tests
  imports Config_Parser
begin

text \<open>
  The unit tests of \<open>src/src/parser.rs\<close>, one definition per test function, with its input and its
  assertions, run on the model of the parser. \<open>p\<close> is the answer of \<open>available_parallelism\<close>, on which no test
  depends. The example configuration file of the repository, which a test reads, is \<open>proxy_conf_example\<close>.
\<close>

section \<open>The tests\<close>

text \<open>\<open>unwrap\<close> and \<open>unwrap_err\<close>, with the assertions on the result.\<close>

definition parses :: "nat option \<Rightarrow> string \<Rightarrow> (Config \<Rightarrow> bool) \<Rightarrow> bool" where
  "parses p input assertions = (case parse_proxy_config p input of Inl e \<Rightarrow> False | Inr config \<Rightarrow> assertions config)"

definition rejects :: "nat option \<Rightarrow> string \<Rightarrow> (ParseError \<Rightarrow> bool) \<Rightarrow> bool" where
  "rejects p input assertions = (case parse_proxy_config p input of Inl e \<Rightarrow> assertions e | Inr config \<Rightarrow> False)"

definition test_parse_basic_valid_config :: "nat option \<Rightarrow> bool" where
  "test_parse_basic_valid_config p =
     parses p (join_lines
     ['''',
      ''            listen 8080;'',
      ''            route http://dashboard.myserver.home/api {'',
      ''                upstream http://localhost:3000;'',
      ''            }'',
      ''            ''])
     (\<lambda>config. cfg_listen_port config = 8080 \<and>
      length (cfg_routes config) = 1 \<and>
      rt_request_endpoint (cfg_routes config ! 0) = ''http://dashboard.myserver.home/api'' \<and>
      rt_forward_endpoint (cfg_routes config ! 0) = ''http://localhost:3000'')"

definition test_parse_config_with_multiple_routes :: "nat option \<Rightarrow> bool" where
  "test_parse_config_with_multiple_routes p =
     parses p (join_lines
     ['''',
      ''            listen 8080;'',
      ''            route /api {'',
      ''                upstream http://localhost:3000;'',
      ''            }'',
      ''            route /auth {'',
      ''                upstream http://localhost:4000;'',
      ''            }'',
      ''        ''])
     (\<lambda>config. length (cfg_routes config) = 2)"

definition test_parse_listen_port_line_too_many_arguments :: "nat option \<Rightarrow> bool" where
  "test_parse_listen_port_line_too_many_arguments p =
     rejects p (join_lines
     ['''',
      ''            listen 8080 443;'',
      ''            route http://dashboard.myserver.local/api {'',
      ''                upstream http://localhost:3000;'',
      ''            }'',
      ''            ''])
     (\<lambda>e. e = InvalidListenDirective)"

definition test_parse_listen_port_not_valid_u16_type :: "nat option \<Rightarrow> bool" where
  "test_parse_listen_port_not_valid_u16_type p =
     list_all (\<lambda>port.
     rejects p (''listen '' @ port @ '';'' @ [newline] @ ''route /api {'' @ [newline] @ ''    upstream http://localhost:3000;'' @ [newline] @ ''}'')
       (\<lambda>e. e = InvalidPort port))
     [''abc'', ''-1'', ''70000'']"

definition test_parse_no_listen_directive_given :: "nat option \<Rightarrow> bool" where
  "test_parse_no_listen_directive_given p =
     rejects p (join_lines
     ['''',
      ''            route http://dashboard.myserver.local/api {'',
      ''                upstream http://localhost:3000;'',
      ''            }'',
      ''            ''])
     (\<lambda>e. e = NoListenDirective)"

definition test_parse_multiple_listen_directives_given :: "nat option \<Rightarrow> bool" where
  "test_parse_multiple_listen_directives_given p =
     rejects p (join_lines
     ['''',
      ''            listen 8080;'',
      ''            listen 443;'',
      ''            route http://dashboard.myserver.local/api {'',
      ''                upstream http://localhost:3000;'',
      ''            }'',
      ''            ''])
     (\<lambda>e. e = TooManyListenDirectives)"

definition test_parse_route_line_too_many_arguments :: "nat option \<Rightarrow> bool" where
  "test_parse_route_line_too_many_arguments p =
     rejects p (join_lines
     ['''',
      ''            listen 8080;'',
      ''            route https://dashboard.myserver.local/api http://localhost:3000 http://localhost:3001;'',
      ''            ''])
     (\<lambda>e. e = InvalidRouteDirective
      ''route https://dashboard.myserver.local/api http://localhost:3000 http://localhost:3001;'')"

definition test_parse_route_missing_arguments :: "nat option \<Rightarrow> bool" where
  "test_parse_route_missing_arguments p =
     rejects p (join_lines
     ['''',
      ''            listen 8080;'',
      ''            route /api;'',
      ''        ''])
     (\<lambda>e. e = InvalidRouteDirective ''route /api;'')"

definition test_parse_no_route_directives_given :: "nat option \<Rightarrow> bool" where
  "test_parse_no_route_directives_given p =
     rejects p (join_lines
     ['''',
      ''            listen 8080;'',
      ''            ''])
     (\<lambda>e. e = NoRouteDirective)"

definition test_partial_invalid_config :: "nat option \<Rightarrow> bool" where
  "test_partial_invalid_config p =
     rejects p (join_lines
     ['''',
      ''        listen 8080;'',
      ''        route /api {'',
      ''            upstream http://localhost:3000;'',
      ''        }'',
      ''        route invalid;'',
      ''    ''])
     (\<lambda>e. e = InvalidRouteDirective ''route invalid;'')"

definition test_parse_duplicate_request_endpoint_routes :: "nat option \<Rightarrow> bool" where
  "test_parse_duplicate_request_endpoint_routes p =
     rejects p (join_lines
     ['''',
      ''            listen 8080;'',
      ''            route /api {'',
      ''                upstream http://localhost:3000;'',
      ''            }'',
      ''            route /api {'',
      ''                upstream http://localhost:4000;'',
      ''            }'',
      ''        ''])
     (\<lambda>e. e = DuplicateRequestEndpoint ''/api'')"

definition test_parse_missing_eol_semi_colon :: "nat option \<Rightarrow> bool" where
  "test_parse_missing_eol_semi_colon p =
     rejects p (join_lines
     ['''',
      ''            listen 443'',
      ''            route /api {'',
      ''                upstream http://localhost:3000;'',
      ''            }'',
      ''        ''])
     (\<lambda>e. case e of MissingSemicolon _ \<Rightarrow> True | _ \<Rightarrow> False)"

definition test_parse_whitespace_padding_is_sanitised_and_ignored :: "nat option \<Rightarrow> bool" where
  "test_parse_whitespace_padding_is_sanitised_and_ignored p =
     parses p (join_lines
     ['''',
      ''            listen                    8080       ;'',
      ''            route    /api    {'',
      ''                upstream    http://localhost:3000;'',
      ''            }'',
      ''        ''])
     (\<lambda>config. cfg_listen_port config = 8080 \<and>
      length (cfg_routes config) = 1 \<and>
      rt_request_endpoint (cfg_routes config ! 0) = ''/api'' \<and>
      rt_forward_endpoint (cfg_routes config ! 0) = ''http://localhost:3000'')"

definition test_parse_empty_config_file :: "nat option \<Rightarrow> bool" where
  "test_parse_empty_config_file p =
     rejects p [] (\<lambda>e. e = NoListenDirective)"

definition test_parse_whitespace_only_config :: "nat option \<Rightarrow> bool" where
  "test_parse_whitespace_only_config p =
     rejects p (join_lines
     ['''',
      '''',
      '''',
      '''',
      ''        ''])
     (\<lambda>e. e = NoListenDirective)"

definition test_parse_invalid_url_format_in_route :: "nat option \<Rightarrow> bool" where
  "test_parse_invalid_url_format_in_route p =
     rejects p (join_lines
     ['''',
      ''            listen 8080;'',
      ''            route not-a-url {'',
      ''                upstream http://localhost:3000;'',
      ''            }'',
      ''        ''])
     (\<lambda>e. case e of InvalidUrlFormat _ \<Rightarrow> True | _ \<Rightarrow> False)"

definition test_parse_directive_case_sensitivity :: "nat option \<Rightarrow> bool" where
  "test_parse_directive_case_sensitivity p =
     rejects p (join_lines
     ['''',
      ''            LISTEN 8080;'',
      ''            route /api http://localhost:3000;'',
      ''        ''])
     (\<lambda>e. case e of InvalidDirectiveCase _ \<Rightarrow> True | _ \<Rightarrow> False)"

definition test_parse_unknown_directives_in_config :: "nat option \<Rightarrow> bool" where
  "test_parse_unknown_directives_in_config p =
     rejects p (join_lines
     ['''',
      ''            listen 8080;'',
      ''            foo bar baz;'',
      ''            route /api http://localhost:3000;'',
      ''        ''])
     (\<lambda>e. case e of UnknownDirective _ \<Rightarrow> True | _ \<Rightarrow> False)"

definition test_trailing_garbage_in_directive_line :: "nat option \<Rightarrow> bool" where
  "test_trailing_garbage_in_directive_line p =
     rejects p (join_lines
     ['''',
      ''            listen 8080; garbage'',
      ''            route /api http://localhost:3000;'',
      ''        ''])
     (\<lambda>e. True)"

definition test_parse_valid_route_with_cert :: "nat option \<Rightarrow> bool" where
  "test_parse_valid_route_with_cert p =
     parses p (join_lines
     ['''',
      ''            listen 443;'',
      ''            workers 2;'',
      '''',
      ''            route https://dashboard.asahi.tailbce682.ts.net/ {'',
      ''                upstream http://localhost:3000/;'',
      ''                cert /var/lib/tailscale/certs/dashboard.crt;'',
      ''                key /var/lib/tailscale/certs/dashboard.key;'',
      ''            }'',
      ''        ''])
     (\<lambda>config. cfg_listen_port config = 443 \<and>
      cfg_workers config = 2 \<and>
      length (cfg_routes config) = 1 \<and>
      rt_request_endpoint (cfg_routes config ! 0) = ''https://dashboard.asahi.tailbce682.ts.net/'' \<and>
      rt_cert_path (cfg_routes config ! 0) = Some ''/var/lib/tailscale/certs/dashboard.crt'' \<and>
      rt_key_path (cfg_routes config ! 0) = Some ''/var/lib/tailscale/certs/dashboard.key'')"

definition test_parse_incomplete_route_cert_block :: "nat option \<Rightarrow> bool" where
  "test_parse_incomplete_route_cert_block p =
     rejects p (join_lines
     ['''',
      ''            listen 443;'',
      ''            route https://dashboard.asahi.tailbce682.ts.net/ {'',
      ''                upstream http://localhost:3000/;'',
      ''                cert /var/lib/tailscale/certs/dashboard.crt;'',
      ''            }'',
      ''        ''])
     (\<lambda>e. e = IncompleteRouteCertBlock ''https://dashboard.asahi.tailbce682.ts.net/'')"

definition test_parse_cert_not_allowed_for_http_route :: "nat option \<Rightarrow> bool" where
  "test_parse_cert_not_allowed_for_http_route p =
     rejects p (join_lines
     ['''',
      ''            listen 8080;'',
      ''            route http://dashboard.local/ {'',
      ''                upstream http://localhost:3000/;'',
      ''                cert /var/lib/tailscale/certs/dashboard.crt;'',
      ''                key /var/lib/tailscale/certs/dashboard.key;'',
      ''            }'',
      ''        ''])
     (\<lambda>e. e = CertNotAllowedForHttpRoute ''http://dashboard.local/'')"

definition test_parse_config_with_single_line_comments :: "nat option \<Rightarrow> bool" where
  "test_parse_config_with_single_line_comments p =
     parses p (join_lines
     ['''',
      ''            // Set the listening port'',
      ''            listen 8080; // This is the standard port'',
      ''            '',
      ''            // Define routes'',
      ''            route /api {'',
      ''                upstream http://localhost:3000;'',
      ''            }'',
      ''        ''])
     (\<lambda>config. cfg_listen_port config = 8080 \<and>
      length (cfg_routes config) = 1)"

definition test_parse_config_with_multi_line_comments :: "nat option \<Rightarrow> bool" where
  "test_parse_config_with_multi_line_comments p =
     parses p (join_lines
     ['''',
      ''            /*'',
      ''             * Multi-line configuration comment.'',
      ''             * It should be completely stripped by the preprocessor.'',
      ''             */'',
      ''            listen 8080;'',
      ''            '',
      ''            route /api {'',
      ''                upstream http://localhost:3000;'',
      ''            }'',
      ''        ''])
     (\<lambda>config. cfg_listen_port config = 8080 \<and>
      length (cfg_routes config) = 1)"

definition test_parse_comments_with_edge_cases :: "nat option \<Rightarrow> bool" where
  "test_parse_comments_with_edge_cases p =
     parses p (join_lines
     ['''',
      ''            listen 8080;//no-space-comment'',
      ''            '',
      ''            // Verify path and url slash edge cases:'',
      ''            // 1. :// is not a comment:'',
      ''            route http://example.com/ {'',
      ''                upstream http://localhost:3000;'',
      ''            }'',
      ''            '',
      ''            // 2. double slashes in paths is not a comment:'',
      ''            logfile /var/log//proxy.log;'',
      ''        ''])
     (\<lambda>config. cfg_listen_port config = 8080 \<and>
      length (cfg_routes config) = 1 \<and>
      rt_request_endpoint (cfg_routes config ! 0) = ''http://example.com/'' \<and>
      cfg_logfile config = Some ''/var/log//proxy.log'')"

definition test_parse_security_block_valid :: "nat option \<Rightarrow> bool" where
  "test_parse_security_block_valid p =
     parses p (join_lines
     ['''',
      ''            listen 8080;'',
      ''            route /api {'',
      ''                upstream http://localhost:3000;'',
      ''            }'',
      ''            security {'',
      ''                proxy_protocol on;'',
      ''                trusted_upstream 10.0.0.1;'',
      ''                timeout 200;'',
      ''            }'',
      ''        ''])
     (\<lambda>config. case cfg_security config of None \<Rightarrow> False | Some sec \<Rightarrow>
      sec_proxy_protocol sec \<and>
      Some (sec_trusted_upstream sec) = parse_ip_addr ''10.0.0.1'' \<and>
      sec_timeout_ms sec = 200 \<and>
      sec_max_tls_failures sec = 5 \<and>
      sec_ban_duration_sec sec = 3600)"

definition test_parse_security_block_custom_throttling_and_ban :: "nat option \<Rightarrow> bool" where
  "test_parse_security_block_custom_throttling_and_ban p =
     parses p (join_lines
     ['''',
      ''            listen 8080;'',
      ''            route /api {'',
      ''                upstream http://localhost:3000;'',
      ''            }'',
      ''            security {'',
      ''                max_tls_failures 3;'',
      ''                ban_duration 1800;'',
      ''            }'',
      ''        ''])
     (\<lambda>config. case cfg_security config of None \<Rightarrow> False | Some sec \<Rightarrow>
      sec_max_tls_failures sec = 3 \<and>
      sec_ban_duration_sec sec = 1800)"

definition test_parse_security_block_default_timeout :: "nat option \<Rightarrow> bool" where
  "test_parse_security_block_default_timeout p =
     parses p (join_lines
     ['''',
      ''            listen 8080;'',
      ''            route /api {'',
      ''                upstream http://localhost:3000;'',
      ''            }'',
      ''            security {'',
      ''                proxy_protocol off;'',
      ''            }'',
      ''        ''])
     (\<lambda>config. case cfg_security config of None \<Rightarrow> False | Some sec \<Rightarrow>
      \<not> sec_proxy_protocol sec \<and>
      sec_timeout_ms sec = 200)"

definition test_parse_security_block_missing_trusted_upstream_when_on :: "nat option \<Rightarrow> bool" where
  "test_parse_security_block_missing_trusted_upstream_when_on p =
     rejects p (join_lines
     ['''',
      ''            listen 8080;'',
      ''            route /api {'',
      ''                upstream http://localhost:3000;'',
      ''            }'',
      ''            security {'',
      ''                proxy_protocol on;'',
      ''            }'',
      ''        ''])
     (\<lambda>e. e = MissingSecurityDirective ''trusted_upstream'')"

definition proxy_conf_example :: string where
  "proxy_conf_example =
     join_lines
     [''listen 443;'',
      ''workers 2;'',
      ''logfile var/log/barebones-reverse-proxy/proxy.log;'',
      '''',
      ''// Upstream Error Interception (Default: off)'',
      ''// Discards 4xx/5xx error bodies from upstream backends and returns built-in retro error pages'',
      ''intercept_errors on;'',
      '''',
      ''// High-Performance In-Memory LRU Static Asset Cache'',
      ''cache {'',
      ''    enabled on;             // Enable/disable static asset caching (default: off)'',
      ''    max_capacity_mb 64;     // Maximum RAM capacity allocated for LRU cache (default: 64MB)'',
      ''    max_file_size_mb 2;     // Max file size of an individual cached asset (default: 2MB)'',
      ''    default_ttl_sec 300;    // Time-To-Live in seconds (default: 300s / 5 minutes)'',
      ''}'',
      '''',
      ''security {'',
      ''    // Proxy protocol v1 header parsing behind a trusted upstream load balancer'',
      ''    proxy_protocol off;'',
      ''    // trusted_upstream 10.0.0.1;'',
      ''    timeout 200;'',
      '''',
      ''    // Active defense & rate-limiting settings'',
      ''    max_tls_failures 5;    // Blacklist IP if > 5 TLS handshake failures occur within 60s'',
      ''    ban_duration 3600;     // Duration in seconds (3600 = 1 hour) that an IP remains blacklisted'',
      ''    rate_limit_rpm 300;    // Max HTTP requests per minute per IP before returning 429 Too Many Requests (set 0 to disable)'',
      '''',
      ''    // Payload & Header size limits (DoS Protection)'',
      ''    max_body_size 10M;     // Max HTTP request payload size (e.g. 10M, 500K, 1G or raw bytes; default: 10M)'',
      ''    max_header_size 64K;   // Max HTTP request headers size (e.g. 64K, 128K or raw bytes; default: 64K)'',
      '''',
      ''    // Forward Authentication Provider (Authelia / Authentik / OAuth2-Proxy)'',
      ''    forward_auth http://localhost:9091/api/verify;'',
      ''}'',
      '''',
      ''// Protected Route (Requires TLS cert/key and authentication via forward_auth provider)'',
      ''route https://dashboard.home/ {'',
      ''    upstream http://localhost:3001/;'',
      ''    auth on;'',
      ''    cert /etc/ssl/dashboard/cert.pem;'',
      ''    key /etc/ssl/dashboard/key.pem;'',
      ''    intercept_errors on; // Override per-route to intercept upstream errors'',
      ''}'',
      '''',
      ''// Public Route (Omit auth directive or set auth off)'',
      ''// route http://public.home/ {'',
      ''//     upstream http://localhost:4000/;'',
      ''//     auth off;'',
      ''//     intercept_errors off; // Allow raw 4xx/5xx responses from upstream backend'',
      ''// }'']"

definition test_parse_example_config_file :: "nat option \<Rightarrow> bool" where
  "test_parse_example_config_file p =
     parses p proxy_conf_example
     (\<lambda>config. cfg_listen_port config = 443 \<and> cfg_workers config = 2 \<and>
      (case cfg_security config of None \<Rightarrow> False | Some sec \<Rightarrow>
      \<not> sec_proxy_protocol sec \<and> sec_max_tls_failures sec = 5 \<and> sec_ban_duration_sec sec = 3600 \<and> sec_rate_limit_rpm sec = 300))"

definition test_parse_route_block_and_forward_auth :: "nat option \<Rightarrow> bool" where
  "test_parse_route_block_and_forward_auth p =
     parses p (join_lines
     ['''',
      ''            listen 8080;'',
      ''            security {'',
      ''                proxy_protocol off;'',
      ''                forward_auth http://localhost:9091/api/verify;'',
      ''            }'',
      ''            route https://grafana.example.com/ {'',
      ''                upstream http://localhost:3002/;'',
      ''                auth on;'',
      ''                cert /etc/ssl/grafana/cert.pem;'',
      ''                key /etc/ssl/grafana/key.pem;'',
      ''            }'',
      ''            route http://public.example.com/ {'',
      ''                upstream http://localhost:4000/;'',
      ''                auth off;'',
      ''            }'',
      ''        ''])
     (\<lambda>config. case cfg_security config of None \<Rightarrow> False | Some sec \<Rightarrow>
      sec_forward_auth sec = Some ''http://localhost:9091/api/verify'' \<and>
      length (cfg_routes config) = 2 \<and>
      rt_request_endpoint (cfg_routes config ! 0) = ''https://grafana.example.com/'' \<and>
      rt_forward_endpoint (cfg_routes config ! 0) = ''http://localhost:3002/'' \<and>
      rt_auth_required (cfg_routes config ! 0) \<and>
      rt_request_endpoint (cfg_routes config ! 1) = ''http://public.example.com/'' \<and>
      rt_forward_endpoint (cfg_routes config ! 1) = ''http://localhost:4000/'' \<and>
      \<not> rt_auth_required (cfg_routes config ! 1))"

definition test_parse_security_block_max_body_and_header_size :: "nat option \<Rightarrow> bool" where
  "test_parse_security_block_max_body_and_header_size p =
     parses p (join_lines
     ['''',
      ''            listen 8080;'',
      ''            route http://api.example.com/ {'',
      ''                upstream http://localhost:3000/;'',
      ''            }'',
      ''            security {'',
      ''                max_body_size 10M;'',
      ''                max_header_size 64K;'',
      ''            }'',
      ''        ''])
     (\<lambda>config. case cfg_security config of None \<Rightarrow> False | Some sec \<Rightarrow>
      sec_max_body_size sec = 10 * 1024 * 1024 \<and>
      sec_max_header_size sec = 64 * 1024)"

definition test_parse_intercept_errors_directive :: "nat option \<Rightarrow> bool" where
  "test_parse_intercept_errors_directive p =
     parses p (join_lines
     ['''',
      ''            listen 8080;'',
      ''            intercept_errors on;'',
      ''            route http://api.example.com/ {'',
      ''                upstream http://localhost:3000/;'',
      ''                intercept_errors off;'',
      ''            }'',
      ''            route http://app.example.com/ {'',
      ''                upstream http://localhost:4000/;'',
      ''            }'',
      ''        ''])
     (\<lambda>config. cfg_intercept_errors config = Some True \<and>
      rt_intercept_errors (cfg_routes config ! 0) = Some False \<and>
      \<not> route_should_intercept_errors (cfg_routes config ! 0) True \<and>
      rt_intercept_errors (cfg_routes config ! 1) = None \<and>
      route_should_intercept_errors (cfg_routes config ! 1) True)"

definition test_parse_size_string_units :: bool where
  "test_parse_size_string_units =
     (parse_size_string ''1024'' ''test'' = Inr 1024 \<and> parse_size_string ''10k'' ''test'' = Inr 10240 \<and>
      parse_size_string ''5M'' ''test'' = Inr (5 * 1024 * 1024) \<and> parse_size_string ''1G'' ''test'' = Inr (1024 * 1024 * 1024))"

definition parser_tests :: "(nat option \<Rightarrow> bool) list" where
  "parser_tests =
     [test_parse_basic_valid_config,
      test_parse_config_with_multiple_routes,
      test_parse_listen_port_line_too_many_arguments,
      test_parse_listen_port_not_valid_u16_type,
      test_parse_no_listen_directive_given,
      test_parse_multiple_listen_directives_given,
      test_parse_route_line_too_many_arguments,
      test_parse_route_missing_arguments,
      test_parse_no_route_directives_given,
      test_partial_invalid_config,
      test_parse_duplicate_request_endpoint_routes,
      test_parse_missing_eol_semi_colon,
      test_parse_whitespace_padding_is_sanitised_and_ignored,
      test_parse_empty_config_file,
      test_parse_whitespace_only_config,
      test_parse_invalid_url_format_in_route,
      test_parse_directive_case_sensitivity,
      test_parse_unknown_directives_in_config,
      test_trailing_garbage_in_directive_line,
      test_parse_valid_route_with_cert,
      test_parse_incomplete_route_cert_block,
      test_parse_cert_not_allowed_for_http_route,
      test_parse_config_with_single_line_comments,
      test_parse_config_with_multi_line_comments,
      test_parse_comments_with_edge_cases,
      test_parse_security_block_valid,
      test_parse_security_block_custom_throttling_and_ban,
      test_parse_security_block_default_timeout,
      test_parse_security_block_missing_trusted_upstream_when_on,
      test_parse_example_config_file,
      test_parse_route_block_and_forward_auth,
      test_parse_security_block_max_body_and_header_size,
      test_parse_intercept_errors_directive]"

section \<open>The tests pass\<close>

named_theorems passing \<open>the tests that pass\<close>

lemmas test_eval = parses_def rejects_def parse_proxy_config_def config_lines_join kept_text_def single_line_simps
  strip_flag_simps parser_eval

lemma test_parse_basic_valid_config_passes [passing]: "test_parse_basic_valid_config p"
  by (simp add: test_parse_basic_valid_config_def test_eval)

lemma test_parse_config_with_multiple_routes_passes [passing]: "test_parse_config_with_multiple_routes p"
  by (simp add: test_parse_config_with_multiple_routes_def test_eval)

lemma test_parse_listen_port_line_too_many_arguments_passes [passing]: "test_parse_listen_port_line_too_many_arguments p"
  by (simp add: test_parse_listen_port_line_too_many_arguments_def test_eval)

lemma test_parse_listen_port_not_valid_u16_type_passes [passing]: "test_parse_listen_port_not_valid_u16_type p"
  by (simp add: test_parse_listen_port_not_valid_u16_type_def config_lines_eval test_eval)

lemma test_parse_no_listen_directive_given_passes [passing]: "test_parse_no_listen_directive_given p"
  by (simp add: test_parse_no_listen_directive_given_def test_eval)

lemma test_parse_multiple_listen_directives_given_passes [passing]: "test_parse_multiple_listen_directives_given p"
  by (simp add: test_parse_multiple_listen_directives_given_def test_eval)

lemma test_parse_route_line_too_many_arguments_passes [passing]: "test_parse_route_line_too_many_arguments p"
  by (simp add: test_parse_route_line_too_many_arguments_def test_eval)

lemma test_parse_route_missing_arguments_passes [passing]: "test_parse_route_missing_arguments p"
  by (simp add: test_parse_route_missing_arguments_def test_eval)

lemma test_parse_no_route_directives_given_passes [passing]: "test_parse_no_route_directives_given p"
  by (simp add: test_parse_no_route_directives_given_def test_eval)

lemma test_partial_invalid_config_passes [passing]: "test_partial_invalid_config p"
  by (simp add: test_partial_invalid_config_def test_eval)

lemma test_parse_duplicate_request_endpoint_routes_passes [passing]: "test_parse_duplicate_request_endpoint_routes p"
  by (simp add: test_parse_duplicate_request_endpoint_routes_def test_eval)

lemma test_parse_missing_eol_semi_colon_passes [passing]: "test_parse_missing_eol_semi_colon p"
  by (simp add: test_parse_missing_eol_semi_colon_def test_eval)

lemma test_parse_whitespace_padding_is_sanitised_and_ignored_passes [passing]: "test_parse_whitespace_padding_is_sanitised_and_ignored p"
  by (simp add: test_parse_whitespace_padding_is_sanitised_and_ignored_def test_eval)

lemma test_parse_empty_config_file_passes [passing]: "test_parse_empty_config_file p"
  by (simp add: test_parse_empty_config_file_def config_lines_eval test_eval)

lemma test_parse_whitespace_only_config_passes [passing]: "test_parse_whitespace_only_config p"
  by (simp add: test_parse_whitespace_only_config_def test_eval)

lemma test_parse_invalid_url_format_in_route_passes [passing]: "test_parse_invalid_url_format_in_route p"
  by (simp add: test_parse_invalid_url_format_in_route_def test_eval)

lemma test_parse_directive_case_sensitivity_passes [passing]: "test_parse_directive_case_sensitivity p"
  by (simp add: test_parse_directive_case_sensitivity_def test_eval)

lemma test_parse_unknown_directives_in_config_passes [passing]: "test_parse_unknown_directives_in_config p"
  by (simp add: test_parse_unknown_directives_in_config_def test_eval)

lemma test_trailing_garbage_in_directive_line_passes [passing]: "test_trailing_garbage_in_directive_line p"
  by (simp add: test_trailing_garbage_in_directive_line_def test_eval)

lemma test_parse_valid_route_with_cert_passes [passing]: "test_parse_valid_route_with_cert p"
  by (simp add: test_parse_valid_route_with_cert_def test_eval)

lemma test_parse_incomplete_route_cert_block_passes [passing]: "test_parse_incomplete_route_cert_block p"
  by (simp add: test_parse_incomplete_route_cert_block_def test_eval)

lemma test_parse_cert_not_allowed_for_http_route_passes [passing]: "test_parse_cert_not_allowed_for_http_route p"
  by (simp add: test_parse_cert_not_allowed_for_http_route_def test_eval)

lemma test_parse_config_with_single_line_comments_passes [passing]: "test_parse_config_with_single_line_comments p"
  by (simp add: test_parse_config_with_single_line_comments_def test_eval)

lemma test_parse_config_with_multi_line_comments_passes [passing]: "test_parse_config_with_multi_line_comments p"
  by (simp add: test_parse_config_with_multi_line_comments_def parses_def parse_proxy_config_def join_lines_def config_lines_eval parser_eval)

lemma test_parse_comments_with_edge_cases_passes [passing]: "test_parse_comments_with_edge_cases p"
  by (simp add: test_parse_comments_with_edge_cases_def test_eval)

lemma test_parse_security_block_valid_passes [passing]: "test_parse_security_block_valid p"
  by (simp add: test_parse_security_block_valid_def test_eval)

lemma test_parse_security_block_custom_throttling_and_ban_passes [passing]: "test_parse_security_block_custom_throttling_and_ban p"
  by (simp add: test_parse_security_block_custom_throttling_and_ban_def test_eval)

lemma test_parse_security_block_default_timeout_passes [passing]: "test_parse_security_block_default_timeout p"
  by (simp add: test_parse_security_block_default_timeout_def test_eval)

lemma test_parse_security_block_missing_trusted_upstream_when_on_passes [passing]: "test_parse_security_block_missing_trusted_upstream_when_on p"
  by (simp add: test_parse_security_block_missing_trusted_upstream_when_on_def test_eval)

lemma test_parse_example_config_file_passes [passing]: "test_parse_example_config_file p"
  by (simp add: test_parse_example_config_file_def proxy_conf_example_def test_eval)

lemma test_parse_route_block_and_forward_auth_passes [passing]: "test_parse_route_block_and_forward_auth p"
  by (simp add: test_parse_route_block_and_forward_auth_def test_eval)

lemma test_parse_security_block_max_body_and_header_size_passes [passing]: "test_parse_security_block_max_body_and_header_size p"
  by (simp add: test_parse_security_block_max_body_and_header_size_def test_eval)

lemma test_parse_intercept_errors_directive_passes [passing]: "test_parse_intercept_errors_directive p"
  by (simp add: test_parse_intercept_errors_directive_def route_should_intercept_errors_def test_eval)

lemma test_parse_size_string_units_passes [passing]: "test_parse_size_string_units"
  by (simp add: test_parse_size_string_units_def test_eval)

lemma parser_tests_pass: "list_all (\<lambda>test. test p) parser_tests"
  by (simp add: parser_tests_def passing)

end
