(* ===== verification/Unit_Tests.thy ===== *)
theory Unit_Tests
  imports Server Parser_Tests
begin

text \<open>
  The unit tests of the other modules, one definition per test function, run on the model.
\<close>

section \<open>The tests\<close>

text \<open>An asserted result of an operation; the rest of the test goes on with the state it leaves.\<close>

definition returns :: "'a outcome \<times> 's \<Rightarrow> 'a \<Rightarrow> ('s \<Rightarrow> bool) \<Rightarrow> bool" where
  "returns r x rest \<longleftrightarrow> fst r = Returned x \<and> rest (snd r)"

subsection \<open>\<open>security.rs\<close>\<close>

text \<open>All calls of a test read the clock at \<open>t\<close>, except after the call of \<open>sleep\<close>.\<close>

fun failure_rounds :: "Instant \<Rightarrow> IpAddr \<Rightarrow> nat list \<Rightarrow> (SecurityManager \<Rightarrow> bool) \<Rightarrow> SecurityManager \<Rightarrow> bool" where
  "failure_rounds t ip [] rest manager = rest manager"
| "failure_rounds t ip (i # is) rest manager =
     returns (record_tls_failure t ip manager) False (\<lambda>manager.
     returns (is_blacklisted t ip manager) False (\<lambda>manager.
     returns (get_tls_failure_count t ip manager) i (failure_rounds t ip is rest)))"

definition test_tls_failure_tracking_and_blacklisting :: "Instant \<Rightarrow> bool" where
  "test_tls_failure_tracking_and_blacklisting t =
     (let ip = V4 192 168 1 100
      in returns (is_blacklisted t ip security_default) False (\<lambda>manager.
         returns (get_tls_failure_count t ip manager) 0
         (failure_rounds t ip [1, 2, 3, 4, 5] (\<lambda>manager.
         returns (record_tls_failure t ip manager) True (\<lambda>manager.
         returns (is_blacklisted t ip manager) True (\<lambda>manager.
         returns (get_tls_failure_count t ip manager) 6 (\<lambda>manager. True)))))))"

definition test_manual_blacklisting :: "Instant \<Rightarrow> bool" where
  "test_manual_blacklisting t =
     (let ip = V4 10 0 0 5
      in returns (is_blacklisted t ip security_default) False (\<lambda>manager.
         returns (add_to_blacklist t ip manager) () (\<lambda>manager.
         returns (is_blacklisted t ip manager) True (\<lambda>manager. True))))"

definition test_ban_expiration :: "Instant \<Rightarrow> bool" where
  "test_ban_expiration t =
     (let ip = V4 172 16 0 1
      in returns (add_to_blacklist t ip (security_new (from_millis 50) 5 60)) () (\<lambda>manager.
         returns (is_blacklisted t ip manager) True (\<lambda>manager.
         returns (is_blacklisted (t + from_millis 60) ip manager) False (\<lambda>manager. True))))"

definition test_request_rate_limiting :: "Instant \<Rightarrow> bool" where
  "test_request_rate_limiting t =
     (let ip = V4 192 168 2 1
      in returns (check_and_record_request t ip (security_new (from_secs 3600) 5 3)) (Inr 1) (\<lambda>manager.
         returns (check_and_record_request t ip manager) (Inr 2) (\<lambda>manager.
         returns (check_and_record_request t ip manager) (Inr 3) (\<lambda>manager.
         returns (check_and_record_request t ip manager) (Inl 4) (\<lambda>manager. True)))))"

subsection \<open>\<open>cache.rs\<close>\<close>

definition test_is_static_asset_service_worker_exclusions :: bool where
  "test_is_static_asset_service_worker_exclusions =
     (is_static_asset ''/assets/app.css'' None \<and> is_static_asset ''/assets/bundle-123.js'' None \<and>
      is_static_asset ''/logo.png'' None \<and>
      \<not> is_static_asset ''/sw.js'' None \<and> \<not> is_static_asset ''/registerSW.js'' None \<and>
      \<not> is_static_asset ''/workbox-9c191d2f.js'' None \<and> \<not> is_static_asset ''/custom-service-worker.js'' None \<and>
      \<not> is_static_asset ''/manifest.webmanifest'' None \<and> \<not> is_static_asset ''/index.html'' None \<and>
      \<not> is_static_asset ''/'' None \<and> \<not> is_static_asset ''/page.html'' (Some ''text/html''))"

definition test_lru_cache_hit_and_miss :: "Instant \<Rightarrow> bool" where
  "test_lru_cache_hit_and_miss t =
     (let engine = cache_new list_lru_ops (1024 * 1024) (100 * 1024) 300;
          key = ''example.local:/style.css'';
          (miss, engine) = cache_get list_lru_ops t key engine;
          body = utf8 ''body { color: red; }''
      in miss = None \<and>
         (case cache_insert list_lru_ops t key 200 ([] :: alist_headers) body None engine of
            None \<Rightarrow> False
          | Some (r, engine) \<Rightarrow>
              ir_inserted r \<and>
              (case fst (cache_get list_lru_ops t key engine) of
                 None \<Rightarrow> False
               | Some hit \<Rightarrow> ca_status hit = 200 \<and> ca_body hit = body)))"

definition test_lru_cache_eviction :: "Instant \<Rightarrow> bool" where
  "test_lru_cache_eviction t =
     (let engine = cache_new list_lru_ops 50 100 300;
          put = (\<lambda>key. cache_insert list_lru_ops t key 200 ([] :: alist_headers) (utf8 ''12345678901234567890'') None)
      in case put ''key1'' engine of None \<Rightarrow> False | Some (res1, engine) \<Rightarrow>
         ir_inserted res1 \<and>
         (case put ''key2'' engine of None \<Rightarrow> False | Some (res2, engine) \<Rightarrow>
          ir_inserted res2 \<and>
          (case put ''key3'' engine of None \<Rightarrow> False | Some (res3, engine) \<Rightarrow>
           ir_inserted res3 \<and> ir_items_evicted res3 = 1 \<and> ir_bytes_evicted res3 = 20 \<and>
           (let (found1, engine) = cache_get list_lru_ops t ''key1'' engine;
                (found2, engine) = cache_get list_lru_ops t ''key2'' engine;
                (found3, engine) = cache_get list_lru_ops t ''key3'' engine
            in found1 = None \<and> found2 \<noteq> None \<and> found3 \<noteq> None))))"

subsection \<open>\<open>proxy_protocol.rs\<close>\<close>

definition test_parse_proxy_protocol_v1_valid :: bool where
  "test_parse_proxy_protocol_v1_valid =
     (case parse_proxy_protocol_v1 (''PROXY TCP4 1.2.3.4 5.6.7.8 12345 80'' @ crlf) of
        Returned (Some (ip, port)) \<Rightarrow> Some ip = parse_ip_addr ''1.2.3.4'' \<and> port = 12345
      | _ \<Rightarrow> False)"

definition test_parse_proxy_protocol_v1_invalid :: bool where
  "test_parse_proxy_protocol_v1_invalid =
     list_all (\<lambda>header. parse_proxy_protocol_v1 header = Returned None)
       [''PROXY TCP4 1.2.3.4'' @ crlf, ''PROXY TCP4 1.2.3.4 5.6.7.8 12345'' @ crlf,
        ''PROXY TCP6 1.2.3.4 5.6.7.8 12345 80'' @ crlf, ''PROXY TCP4 1.2.3.4 5.6.7.8 12345 80'']"

subsection \<open>\<open>error_pages.rs\<close>\<close>

text \<open>The header maps of the tests, with the reason phrases they rely on.\<close>

definition test_http :: "(alist_headers, string) http_ops" where
  "test_http = example_http\<lparr>st_canonical_reason := [429 \<mapsto> ''Too Many Requests'', 502 \<mapsto> ''Bad Gateway'']\<rparr>"

definition test_render_html_error_page :: bool where
  "test_render_html_error_page =
     (let html = render_html_error_page test_http 502 ''Upstream connection failed'' ''127.0.0.1'' ''example.local''
      in contains html ''502'' \<and> contains html ''Bad Gateway'' \<and> contains html ''Upstream connection failed'' \<and>
         contains html ''example.local'' \<and> contains html ''127.0.0.1'')"

definition test_build_error_response_json :: bool where
  "test_build_error_response_json =
     (let headers = hm_insert test_http ''accept'' (hv_from_static test_http ''application/json'') (hm_new test_http);
          resp = build_error_response test_http 429 ''Rate limit exceeded'' ''1.2.3.4'' ''example.local'' (Some headers)
            :: (alist_headers, unit) Response
      in rs_status resp = 429 \<and> header_str test_http (rs_headers resp) ''content-type'' = Some ''application/json'')"

subsection \<open>\<open>auth.rs\<close>\<close>

text \<open>\<open>MockAuthProvider\<close>; a failed \<open>unwrap\<close> is a panic.\<close>

definition mock_authenticate ::
  "('h, 'v) http_ops \<Rightarrow> bool \<Rightarrow> string \<Rightarrow> string \<Rightarrow> string \<Rightarrow> Uri \<Rightarrow> 'h \<Rightarrow> (BoxError + ('h, 'b) AuthResult) outcome" where
  "mock_authenticate ops allow peer_addr client_ip method uri headers =
     (if allow
      then (case hv_from_str ops ''testuser'' of
              None \<Rightarrow> Panicked
            | Some v \<Rightarrow> Returned (Inr (Success (hm_insert ops ''remote-user'' v (hm_new ops)))))
      else (case builder_headers ops [(''location'', ''https://auth.example.com/login'')] (hm_new ops) of
              Inl e \<Rightarrow> Panicked
            | Inr h \<Rightarrow> Returned (Inr (Denied \<lparr>rs_status = 302, rs_headers = h, rs_body = Full []\<rparr>))))"

definition test_mock_auth_provider_success :: bool where
  "test_mock_auth_provider_success =
     (case uri_parse test_http ''https://example.local/dashboard'' of
        None \<Rightarrow> False
      | Some uri \<Rightarrow>
          (case mock_authenticate test_http True ''127.0.0.1:1234'' ''127.0.0.1'' ''GET'' uri (hm_new test_http)
                  :: (BoxError + (alist_headers, unit) AuthResult) outcome of
             Returned (Inr (Success headers)) \<Rightarrow> header_str test_http headers ''remote-user'' = Some ''testuser''
           | _ \<Rightarrow> False))"

definition test_mock_auth_provider_denied :: bool where
  "test_mock_auth_provider_denied =
     (case uri_parse test_http ''https://example.local/dashboard'' of
        None \<Rightarrow> False
      | Some uri \<Rightarrow>
          (case mock_authenticate test_http False ''127.0.0.1:1234'' ''127.0.0.1'' ''GET'' uri (hm_new test_http)
                  :: (BoxError + (alist_headers, unit) AuthResult) outcome of
             Returned (Inr (Denied response)) \<Rightarrow>
               rs_status response = 302 \<and>
               header_str test_http (rs_headers response) ''location'' = Some ''https://auth.example.com/login''
           | _ \<Rightarrow> False))"

subsection \<open>\<open>runtime_config.rs\<close>\<close>

text \<open>The surroundings after \<open>write_temp_config\<close>: the file has these contents, whatever its path.\<close>

definition write_temp_config :: "string \<Rightarrow> (string, string, string, string, alist_headers, unit) environment" where
  "write_temp_config contents = example_env\<lparr>env_read_to_string := (\<lambda>path. Inr contents)\<rparr>"

definition empty_store :: "(string, alist_headers CachedAsset) list_lru Store" where
  "empty_store = \<lparr>st_managers = [], st_engines = []\<rparr>"

text \<open>The contents of the files, which differ in indentation, port, path and upstream.\<close>

definition test_config :: "string \<Rightarrow> string \<Rightarrow> string \<Rightarrow> string \<Rightarrow> string" where
  "test_config indent port path upstream =
     join_lines
       ['''', indent @ ''listen '' @ port @ '';'', indent @ ''workers 2;'', indent @ ''route http://example.com'' @ path @ '' {'',
        indent @ ''    upstream http://localhost:'' @ upstream @ '';'', indent @ ''}'', indent]"

definition reload_accepts_route_changes_when_startup_shape_matches :: "string \<Rightarrow> bool" where
  "reload_accepts_route_changes_when_startup_shape_matches path =
     (case load_active_config_from_path (write_temp_config (test_config ''            '' ''8080'' ''/new'' ''4000'')) list_lru_ops
             path 8080 2 1 None empty_store of
        (Returned (Inr active), s) \<Rightarrow>
          match_route (ac_router active) ''example.com'' ''/new'' \<noteq> None \<and> ac_generation active = 1
      | _ \<Rightarrow> False)"

definition reload_rejects_listen_port_changes :: "string \<Rightarrow> bool" where
  "reload_rejects_listen_port_changes path =
     (case load_active_config_from_path (write_temp_config (test_config ''            '' ''9090'' ''/api'' ''3000'')) list_lru_ops
             path 8080 2 1 None empty_store of
        (Returned (Inl error), s) \<Rightarrow> contains (load_error_text (\<lambda>e. []) error) ''listen port changed''
      | _ \<Rightarrow> False)"

definition load_and_build ::
  "string \<Rightarrow> string \<Rightarrow> nat \<Rightarrow> (string, alist_headers CachedAsset) list_lru Store \<Rightarrow>
   (LoadError + (string, alist_headers, unit) ActiveConfig) outcome \<times> (string, alist_headers CachedAsset) list_lru Store" where
  "load_and_build path contents generation s =
     (case load_config_from_path (write_temp_config contents) path of
        Inl e \<Rightarrow> (Panicked, s)
      | Inr config \<Rightarrow> build_active_config (write_temp_config contents) list_lru_ops config generation None s)"

definition config_store_updates_are_visible_to_readers :: "string \<Rightarrow> bool" where
  "config_store_updates_are_visible_to_readers path =
     (case load_and_build path (test_config ''                '' ''8080'' ''/api'' ''3000'') 0 empty_store of
        (Returned (Inr initial), s) \<Rightarrow>
          (case load_and_build path (test_config ''                '' ''8080'' ''/admin'' ''4000'') 1 s of
             (Returned (Inr updated), s') \<Rightarrow>
               returns (config_store updated (create_config_store initial)) () (\<lambda>shared.
                 case config_load shared of
                   Panicked \<Rightarrow> False
                 | Returned current \<Rightarrow>
                     match_route (ac_router current) ''example.com'' ''/admin'' \<noteq> None \<and> ac_generation current = 1)
           | _ \<Rightarrow> False)
      | _ \<Rightarrow> False)"

definition module_tests :: "Instant \<Rightarrow> string \<Rightarrow> bool list" where
  "module_tests t path =
     [test_parse_size_string_units,
      test_tls_failure_tracking_and_blacklisting t, test_manual_blacklisting t, test_ban_expiration t,
      test_request_rate_limiting t,
      test_is_static_asset_service_worker_exclusions, test_lru_cache_hit_and_miss t, test_lru_cache_eviction t,
      test_parse_proxy_protocol_v1_valid, test_parse_proxy_protocol_v1_invalid,
      test_render_html_error_page, test_build_error_response_json,
      test_mock_auth_provider_success, test_mock_auth_provider_denied,
      reload_accepts_route_changes_when_startup_shape_matches path, reload_rejects_listen_port_changes path,
      config_store_updates_are_visible_to_readers path]"

section \<open>The tests pass\<close>

lemmas manager_test_eval = returns_def failure_rounds.simps is_blacklisted_def add_to_blacklist_def get_tls_failure_count_def
  record_tls_failure_def check_and_record_request_def locked_def cleanup_def retain_recent_def track_def
  security_default_def security_new_def DEFAULT_MAX_TLS_FAILURES_def DEFAULT_BAN_DURATION_def DEFAULT_RATE_LIMIT_RPM_def
  instant_add_def instant_max_value from_millis_def sec_eval

text \<open>The rest of a test is evaluated only when the state is known.\<close>

lemma returns_cong: "r = r' \<Longrightarrow> returns r x rest = returns r' x rest"
  by simp

lemma failure_rounds_cong: "m = m' \<Longrightarrow> failure_rounds t ip is rest m = failure_rounds t ip is rest m'"
  by simp

lemma map_retain_upd: "map_retain f (m(k \<mapsto> v)) = (map_retain f m)(k := f v)"
  by (auto simp: map_retain_def)

lemma security_tests [passing]:
  "test_tls_failure_tracking_and_blacklisting (from_secs 1)"
  "test_manual_blacklisting (from_secs 1)"
  "test_ban_expiration (from_secs 1)"
  "test_request_rate_limiting (from_secs 1)"
  by (simp_all add: test_tls_failure_tracking_and_blacklisting_def test_manual_blacklisting_def test_ban_expiration_def
      test_request_rate_limiting_def manager_test_eval map_retain_upd cong: returns_cong failure_rounds_cong)

lemma static_asset_test [passing]: "test_is_static_asset_service_worker_exclusions"
  by (simp add: test_is_static_asset_service_worker_exclusions_def is_static_asset_def is_uncacheable_entrypoint_def
      static_extensions_def static_content_types_def str_eval)

lemma cache_tests [passing]: "test_lru_cache_hit_and_miss t" "test_lru_cache_eviction t"
  by (simp_all add: test_lru_cache_hit_and_miss_def test_lru_cache_eviction_def cache_eval utf8_def utf8_char_def)

lemma proxy_protocol_tests [passing]: "test_parse_proxy_protocol_v1_valid" "test_parse_proxy_protocol_v1_invalid"
  by (simp_all add: test_parse_proxy_protocol_v1_valid_def test_parse_proxy_protocol_v1_invalid_def parse_proxy_protocol_v1_def
      parse_proxy_payload_def str_slice_def crlf_def str_eval)

lemma error_page_tests [passing]: "test_render_html_error_page" "test_build_error_response_json"
proof -
  show "test_build_error_response_json"
    by (simp add: test_build_error_response_json_def build_error_response_def wants_json_def test_http_def example_http_def http_eval
        str_eval Let_def)
  have "show_nat 502 = ''502''" by (simp add: show_nat.simps str_eval)
  moreover have "unwrap_or (st_canonical_reason test_http 502) ''Error'' = ''Bad Gateway''" by (simp add: test_http_def)
  ultimately show "test_render_html_error_page"
    using html_error_page_shows [of test_http 502 "''Upstream connection failed''" "''127.0.0.1''" "''example.local''"]
    by (simp add: test_render_html_error_page_def)
qed

lemma auth_tests [passing]: "test_mock_auth_provider_success" "test_mock_auth_provider_denied"
  by (simp_all add: test_mock_auth_provider_success_def test_mock_auth_provider_denied_def mock_authenticate_def test_http_def
      example_http_def http_eval)

definition example_config :: "nat \<Rightarrow> string \<Rightarrow> string \<Rightarrow> Config" where
  "example_config port path upstream =
     \<lparr>cfg_listen_port = port,
      cfg_routes = [\<lparr>rt_request_endpoint = ''http://example.com'' @ path, rt_forward_endpoint = ''http://localhost:'' @ upstream,
        rt_auth_required = False, rt_cert_path = None, rt_key_path = None, rt_cache = None, rt_intercept_errors = None\<rparr>],
      cfg_workers = 2, cfg_logfile = None, cfg_security = None, cfg_cache = None, cfg_intercept_errors = None\<rparr>"

lemma test_configs_parse:
  "parse_proxy_config p (test_config ''            '' ''8080'' ''/new'' ''4000'') = Inr (example_config 8080 ''/new'' ''4000'')"
  "parse_proxy_config p (test_config ''            '' ''9090'' ''/api'' ''3000'') = Inr (example_config 9090 ''/api'' ''3000'')"
  "parse_proxy_config p (test_config ''                '' ''8080'' ''/api'' ''3000'') = Inr (example_config 8080 ''/api'' ''3000'')"
  "parse_proxy_config p (test_config ''                '' ''8080'' ''/admin'' ''4000'') = Inr (example_config 8080 ''/admin'' ''4000'')"
  by (simp_all add: test_config_def example_config_def test_eval)

lemmas load_test_eval = load_active_config_from_path_def load_config_from_path_def write_temp_config_def map_err_def and_then_def
  test_configs_parse

lemma runtime_config_tests [passing]:
  "reload_accepts_route_changes_when_startup_shape_matches path"
  "reload_rejects_listen_port_changes path"
  "config_store_updates_are_visible_to_readers path"
  by (simp_all add: reload_accepts_route_changes_when_startup_shape_matches_def reload_rejects_listen_port_changes_def
      config_store_updates_are_visible_to_readers_def load_and_build_def load_test_eval build_active_config_def
      build_tls_acceptor_def https_endpoint_def alloc_manager_def build_auth_provider_def build_cache_engine_def
      config_store_def create_config_store_def config_load_def returns_def example_config_def empty_store_def router_eval str_eval)

section \<open>Properties\<close>


end
